(* ===== verification/Prelude.thy ===== *)
theory Prelude
  imports Main "HOL-Library.Word" "HOL-Library.AList"
begin

text \<open>
  Shared vocabulary of the development: fixed-size C character arrays, the decimal rendering
  used by \<^verbatim>\<open>std::to_string\<close> and stream output, hash maps kept as association lists with distinct
  keys (the list order is one possible iteration order), and the lemma collections that the
  component theories feed to the simplifier.
\<close>

named_theorems cstr_simps \<open>facts about fixed-size character arrays\<close>
named_theorems amap_simps \<open>lookup laws of the hash maps\<close>

type_synonym u8 = "8 word"
type_synonym u16 = "16 word"
type_synonym u32 = "32 word"
type_synonym u64 = "64 word"

section \<open>C strings in fixed-size arrays\<close>

text \<open>The part of a byte sequence that a C string function reads: up to the first NUL.\<close>

definition c_str :: "string \<Rightarrow> string" where
  "c_str s = takeWhile (\<lambda>c. c \<noteq> CHR 0x00) s"

text \<open>
  The contents of a zero-filled \<^verbatim>\<open>char[n]\<close> after \<^verbatim>\<open>strncpy(dst, src, n - 1)\<close>, read back as a C
  string. Since the last byte stays zero the field is always terminated.
\<close>

definition strncpy_field :: "nat \<Rightarrow> string \<Rightarrow> string" where
  "strncpy_field n s = take (n - 1) (c_str s)"

definition fits :: "nat \<Rightarrow> string \<Rightarrow> bool" where
  "fits n s \<longleftrightarrow> length s < n \<and> CHR 0x00 \<notin> set s"

lemma c_str_no_nul [cstr_simps]: "CHR 0x00 \<notin> set (c_str s)"
  unfolding c_str_def by (auto dest: set_takeWhileD)

lemma c_str_id [cstr_simps]: "CHR 0x00 \<notin> set s \<Longrightarrow> c_str s = s"
  unfolding c_str_def by (subst takeWhile_eq_all_conv) auto

lemma c_str_Nil [simp]: "c_str [] = []"
  by (simp add: c_str_def)

lemma strncpy_field_Nil [simp]: "strncpy_field n [] = []"
  by (simp add: strncpy_field_def)

lemma strncpy_field_fits: "0 < n \<Longrightarrow> fits n (strncpy_field n s)"
  unfolding fits_def strncpy_field_def
  using c_str_no_nul [of s] by (auto dest: in_set_takeD)

lemma strncpy_field_id [cstr_simps]: "fits n s \<Longrightarrow> strncpy_field n s = s"
  by (auto simp: fits_def strncpy_field_def c_str_id)

lemma strncpy_field_idem [simp]: "strncpy_field n (strncpy_field n s) = strncpy_field n s"
proof (cases "0 < n")
  case True
  then show ?thesis by (simp add: strncpy_field_id strncpy_field_fits)
next
  case False
  then show ?thesis by (simp add: strncpy_field_def)
qed

lemma length_strncpy_field: "length (strncpy_field n s) \<le> n - 1"
  by (simp add: strncpy_field_def)

section \<open>Decimal rendering of integers\<close>

definition digit_char :: "nat \<Rightarrow> char" where
  "digit_char d = char_of (48 + d)"

fun show_nat :: "nat \<Rightarrow> string" where
  "show_nat n = (if n < 10 then [digit_char n] else show_nat (n div 10) @ [digit_char (n mod 10)])"

declare show_nat.simps [simp del]

definition show_int :: "int \<Rightarrow> string" where
  "show_int i = (if i < 0 then CHR ''-'' # show_nat (nat (- i)) else show_nat (nat i))"

definition char_digit :: "char \<Rightarrow> nat" where
  "char_digit c = of_char c - 48"

definition read_nat :: "string \<Rightarrow> nat" where
  "read_nat s = foldl (\<lambda>a c. 10 * a + char_digit c) 0 s"

lemma char_digit_digit_char [simp]: "d < 10 \<Longrightarrow> char_digit (digit_char d) = d"
  by (simp add: char_digit_def digit_char_def)

lemma of_char_digit_char: "d < 10 \<Longrightarrow> (of_char (digit_char d) :: nat) = 48 + d"
  by (simp add: digit_char_def)

lemma read_nat_show_nat [simp]: "read_nat (show_nat n) = n"
proof (induction n rule: show_nat.induct)
  case (1 n)
  show ?case
  proof (cases "n < 10")
    case True
    then show ?thesis by (simp add: show_nat.simps read_nat_def)
  next
    case False
    with 1 have "read_nat (show_nat (n div 10)) = n div 10" by simp
    with False show ?thesis
      by (simp add: show_nat.simps [of n] read_nat_def)
  qed
qed

lemma show_nat_inject [simp]: "show_nat m = show_nat n \<longleftrightarrow> m = n"
  by (metis read_nat_show_nat)

lemma show_nat_not_Nil [simp]: "show_nat n \<noteq> []"
  by (subst show_nat.simps) simp

lemma show_nat_digits: "c \<in> set (show_nat n) \<Longrightarrow> 48 \<le> (of_char c :: nat) \<and> (of_char c :: nat) \<le> 57"
proof (induction n rule: show_nat.induct)
  case (1 n)
  show ?case
  proof (cases "n < 10")
    case True
    with "1.prems" show ?thesis
      by (simp add: show_nat.simps [of n] of_char_digit_char)
  next
    case False
    have m: "n mod 10 < 10" by simp
    from False "1.prems" have "c \<in> set (show_nat (n div 10)) \<or> c = digit_char (n mod 10)"
      by (auto simp: show_nat.simps [of n])
    then show ?thesis
    proof
      assume "c \<in> set (show_nat (n div 10))"
      with False "1.IH" show ?thesis by blast
    next
      assume "c = digit_char (n mod 10)"
      with of_char_digit_char [OF m] m show ?thesis by simp
    qed
  qed
qed

lemma show_nat_not_mem: "(of_char c :: nat) < 48 \<or> 57 < (of_char c :: nat) \<Longrightarrow> c \<notin> set (show_nat n)"
  using show_nat_digits by fastforce

lemma show_nat_no_minus: "CHR ''-'' # xs \<noteq> show_nat n"
proof
  assume "CHR ''-'' # xs = show_nat n"
  then have "CHR ''-'' \<in> set (show_nat n)" by (metis list.set_intros(1))
  then show False using show_nat_not_mem [of "CHR ''-''" n] by simp
qed

lemma show_int_inject [simp]: "show_int i = show_int j \<longleftrightarrow> i = j"
  using show_nat_no_minus show_nat_no_minus [symmetric]
  by (auto simp: show_int_def)

section \<open>Hash maps as association lists\<close>

text \<open>\<open>std::unordered_map\<close> and \<open>std::map\<close>: \<open>m[k] = v\<close>, \<open>erase(k)\<close>, \<open>find(k)\<close>.\<close>

type_synonym ('k, 'v) amap = "('k \<times> 'v) list"

abbreviation alookup :: "('k, 'v) amap \<Rightarrow> 'k \<Rightarrow> 'v option" where
  "alookup m k \<equiv> map_of m k"

abbreviation amap_wf :: "('k, 'v) amap \<Rightarrow> bool" where
  "amap_wf m \<equiv> distinct (map fst m)"

definition ahas :: "('k, 'v) amap \<Rightarrow> 'k \<Rightarrow> bool" where
  "ahas m k \<longleftrightarrow> map_of m k \<noteq> None"

lemma alookup_update [simp, amap_simps]:
  "alookup (AList.update k v m) k' = (if k' = k then Some v else alookup m k')"
  by (simp add: update_conv')

lemma alookup_delete [simp, amap_simps]:
  "alookup (AList.delete k m) k' = (if k' = k then None else alookup m k')"
  by (simp add: delete_conv')

lemma amap_wf_update [simp]: "amap_wf m \<Longrightarrow> amap_wf (AList.update k v m)"
  by (rule distinct_update)

lemma amap_wf_delete [simp]: "amap_wf m \<Longrightarrow> amap_wf (AList.delete k m)"
  by (rule distinct_delete)

lemma amap_mem_iff: "amap_wf m \<Longrightarrow> (k, v) \<in> set m \<longleftrightarrow> alookup m k = Some v"
  by (auto dest: map_of_SomeD)

lemma ahas_iff_key: "ahas m k \<longleftrightarrow> k \<in> fst ` set m"
  by (simp add: ahas_def map_of_eq_None_iff)

section \<open>Square matrices\<close>

definition square :: "'a list list \<Rightarrow> bool" where
  "square m \<longleftrightarrow> (\<forall>row\<in>set m. length row = length m)"

lemma square_row [simp]: "square m \<Longrightarrow> i < length m \<Longrightarrow> length (m ! i) = length m"
  by (simp add: square_def)

end
