(* ===== verification/Posix_Address.thy ===== *)
theory Posix_Address
  imports Prelude
begin

unbundle bit_operations_syntax

text \<open>
  The socket address wrapper (\<^verbatim>\<open>include/server/posix_address.hpp\<close>, \<^verbatim>\<open>src/server/posix_address.cpp\<close>). The
  address bytes and the port are kept as the socket structures keep them, the port in network byte
  order. The text conversions \<^verbatim>\<open>inet_pton\<close> and \<^verbatim>\<open>inet_ntop\<close> of the C library are parameters.
\<close>

datatype sa_family = AF_UNSPEC | AF_INET | AF_INET6

record posix_address =
  ss_family :: sa_family
  sin_addr :: "u8 list"
  sin_port :: u16
  m_len :: nat

type_synonym pton = "sa_family \<Rightarrow> string \<Rightarrow> u8 list option"
type_synonym ntop = "sa_family \<Rightarrow> u8 list \<Rightarrow> string"

text \<open>\<^verbatim>\<open>htons\<close> and \<^verbatim>\<open>ntohs\<close> on the little-endian targets of the build: exchange the two bytes.\<close>

definition htons :: "u16 \<Rightarrow> u16" where
  "htons w = push_bit 8 w OR drop_bit 8 w"

definition sockaddr_in_size :: nat where "sockaddr_in_size = 16"
definition sockaddr_in6_size :: nat where "sockaddr_in6_size = 28"

definition empty_address :: posix_address where
  "empty_address = \<lparr>ss_family = AF_UNSPEC, sin_addr = [], sin_port = 0, m_len = 0\<rparr>"

definition from_ipv4 :: "pton \<Rightarrow> string \<Rightarrow> u16 \<Rightarrow> string + posix_address" where
  "from_ipv4 inet_pton ip p =
     (case inet_pton AF_INET ip of
        None \<Rightarrow> Inl (''Invalid IPv4 address: '' @ ip)
      | Some a \<Rightarrow> Inr \<lparr>ss_family = AF_INET, sin_addr = a, sin_port = htons p, m_len = sockaddr_in_size\<rparr>)"

definition from_ipv6 :: "pton \<Rightarrow> string \<Rightarrow> u16 \<Rightarrow> string + posix_address" where
  "from_ipv6 inet_pton ip p =
     (case inet_pton AF_INET6 ip of
        None \<Rightarrow> Inl (''Invalid IPv6 address: '' @ ip)
      | Some a \<Rightarrow> Inr \<lparr>ss_family = AF_INET6, sin_addr = a, sin_port = htons p, m_len = sockaddr_in6_size\<rparr>)"

text \<open>The constructor from text tries IPv4 first, then IPv6.\<close>

definition parse_address :: "pton \<Rightarrow> string \<Rightarrow> u16 \<Rightarrow> string + posix_address" where
  "parse_address inet_pton ip p =
     (case inet_pton AF_INET ip of
        Some a \<Rightarrow> Inr \<lparr>ss_family = AF_INET, sin_addr = a, sin_port = htons p, m_len = sockaddr_in_size\<rparr>
      | None \<Rightarrow>
          (case inet_pton AF_INET6 ip of
             Some a \<Rightarrow> Inr \<lparr>ss_family = AF_INET6, sin_addr = a, sin_port = htons p, m_len = sockaddr_in6_size\<rparr>
           | None \<Rightarrow> Inl (''Invalid IP address: '' @ ip)))"

definition port_of :: "posix_address \<Rightarrow> u16" where
  "port_of a = (if ss_family a = AF_INET then htons (sin_port a)
                else if ss_family a = AF_INET6 then htons (sin_port a) else 0)"

definition ip_string :: "ntop \<Rightarrow> posix_address \<Rightarrow> string" where
  "ip_string inet_ntop a = (if ss_family a = AF_INET then inet_ntop AF_INET (sin_addr a)
     else if ss_family a = AF_INET6 then inet_ntop AF_INET6 (sin_addr a) else '''')"

definition address_to_string :: "ntop \<Rightarrow> posix_address \<Rightarrow> string" where
  "address_to_string inet_ntop a = ip_string inet_ntop a @ '':'' @ show_nat (unat (port_of a))"

definition is_v6 :: "posix_address \<Rightarrow> bool" where
  "is_v6 a \<longleftrightarrow> ss_family a = AF_INET6"

definition address_eq :: "posix_address \<Rightarrow> posix_address \<Rightarrow> bool" where
  "address_eq a b =
     (if ss_family a \<noteq> ss_family b then False
      else if ss_family a = AF_INET then sin_port a = sin_port b \<and> sin_addr a = sin_addr b
      else if ss_family a = AF_INET6 then sin_port a = sin_port b \<and> sin_addr a = sin_addr b
      else False)"

lemma htons_htons [simp]: "htons (htons w) = w"
  unfolding htons_def by (rule bit_word_eqI) (auto simp: bit_simps)

text \<open>An address built from text reports the port it was given, in either family, and its text
  form parses back to an equal address when the library conversions are mutually inverse.\<close>

lemma address_round_trip:
  assumes lib: "\<And>f a. length a = (if f = AF_INET then 4 else 16) \<Longrightarrow> inet_pton f (inet_ntop f a) = Some a"
    and v4: "\<And>s a. inet_pton AF_INET s = Some a \<Longrightarrow> length a = 4"
    and v6: "\<And>s a. inet_pton AF_INET6 s = Some a \<Longrightarrow> length a = 16"
    and disj: "\<And>a. length a = 16 \<Longrightarrow> inet_pton AF_INET (inet_ntop AF_INET6 a) = None"
    and parsed: "parse_address inet_pton ip p = Inr a"
  shows "port_of a = p \<and> parse_address inet_pton (ip_string inet_ntop a) (port_of a) = Inr a
    \<and> address_eq a a"
proof (cases "inet_pton AF_INET ip")
  case (Some b)
  with parsed have a: "a = \<lparr>ss_family = AF_INET, sin_addr = b, sin_port = htons p, m_len = sockaddr_in_size\<rparr>"
    by (simp add: parse_address_def)
  have "inet_pton AF_INET (inet_ntop AF_INET b) = Some b" using lib [where f = AF_INET and a = b] v4 [OF Some] by simp
  then show ?thesis by (simp add: a parse_address_def port_of_def ip_string_def address_eq_def)
next
  case None
  with parsed obtain b where b: "inet_pton AF_INET6 ip = Some b"
    and a: "a = \<lparr>ss_family = AF_INET6, sin_addr = b, sin_port = htons p, m_len = sockaddr_in6_size\<rparr>"
    by (auto simp: parse_address_def split: option.splits)
  have l: "length b = 16" by (rule v6 [OF b])
  have "inet_pton AF_INET6 (inet_ntop AF_INET6 b) = Some b" using lib [where f = AF_INET6 and a = b] l by simp
  then show ?thesis using disj [OF l] by (simp add: a parse_address_def port_of_def ip_string_def address_eq_def)
qed

end
