(* ===== verification/Ipc.thy ===== *)
theory Ipc
  imports Prelude
begin

text \<open>
  The shared-memory queue between the reactor and the worker threads
  (\<^verbatim>\<open>include/server/ipc.hpp\<close>, \<^verbatim>\<open>src/server/ipc.cpp\<close>): two ring buffers of 8192 slots, 64-bit head and
  tail counters, counting semaphores and a shutdown flag. Ring arrays are functions from slot
  index to slot; every index the code computes is masked below the ring size. A ring is shown to
  refine a bounded FIFO list, first through the interface \<open>bounded_fifo\<close>, then for the request ring
  and the response ring. The last section splits \<^verbatim>\<open>wait_request\<close> at its compare-and-swap, the way
  several worker threads interleave.
\<close>

unbundle bit_operations_syntax

section \<open>Slots\<close>

definition REQUEST_QUEUE_SIZE :: nat where "REQUEST_QUEUE_SIZE = 8192"
definition RESPONSE_QUEUE_SIZE :: nat where "RESPONSE_QUEUE_SIZE = 8192"
definition SESSION_ID_SIZE :: nat where "SESSION_ID_SIZE = 64"

datatype response_command =
    SEND | START_ACK_TIMER | CANCEL_ACK_TIMER | CLEAR_TIMERS | BLACKLIST | MARK_AUTHENTICATED
  | START_KEEPALIVE_TIMER | RESET_KEEPALIVE_TIMER | DISCONNECT | BROADCAST | MQTT_PUBLISH_ROUTE

datatype protocol_type = TCP | UDP

record request_slot_t =
  rq_session_id :: string
  rq_protocol :: protocol_type
  rq_raw_json :: string
  rq_payload_len :: u32
  rq_is_authenticated :: bool
  rq_is_blacklisted :: bool
  rq_is_disconnect :: bool
  rq_client_type :: string
  rq_username :: string

record response_slot_t =
  rs_command :: response_command
  rs_session_id :: string
  rs_payload :: string
  rs_payload_len :: u32
  rs_timer_timeout :: u32
  rs_timer_key :: string
  rs_retry_count :: u32
  rs_max_retries :: u32
  rs_client_type :: string
  rs_username :: string
  rs_target_username :: string
  rs_start_ack_timer :: bool
  rs_mqtt_transaction_id :: int

text \<open>Value-initialised slots (\<^verbatim>\<open>request_slot_t req{}\<close>, \<^verbatim>\<open>memset(&slot, 0, sizeof slot)\<close>).\<close>

definition zero_request :: request_slot_t where
  "zero_request = \<lparr>rq_session_id = '''', rq_protocol = TCP, rq_raw_json = '''', rq_payload_len = 0,
     rq_is_authenticated = False, rq_is_blacklisted = False, rq_is_disconnect = False,
     rq_client_type = '''', rq_username = ''''\<rparr>"

definition zero_response :: response_slot_t where
  "zero_response = \<lparr>rs_command = SEND, rs_session_id = '''', rs_payload = '''', rs_payload_len = 0,
     rs_timer_timeout = 0, rs_timer_key = '''', rs_retry_count = 0, rs_max_retries = 0,
     rs_client_type = '''', rs_username = '''', rs_target_username = '''',
     rs_start_ack_timer = False, rs_mqtt_transaction_id = 0\<rparr>"

section \<open>The shared segment\<close>

record shm_header_t =
  req_head :: u64
  req_tail :: u64
  req_capacity :: u32
  resp_head :: u64
  resp_tail :: u64
  resp_capacity :: u32
  sem_requests :: nat
  sem_free_req_slots :: nat
  sem_responses :: nat
  sem_free_resp_slots :: nat
  shutdown_flag :: int

record shared_queue = shm_header_t +
  m_req_ring :: "nat \<Rightarrow> request_slot_t"
  m_resp_ring :: "nat \<Rightarrow> response_slot_t"

definition init_header :: "shared_queue \<Rightarrow> shared_queue" where
  "init_header q = q\<lparr>req_head := 0, req_tail := 0, req_capacity := of_nat REQUEST_QUEUE_SIZE,
     resp_head := 0, resp_tail := 0, resp_capacity := of_nat RESPONSE_QUEUE_SIZE,
     shutdown_flag := 0, sem_requests := 0, sem_free_req_slots := REQUEST_QUEUE_SIZE,
     sem_responses := 0, sem_free_resp_slots := RESPONSE_QUEUE_SIZE\<rparr>"

text \<open>\<^verbatim>\<open>shared_queue::create\<close> after a successful mapping: a zeroed segment, then \<^verbatim>\<open>init_header\<close>.\<close>

definition create_queue :: shared_queue where
  "create_queue = init_header
     \<lparr>req_head = 0, req_tail = 0, req_capacity = 0, resp_head = 0, resp_tail = 0, resp_capacity = 0,
      sem_requests = 0, sem_free_req_slots = 0, sem_responses = 0, sem_free_resp_slots = 0,
      shutdown_flag = 0, m_req_ring = (\<lambda>_. zero_request), m_resp_ring = (\<lambda>_. zero_response)\<rparr>"

definition req_index :: "u64 \<Rightarrow> nat" where
  "req_index w = unat (ucast (w AND word_of_nat (REQUEST_QUEUE_SIZE - 1)) :: u32)"

definition resp_index :: "u64 \<Rightarrow> nat" where
  "resp_index w = unat (ucast (w AND word_of_nat (RESPONSE_QUEUE_SIZE - 1)) :: u32)"

section \<open>Semaphore calls\<close>

definition sem_trywait :: "nat \<Rightarrow> nat option" where
  "sem_trywait n = (if n = 0 then None else Some (n - 1))"

datatype sem_result = Sem_ok | Sem_eintr | Sem_failed

text \<open>
  The retry loop around \<^verbatim>\<open>sem_wait\<close>: the list holds the outcomes the calls deliver, \<open>None\<close> means the
  thread is still blocked, \<open>Some (b, n')\<close> that the loop was left, by acquiring (\<open>b\<close>) or by giving up.
\<close>

fun sem_wait_loop :: "int \<Rightarrow> nat \<Rightarrow> sem_result list \<Rightarrow> (bool \<times> nat) option" where
  "sem_wait_loop flag n [] = None"
| "sem_wait_loop flag n (Sem_ok # rs) = (if n = 0 then None else Some (True, n - 1))"
| "sem_wait_loop flag n (Sem_eintr # rs) = (if flag \<noteq> 0 then Some (False, n) else sem_wait_loop flag n rs)"
| "sem_wait_loop flag n (Sem_failed # rs) = Some (False, n)"

section \<open>Queue operations\<close>

definition push_request :: "request_slot_t \<Rightarrow> shared_queue \<Rightarrow> bool \<times> shared_queue" where
  "push_request slot q =
     (case sem_trywait (sem_free_req_slots q) of
        None \<Rightarrow> (False, q)
      | Some n \<Rightarrow>
          (let q = q\<lparr>sem_free_req_slots := n\<rparr> in
           if shutdown_flag q \<noteq> 0 then (False, q)
           else
             (let head = req_head q; idx = req_index head in
              (True, q\<lparr>m_req_ring := (m_req_ring q)(idx := slot), req_head := head + 1,
                       sem_requests := Suc (sem_requests q)\<rparr>))))"

definition pop_response :: "shared_queue \<Rightarrow> response_slot_t option \<times> shared_queue" where
  "pop_response q =
     (let tail = resp_tail q; head = resp_head q in
      if head \<le> tail then (None, q)
      else
        (let idx = resp_index tail in
         (Some (m_resp_ring q idx),
          q\<lparr>resp_tail := tail + 1, sem_free_resp_slots := Suc (sem_free_resp_slots q)\<rparr>)))"

datatype wait_claim = Wait_blocked | Wait_false | Wait_claimed u64

text \<open>
  \<^verbatim>\<open>wait_request\<close> up to the successful compare-and-swap on \<open>req_tail\<close> (a fetch-and-increment), and
  its second half: the copy out of the ring and the release of a free slot.
\<close>

definition wait_request_claim :: "sem_result list \<Rightarrow> shared_queue \<Rightarrow> wait_claim \<times> shared_queue" where
  "wait_request_claim rs q =
     (case sem_wait_loop (shutdown_flag q) (sem_requests q) rs of
        None \<Rightarrow> (Wait_blocked, q)
      | Some (False, n) \<Rightarrow> (Wait_false, q)
      | Some (True, n) \<Rightarrow>
          (let q = q\<lparr>sem_requests := n\<rparr> in
           if shutdown_flag q \<noteq> 0 then (Wait_false, q)
           else (let tail = req_tail q in (Wait_claimed tail, q\<lparr>req_tail := tail + 1\<rparr>))))"

definition wait_request_copy :: "u64 \<Rightarrow> shared_queue \<Rightarrow> request_slot_t \<times> shared_queue" where
  "wait_request_copy tail q =
     (m_req_ring q (req_index tail), q\<lparr>sem_free_req_slots := Suc (sem_free_req_slots q)\<rparr>)"

text \<open>The whole call, run without interference: \<open>None\<close> while blocked, \<open>Some None\<close> for \<open>false\<close>.\<close>

definition wait_request :: "sem_result list \<Rightarrow> shared_queue \<Rightarrow> request_slot_t option option \<times> shared_queue" where
  "wait_request rs q =
     (case wait_request_claim rs q of
        (Wait_blocked, q) \<Rightarrow> (None, q)
      | (Wait_false, q) \<Rightarrow> (Some None, q)
      | (Wait_claimed tail, q) \<Rightarrow> (case wait_request_copy tail q of (slot, q) \<Rightarrow> (Some (Some slot), q)))"

text \<open>The Boolean tells whether the event descriptor of the reactor was written.\<close>

definition push_response :: "sem_result list \<Rightarrow> response_slot_t \<Rightarrow> shared_queue \<Rightarrow> bool \<times> shared_queue" where
  "push_response rs slot q =
     (case sem_wait_loop (shutdown_flag q) (sem_free_resp_slots q) rs of
        None \<Rightarrow> (False, q)
      | Some (False, n) \<Rightarrow> (False, q)
      | Some (True, n) \<Rightarrow>
          (let q = q\<lparr>sem_free_resp_slots := n\<rparr> in
           if shutdown_flag q \<noteq> 0 then (False, q)
           else
             (let head = resp_head q; idx = resp_index head in
              (True, q\<lparr>m_resp_ring := (m_resp_ring q)(idx := slot), resp_head := head + 1\<rparr>))))"

definition signal_shutdown :: "shared_queue \<Rightarrow> shared_queue" where
  "signal_shutdown q = q\<lparr>shutdown_flag := 1, sem_requests := sem_requests q + REQUEST_QUEUE_SIZE,
     sem_free_resp_slots := sem_free_resp_slots q + RESPONSE_QUEUE_SIZE\<rparr>"

definition is_shutdown :: "shared_queue \<Rightarrow> bool" where
  "is_shutdown q \<longleftrightarrow> shutdown_flag q \<noteq> 0"

section \<open>Ring indices and the list a ring holds\<close>

lemma mask13: "(word_of_nat 8191 :: u64) = mask 13"
  by (simp add: mask_eq_exp_minus_1)

lemma masked_index: "unat (ucast ((w :: u64) AND word_of_nat 8191) :: u32) = unat w mod 8192"
proof -
  have "unat (w AND mask 13) = unat w mod 2 ^ 13"
    by (simp add: take_bit_eq_mask [symmetric] take_bit_eq_mod unat_mod_distrib)
  moreover have "unat (ucast (w AND mask 13) :: u32) = unat (w AND mask 13) mod 2 ^ 32"
    by (simp add: unsigned_ucast_eq take_bit_eq_mod)
  ultimately show ?thesis by (simp only: mask13) simp
qed

lemma req_index_eq: "req_index w = unat w mod 8192"
  using masked_index by (simp add: req_index_def REQUEST_QUEUE_SIZE_def)

lemma resp_index_eq: "resp_index w = unat w mod 8192"
  using masked_index by (simp add: resp_index_def RESPONSE_QUEUE_SIZE_def)

definition ring_list :: "(nat \<Rightarrow> 'a) \<Rightarrow> u64 \<Rightarrow> u64 \<Rightarrow> 'a list" where
  "ring_list r tail head = map (\<lambda>i. r ((unat tail + i) mod 8192)) [0..<unat (head - tail)]"

lemma length_ring_list [simp]: "length (ring_list r tail head) = unat (head - tail)"
  by (simp add: ring_list_def)

lemma dvd_8192: "(8192 :: nat) dvd 2 ^ 64"
  by simp

lemma unat_head: "unat (head :: u64) mod 8192 = (unat tail + unat (head - tail)) mod 8192"
proof -
  have "unat head = (unat tail + unat (head - tail)) mod 2 ^ 64"
    using unat_word_ariths(1) [of tail "head - tail"] by simp
  then show ?thesis by (simp only: mod_mod_cancel [OF dvd_8192])
qed

lemma unat_Suc_mod: "(unat ((w :: u64) + 1) + i) mod 8192 = (unat w + Suc i) mod 8192"
proof -
  have "unat (w + 1) = (unat w + 1) mod 2 ^ 64" by (simp add: unat_word_ariths)
  then have "unat (w + 1) mod 8192 = (unat w + 1) mod 8192"
    by (simp only: mod_mod_cancel [OF dvd_8192])
  then have "(unat (w + 1) + i) mod 8192 = ((unat w + 1) mod 8192 + i) mod 8192"
    by (metis mod_add_left_eq)
  then show ?thesis by (simp add: mod_simps)
qed

lemma unat_diff_Suc:
  assumes "unat ((head :: u64) - tail) < 8192"
  shows "unat (head + 1 - tail) = Suc (unat (head - tail))"
proof -
  have "unat (head - tail + 1) = (unat (head - tail) + 1) mod 2 ^ 64"
    by (simp add: unat_word_ariths)
  with assms have "unat (head - tail + 1) = Suc (unat (head - tail))" by simp
  then show ?thesis by (simp add: algebra_simps)
qed

lemma unat_diff_pred:
  assumes "unat ((head :: u64) - tail) = Suc n"
  shows "unat (head - (tail + 1)) = n"
proof -
  have "head - tail \<noteq> 0" using assms by auto
  then have "unat (head - tail - 1) = unat (head - tail) - 1" by (rule unat_minus_one)
  with assms show ?thesis by (simp add: algebra_simps)
qed

lemma mod_neq:
  assumes "i < n" "n < (8192::nat)"
  shows "(t + i) mod 8192 \<noteq> (t + n) mod 8192"
proof
  assume "(t + i) mod 8192 = (t + n) mod 8192"
  then have "8192 dvd (t + n) - (t + i)"
    using assms mod_eq_dvd_iff_nat [of "t + i" "t + n" 8192] by simp
  then have "8192 dvd n - i" by simp
  with assms show False by (auto dest: dvd_imp_le)
qed

lemma ring_list_push:
  assumes "unat (head - tail) < 8192"
  shows "ring_list (r(unat head mod 8192 := x)) tail (head + 1) = ring_list r tail head @ [x]"
proof -
  have "map (\<lambda>i. (r((unat tail + n) mod 8192 := x)) ((unat tail + i) mod 8192)) [0..<n]
      = map (\<lambda>i. r ((unat tail + i) mod 8192)) [0..<n]" if "n < 8192" for n
    using mod_neq [OF _ that] by (intro map_cong) simp_all
  with assms show ?thesis
    by (simp add: ring_list_def unat_diff_Suc unat_head [of head tail])
qed

lemma ring_list_pop:
  assumes "unat (head - tail) = Suc n"
  shows "ring_list r tail head = r (unat tail mod 8192) # ring_list r (tail + 1) head"
proof -
  have "[0..<Suc n] = 0 # map Suc [0..<n]" by (simp add: upt_conv_Cons map_Suc_upt del: upt_Suc)
  with assms show ?thesis
    by (simp add: ring_list_def unat_diff_pred [OF assms] unat_Suc_mod del: upt_Suc)
qed

section \<open>The bounded FIFO interface\<close>

datatype 'a fifo_op = Push 'a | Pop

text \<open>
  A run of pushes and pops: the accepted elements, the delivered elements and the final queue.
\<close>

fun run_fifo ::
  "('a \<Rightarrow> 'q \<Rightarrow> bool \<times> 'q) \<Rightarrow> ('q \<Rightarrow> 'a option \<times> 'q) \<Rightarrow> 'a fifo_op list \<Rightarrow> 'q
    \<Rightarrow> 'a list \<times> 'a list \<times> 'q" where
  "run_fifo push pop [] q = ([], [], q)"
| "run_fifo push pop (Push x # ops) q =
     (case push x q of (b, q1) \<Rightarrow>
      case run_fifo push pop ops q1 of (acc, out, q2) \<Rightarrow> (if b then x # acc else acc, out, q2))"
| "run_fifo push pop (Pop # ops) q =
     (case pop q of (r, q1) \<Rightarrow>
      case run_fifo push pop ops q1 of (acc, out, q2) \<Rightarrow>
        (acc, (case r of None \<Rightarrow> out | Some x \<Rightarrow> x # out), q2))"

text \<open>
  What a client of either ring relies on. The number carried by \<open>ok\<close> bounds the pushes still
  allowed; the response ring compares its 64-bit counters and needs it, the request ring does not.
\<close>

locale bounded_fifo =
  fixes push :: "'a \<Rightarrow> 'q \<Rightarrow> bool \<times> 'q"
    and pop :: "'q \<Rightarrow> 'a option \<times> 'q"
    and contents :: "'q \<Rightarrow> 'a list"
    and ok :: "nat \<Rightarrow> 'q \<Rightarrow> bool"
    and cap :: nat
  assumes push_room: "ok (Suc b) q \<Longrightarrow> length (contents q) < cap \<Longrightarrow>
      \<exists>q'. push x q = (True, q') \<and> contents q' = contents q @ [x] \<and> ok b q'"
    and push_full: "ok b q \<Longrightarrow> length (contents q) = cap \<Longrightarrow> push x q = (False, q)"
    and pop_empty: "ok b q \<Longrightarrow> contents q = [] \<Longrightarrow> pop q = (None, q)"
    and pop_first: "ok b q \<Longrightarrow> contents q = x # xs \<Longrightarrow>
      \<exists>q'. pop q = (Some x, q') \<and> contents q' = xs \<and> ok b q'"
    and ok_mono: "ok (Suc b) q \<Longrightarrow> ok b q"
    and bounded: "ok b q \<Longrightarrow> length (contents q) \<le> cap"
begin

lemma push_cases:
  assumes "ok (Suc b) q"
  obtains (room) q' where "push x q = (True, q')" "contents q' = contents q @ [x]" "ok b q'"
  | (full) "push x q = (False, q)" "ok b q" "length (contents q) = cap"
proof (cases "length (contents q) < cap")
  case True
  with push_room [OF assms] show ?thesis using room by metis
next
  case False
  with bounded [OF assms] have "length (contents q) = cap" by simp
  with push_full [OF assms] ok_mono [OF assms] show ?thesis using full by blast
qed

text \<open>No element is lost, duplicated or reordered by any interleaving of pushes and pops.\<close>

lemma run_fifo_order:
  assumes "ok b q" and "length ops \<le> b" and "run_fifo push pop ops q = (acc, out, q')"
  shows "contents q @ acc = out @ contents q' \<and> length (contents q') \<le> cap"
  using assms
proof (induction ops arbitrary: b q acc out)
  case Nil
  then show ?case using bounded by auto
next
  case (Cons op ops)
  then obtain b' where b: "b = Suc b'" "length ops \<le> b'" by (cases b) auto
  show ?case
  proof (cases op)
    case (Push x)
    obtain r q1 acc1 where r: "push x q = (r, q1)" "run_fifo push pop ops q1 = (acc1, out, q')"
      "acc = (if r then x # acc1 else acc1)"
      using Cons.prems(3) Push by (auto split: prod.splits)
    from Cons.prems(1) b have "ok (Suc b') q" by simp
    then show ?thesis
    proof (cases rule: push_cases [where x = x])
      case room
      with r have "ok b' q1" "contents q1 = contents q @ [x]" "r" by auto
      with Cons.IH [OF \<open>ok b' q1\<close> b(2) r(2)] r(3) show ?thesis by simp
    next
      case full
      with r have "ok b' q" "q1 = q" "\<not> r" by auto
      with Cons.IH [OF \<open>ok b' q\<close> b(2)] r show ?thesis by simp
    qed
  next
    case Pop
    obtain r q1 out1 where r: "pop q = (r, q1)" "run_fifo push pop ops q1 = (acc, out1, q')"
      "out = (case r of None \<Rightarrow> out1 | Some x \<Rightarrow> x # out1)"
      using Cons.prems(3) Pop by (auto split: prod.splits)
    have ops: "length ops \<le> b" using b by simp
    show ?thesis
    proof (cases "contents q")
      case Nil
      with pop_empty [OF Cons.prems(1)] r have "q1 = q" "out = out1" by auto
      with Cons.IH [OF Cons.prems(1) ops] r(2) show ?thesis by simp
    next
      case (Cons x xs)
      with pop_first [OF Cons.prems(1)] r(1,3)
      have "ok b q1" "contents q1 = xs" "out = x # out1" by auto
      with Cons.IH [OF \<open>ok b q1\<close> ops r(2)] Cons show ?thesis by simp
    qed
  qed
qed

end

section \<open>Both rings are bounded FIFO queues\<close>

definition req_contents :: "shared_queue \<Rightarrow> request_slot_t list" where
  "req_contents q = ring_list (m_req_ring q) (req_tail q) (req_head q)"

definition resp_contents :: "shared_queue \<Rightarrow> response_slot_t list" where
  "resp_contents q = ring_list (m_resp_ring q) (resp_tail q) (resp_head q)"

text \<open>A worker that takes a request when one is available and otherwise stays blocked.\<close>

definition take_request :: "shared_queue \<Rightarrow> request_slot_t option \<times> shared_queue" where
  "take_request q = (case wait_request [Sem_ok] q of
      (Some (Some s), q') \<Rightarrow> (Some s, q') | (_, q') \<Rightarrow> (None, q'))"

definition req_ok :: "nat \<Rightarrow> shared_queue \<Rightarrow> bool" where
  "req_ok b q \<longleftrightarrow> shutdown_flag q = 0 \<and> unat (req_head q - req_tail q) = sem_requests q
     \<and> sem_requests q + sem_free_req_slots q = REQUEST_QUEUE_SIZE"

definition resp_ok :: "nat \<Rightarrow> shared_queue \<Rightarrow> bool" where
  "resp_ok b q \<longleftrightarrow> shutdown_flag q = 0 \<and> resp_tail q \<le> resp_head q
     \<and> unat (resp_head q - resp_tail q) + sem_free_resp_slots q = RESPONSE_QUEUE_SIZE
     \<and> unat (resp_head q) + b < 2 ^ 64"

lemmas ring_defs = req_contents_def resp_contents_def REQUEST_QUEUE_SIZE_def RESPONSE_QUEUE_SIZE_def
  req_index_eq resp_index_eq

lemma req_push_room:
  assumes "req_ok b q" "length (req_contents q) < REQUEST_QUEUE_SIZE"
  shows "\<exists>q'. push_request x q = (True, q') \<and> req_contents q' = req_contents q @ [x] \<and> req_ok b' q'"
  using assms
  by (simp add: push_request_def sem_trywait_def req_ok_def ring_defs Let_def ring_list_push unat_diff_Suc)

lemma req_pop_first:
  assumes "req_ok b q" "req_contents q = x # xs"
  shows "\<exists>q'. take_request q = (Some x, q') \<and> req_contents q' = xs \<and> req_ok b q'"
proof -
  from assms(2) have "length (req_contents q) = Suc (length xs)" by simp
  then have n: "unat (req_head q - req_tail q) = Suc (length xs)" by (simp add: req_contents_def)
  with assms ring_list_pop [OF n, of "m_req_ring q"] unat_diff_pred [OF n] show ?thesis
    by (auto simp: take_request_def wait_request_def wait_request_claim_def wait_request_copy_def
        req_ok_def ring_defs Let_def)
qed

lemma resp_push_room:
  assumes "resp_ok (Suc b) q" "length (resp_contents q) < RESPONSE_QUEUE_SIZE"
  shows "\<exists>q'. push_response [Sem_ok] x q = (True, q') \<and> resp_contents q' = resp_contents q @ [x] \<and> resp_ok b q'"
proof -
  from assms have h: "unat (resp_head q + 1) = Suc (unat (resp_head q))"
    by (simp add: resp_ok_def unat_word_ariths)
  with assms have "resp_tail q \<le> resp_head q + 1"
    by (simp add: resp_ok_def word_le_nat_alt)
  with assms h show ?thesis
    by (simp add: push_response_def resp_ok_def ring_defs Let_def ring_list_push unat_diff_Suc)
qed

lemma resp_pop_first:
  assumes "resp_ok b q" "resp_contents q = x # xs"
  shows "\<exists>q'. pop_response q = (Some x, q') \<and> resp_contents q' = xs \<and> resp_ok b q'"
proof -
  from assms(2) have "length (resp_contents q) = Suc (length xs)" by simp
  then have n: "unat (resp_head q - resp_tail q) = Suc (length xs)" by (simp add: resp_contents_def)
  then have ne: "resp_head q \<noteq> resp_tail q" by auto
  with assms(1) have lt: "resp_tail q < resp_head q" by (auto simp: resp_ok_def less_le)
  then have "resp_tail q + 1 \<le> resp_head q" by (simp add: inc_le)
  with assms lt ring_list_pop [OF n, of "m_resp_ring q"] unat_diff_pred [OF n] n show ?thesis
    by (simp add: pop_response_def resp_ok_def ring_defs Let_def)
qed

interpretation req: bounded_fifo push_request take_request req_contents req_ok REQUEST_QUEUE_SIZE
proof (unfold_locales, goal_cases)
  case (1 b q x)
  then show ?case by (rule req_push_room)
next
  case (2 b q x)
  then show ?case by (simp add: push_request_def sem_trywait_def req_ok_def ring_defs)
next
  case (3 b q)
  then have "sem_requests q = 0" by (simp add: req_ok_def req_contents_def ring_list_def)
  then show ?case by (simp add: take_request_def wait_request_def wait_request_claim_def)
next
  case (4 b q x xs)
  then show ?case by (rule req_pop_first)
qed (simp_all add: req_ok_def ring_defs)

interpretation resp: bounded_fifo "push_response [Sem_ok]" pop_response resp_contents resp_ok RESPONSE_QUEUE_SIZE
proof (unfold_locales, goal_cases)
  case (1 b q x)
  then show ?case by (rule resp_push_room)
next
  case (2 b q x)
  then show ?case by (simp add: push_response_def resp_ok_def ring_defs)
next
  case (3 b q)
  then have "resp_head q = resp_tail q"
    by (simp add: resp_contents_def ring_list_def unat_eq_zero)
  then show ?case by (simp add: pop_response_def)
next
  case (4 b q x xs)
  then show ?case by (rule resp_pop_first)
qed (simp_all add: resp_ok_def ring_defs)

lemma create_queue_ok: "req_ok b create_queue" "n < 2 ^ 64 \<Longrightarrow> resp_ok n create_queue"
  "req_contents create_queue = []" "resp_contents create_queue = []"
  by (simp_all add: create_queue_def init_header_def req_ok_def resp_ok_def ring_defs ring_list_def)

text \<open>C1: the request ring is a FIFO. Any interleaving of \<^verbatim>\<open>push_request\<close> calls by the reactor and
  complete \<^verbatim>\<open>wait_request\<close> calls by a worker, started on a fresh queue, delivers exactly a prefix of the
  accepted requests in order, and the rest is still queued, never more than the ring size. Counter
  wrap-around is covered: there is no bound on the number of operations.\<close>

theorem request_ring_fifo:
  "case run_fifo push_request take_request ops create_queue of (acc, out, q) \<Rightarrow>
     acc = out @ req_contents q \<and> length (req_contents q) \<le> REQUEST_QUEUE_SIZE"
proof -
  obtain acc out q where run: "run_fifo push_request take_request ops create_queue = (acc, out, q)"
    using prod_cases3 by blast
  from req.run_fifo_order [OF create_queue_ok(1) order_refl run] run create_queue_ok(3)
  show ?thesis by simp
qed

text \<open>C2: the response ring is a FIFO for every run of fewer than \<open>2^64\<close> operations: responses pushed
  by workers reach the reactor in order, without loss or duplication.\<close>

theorem response_ring_fifo:
  assumes "length ops < 2 ^ 64"
  shows "case run_fifo (push_response [Sem_ok]) pop_response ops create_queue of (acc, out, q) \<Rightarrow>
     acc = out @ resp_contents q \<and> length (resp_contents q) \<le> RESPONSE_QUEUE_SIZE"
proof -
  obtain acc out q
    where run: "run_fifo (push_response [Sem_ok]) pop_response ops create_queue = (acc, out, q)"
    using prod_cases3 by blast
  from resp.run_fifo_order [OF create_queue_ok(2) order_refl run] assms run create_queue_ok(4)
  show ?thesis by simp
qed

theorem response_ring_fifo_witness:
  "case run_fifo (push_response [Sem_ok]) pop_response [Push zero_response, Pop] create_queue of
     (acc, out, q) \<Rightarrow> acc = out @ resp_contents q \<and> length (resp_contents q) \<le> RESPONSE_QUEUE_SIZE"
  using response_ring_fifo [of "[Push zero_response, Pop]"] by simp

section \<open>Several workers on the request ring\<close>

text \<open>
  With several worker threads the two halves of \<^verbatim>\<open>wait_request\<close> interleave. A worker that has claimed
  a tail value copies its slot later; the free-slot semaphore counts slots and does not say which
  slot became free.
\<close>

record req_system =
  sys_queue :: shared_queue
  sys_claims :: "nat \<Rightarrow> u64 option"

datatype req_event = Ev_push request_slot_t bool | Ev_claim nat | Ev_copy nat request_slot_t

inductive req_step :: "req_system \<Rightarrow> req_event \<Rightarrow> req_system \<Rightarrow> bool" where
  step_push: "push_request x (sys_queue s) = (r, q) \<Longrightarrow> req_step s (Ev_push x r) (s\<lparr>sys_queue := q\<rparr>)"
| step_claim: "sys_claims s w = None \<Longrightarrow> wait_request_claim rs (sys_queue s) = (Wait_claimed t, q) \<Longrightarrow>
     req_step s (Ev_claim w) (s\<lparr>sys_queue := q, sys_claims := (sys_claims s)(w := Some t)\<rparr>)"
| step_copy: "sys_claims s w = Some t \<Longrightarrow> wait_request_copy t (sys_queue s) = (x, q) \<Longrightarrow>
     req_step s (Ev_copy w x) (s\<lparr>sys_queue := q, sys_claims := (sys_claims s)(w := None)\<rparr>)"

inductive req_trace :: "req_system \<Rightarrow> req_event list \<Rightarrow> req_system \<Rightarrow> bool" where
  trace_nil: "req_trace s [] s"
| trace_snoc: "req_trace s es t \<Longrightarrow> req_step t e u \<Longrightarrow> req_trace s (es @ [e]) u"

definition req_system_init :: req_system where
  "req_system_init = \<lparr>sys_queue = create_queue, sys_claims = (\<lambda>_. None)\<rparr>"

inductive_simps req_step_push_iff: "req_step s (Ev_push x r) t"
inductive_simps req_step_copy_iff: "req_step s (Ev_copy w x) t"

definition filled :: "request_slot_t \<Rightarrow> nat \<Rightarrow> req_system \<Rightarrow> bool" where
  "filled a n s \<longleftrightarrow> shutdown_flag (sys_queue s) = 0 \<and> sys_claims s = (\<lambda>_. None)
     \<and> req_head (sys_queue s) = of_nat n \<and> req_tail (sys_queue s) = 0
     \<and> sem_requests (sys_queue s) = n \<and> sem_free_req_slots (sys_queue s) = 8192 - n
     \<and> (\<forall>i < n. m_req_ring (sys_queue s) i = a)"

lemma unat_of_nat_small: "n \<le> 8192 \<Longrightarrow> unat (of_nat n :: u64) = n"
  by (simp add: unat_of_nat)

lemma fill_ring:
  "n \<le> 8192 \<Longrightarrow> \<exists>s. req_trace req_system_init (replicate n (Ev_push a True)) s \<and> filled a n s"
proof (induction n)
  case 0
  have "filled a 0 req_system_init"
    by (simp add: filled_def req_system_init_def create_queue_def init_header_def ring_defs)
  then show ?case using trace_nil by auto
next
  case (Suc n)
  then obtain s where s: "req_trace req_system_init (replicate n (Ev_push a True)) s" "filled a n s"
    by auto
  obtain r q where q: "push_request a (sys_queue s) = (r, q)" by fastforce
  from q s(2) Suc.prems have r: "r" "filled a (Suc n) (s\<lparr>sys_queue := q\<rparr>)"
    by (auto simp: push_request_def sem_trywait_def filled_def Let_def req_index_eq unat_of_nat_small
        less_Suc_eq split: if_splits)
  from trace_snoc [OF s(1) step_push [OF q]] r show ?case
    by (auto simp: replicate_append_same [symmetric] simp del: replicate_append_same)
qed

lemma req_trace_append: "req_trace t fs u \<Longrightarrow> req_trace s es t \<Longrightarrow> req_trace s (es @ fs) u"
  by (induction rule: req_trace.induct) (simp, metis append_assoc trace_snoc)

text \<open>Workers 0 and 1 claim the two oldest slots of a full ring and worker 1 finishes first.\<close>

lemma race_claims:
  assumes "filled a 8192 s"
  shows "\<exists>t. req_trace s [Ev_claim 0, Ev_claim 1, Ev_copy 1 a] t \<and> shutdown_flag (sys_queue t) = 0
     \<and> req_head (sys_queue t) = 8192 \<and> req_tail (sys_queue t) = 2
     \<and> sem_free_req_slots (sys_queue t) = 1 \<and> sys_claims t 0 = Some 0"
proof -
  define q where "q = sys_queue s"
  have q: "shutdown_flag q = 0" "req_head q = 8192" "req_tail q = 0" "sem_requests q = 8192"
    "sem_free_req_slots q = 0" "sys_claims s = (\<lambda>_. None)" "m_req_ring q 1 = a"
    using assms by (simp_all add: filled_def q_def)
  define q1 where "q1 = q\<lparr>sem_requests := 8191, req_tail := 1\<rparr>"
  define q2 where "q2 = q1\<lparr>sem_requests := 8190, req_tail := 2\<rparr>"
  define q3 where "q3 = q2\<lparr>sem_free_req_slots := 1\<rparr>"
  define s1 where "s1 = s\<lparr>sys_queue := q1, sys_claims := (\<lambda>_. None)(0 := Some 0)\<rparr>"
  define s2 where "s2 = s\<lparr>sys_queue := q2, sys_claims := (\<lambda>_. None)(0 := Some 0, 1 := Some 1)\<rparr>"
  define s3 where "s3 = s\<lparr>sys_queue := q3, sys_claims := (\<lambda>_. None)(0 := Some 0, 1 := None)\<rparr>"
  have "wait_request_claim [Sem_ok] (sys_queue s) = (Wait_claimed 0, q1)"
    using q by (simp add: q_def wait_request_claim_def q1_def Let_def)
  then have e1: "req_step s (Ev_claim 0) s1"
    using step_claim [of s 0 "[Sem_ok]" 0 q1] q by (simp add: s1_def)
  have "wait_request_claim [Sem_ok] (sys_queue s1) = (Wait_claimed 1, q2)"
    using q by (simp add: s1_def q1_def q2_def wait_request_claim_def Let_def)
  then have e2: "req_step s1 (Ev_claim 1) s2"
    using step_claim [of s1 1 "[Sem_ok]" 1 q2] by (simp add: s1_def s2_def)
  have "wait_request_copy 1 (sys_queue s2) = (a, q3)"
    using q by (simp add: s2_def q2_def q1_def q3_def wait_request_copy_def req_index_eq)
  then have e3: "req_step s2 (Ev_copy 1 a) s3"
    using step_copy [of s2 1 1 a q3] by (simp add: s2_def s3_def)
  from trace_snoc [OF trace_snoc [OF trace_snoc [OF trace_nil e1] e2] e3] q show ?thesis
    by (intro exI [of _ s3]) (simp add: s3_def q3_def q2_def q1_def)
qed

text \<open>The next request lands in slot 0, which worker 0 copies afterwards.\<close>

lemma race_overwrite:
  assumes "shutdown_flag (sys_queue t) = 0" "req_head (sys_queue t) = 8192"
    "req_tail (sys_queue t) = 2" "sem_free_req_slots (sys_queue t) = 1" "sys_claims t 0 = Some 0"
  shows "\<exists>u. req_trace t [Ev_push b True, Ev_copy 0 b] u \<and> b \<in> set (req_contents (sys_queue u))"
proof -
  obtain r q4 where p: "push_request b (sys_queue t) = (r, q4)" by fastforce
  then have q4: "r" "m_req_ring q4 0 = b" "req_head q4 = 8193" "req_tail q4 = 2"
    using assms by (auto simp: push_request_def sem_trywait_def req_index_eq Let_def)
  define u where "u = t\<lparr>sys_queue := snd (wait_request_copy 0 q4), sys_claims := (sys_claims t)(0 := None)\<rparr>"
  have "wait_request_copy 0 q4 = (b, snd (wait_request_copy 0 q4))"
    using q4 by (simp add: wait_request_copy_def req_index_eq)
  then have e5: "req_step (t\<lparr>sys_queue := q4\<rparr>) (Ev_copy 0 b) u"
    using step_copy [of "t\<lparr>sys_queue := q4\<rparr>" 0 0 b] assms(5) by (simp add: u_def)
  have "ring_list (m_req_ring q4) 2 8193 ! 8190 = b"
    using q4 by (simp add: ring_list_def)
  then have "b \<in> set (req_contents (sys_queue u))"
    using q4 nth_mem [of 8190 "ring_list (m_req_ring q4) 2 8193"]
    by (simp add: req_contents_def u_def wait_request_copy_def)
  with trace_snoc [OF trace_snoc [OF trace_nil step_push [OF p]] e5] q4(1) show ?thesis
    by auto
qed



end
