(* ===== verification/Payload.thy ===== *)
theory Payload
  imports Prelude
begin

text \<open>
  The payload union of a message (\<^verbatim>\<open>payload_t\<close> in \<^verbatim>\<open>include/common/json_manager.h\<close>) as the bytes it
  occupies. A member is read and written at its offset, so reading a member other than the one last
  written gives what the machine gives: the same bytes, reinterpreted. Integers are 32-bit two's
  complement, little endian; \<^verbatim>\<open>char\<close> arrays are read as C strings. The interface \<open>union_member\<close> says that a
  structure copied into the union is read back unchanged; it is interpreted for each of the eight
  structures.
\<close>

section \<open>Bytes\<close>

definition MESSAGE_TYPE_SIZE :: nat where "MESSAGE_TYPE_SIZE = 64"
definition ROLE_SIZE :: nat where "ROLE_SIZE = 16"
definition ID_SIZE :: nat where "ID_SIZE = 16"
definition TIMESTAMP_SIZE :: nat where "TIMESTAMP_SIZE = 32"
definition CHECKSUM_SIZE :: nat where "CHECKSUM_SIZE = 8"
definition CREDENTIALS_SIZE :: nat where "CREDENTIALS_SIZE = 64"
definition DESCRIPTION_SIZE :: nat where "DESCRIPTION_SIZE = 128"
definition ITEM_NAME_SIZE :: nat where "ITEM_NAME_SIZE = 32"
definition QUANTITY_ITEMS :: nat where "QUANTITY_ITEMS = 6"
definition EMERGENCY_TYPE_SIZE :: nat where "EMERGENCY_TYPE_SIZE = 20"
definition EMERGENCY_INSTRUCTIONS_SIZE :: nat where "EMERGENCY_INSTRUCTIONS_SIZE = 100"
definition BUFFER_SIZE :: nat where "BUFFER_SIZE = 1024"

lemmas size_defs = MESSAGE_TYPE_SIZE_def ROLE_SIZE_def ID_SIZE_def TIMESTAMP_SIZE_def CHECKSUM_SIZE_def
  CREDENTIALS_SIZE_def DESCRIPTION_SIZE_def ITEM_NAME_SIZE_def QUANTITY_ITEMS_def EMERGENCY_TYPE_SIZE_def
  EMERGENCY_INSTRUCTIONS_SIZE_def BUFFER_SIZE_def

abbreviation NUL :: char where "NUL \<equiv> CHR 0x00"

type_synonym payload_t = string

definition store :: "nat \<Rightarrow> string \<Rightarrow> payload_t \<Rightarrow> payload_t" where
  "store off bs m = take off m @ bs @ drop (off + length bs) m"

lemma store_append: "length a = off \<Longrightarrow> length b = length bs \<Longrightarrow> store off bs (a @ b @ c) = a @ bs @ c"
  by (simp add: store_def)

lemma store_0: "length b = length bs \<Longrightarrow> store 0 bs (b @ c) = bs @ c"
  by (simp add: store_def)

lemma length_store [simp]: "off + length bs \<le> length m \<Longrightarrow> length (store off bs m) = length m"
  by (simp add: store_def)

text \<open>A 32-bit signed integer in memory.\<close>

definition int32_ok :: "int \<Rightarrow> bool" where
  "int32_ok i \<longleftrightarrow> - (2 ^ 31) \<le> i \<and> i < 2 ^ 31"

definition int_bytes :: "int \<Rightarrow> string" where
  "int_bytes i = (let u = i mod 2 ^ 32 in
     [char_of (u mod 256), char_of (u div 256 mod 256), char_of (u div 65536 mod 256), char_of (u div 16777216)])"

definition bytes_int :: "string \<Rightarrow> int" where
  "bytes_int bs = (case bs of
      [a, b, c, d] \<Rightarrow>
        (let u = of_char a + of_char b * 256 + of_char c * 65536 + of_char d * 16777216
         in if u < 2 ^ 31 then u else u - 2 ^ 32)
    | _ \<Rightarrow> 0)"

definition load_int :: "nat \<Rightarrow> payload_t \<Rightarrow> int" where
  "load_int off m = bytes_int (take 4 (drop off m))"

lemma length_int_bytes [simp]: "length (int_bytes i) = 4"
  by (simp add: int_bytes_def Let_def)

lemma split_bytes:
  fixes u :: int
  shows "u mod 256 + (u div 256 mod 256) * 256 + (u div 65536 mod 256) * 65536 + (u div 16777216) * 16777216 = u"
proof -
  have d: "u div 65536 = u div 256 div 256" "u div 16777216 = u div 256 div 256 div 256"
    by (simp_all flip: zdiv_zmult2_eq)
  show ?thesis
    using mult_div_mod_eq [of 256 u] mult_div_mod_eq [of 256 "u div 256"] mult_div_mod_eq [of 256 "u div 256 div 256"]
    unfolding d by linarith
qed

lemma bytes_int_bytes: "int32_ok i \<Longrightarrow> bytes_int (int_bytes i) = i"
proof -
  assume ok: "int32_ok i"
  define u where "u = i mod 2 ^ 32"
  have "0 \<le> u" "u \<le> 4294967295" unfolding u_def using pos_mod_bound [of "2 ^ 32" i] by simp_all
  then have "0 \<le> u div 16777216" "u div 16777216 \<le> 4294967295 div 16777216"
    by (simp add: pos_imp_zdiv_nonneg_iff, intro zdiv_mono1) simp_all
  then have "u div 16777216 mod 256 = u div 16777216"
    by (intro mod_pos_pos_trivial) simp_all
  then have s: "(of_char (char_of (u mod 256)) :: int) + of_char (char_of (u div 256 mod 256)) * 256
      + of_char (char_of (u div 65536 mod 256)) * 65536 + of_char (char_of (u div 16777216)) * 16777216 = u"
    using split_bytes [of u] by (simp only: of_char_of mod_mod_trivial)
  have "u = (if i < 0 then i + 2 ^ 32 else i)"
    using mod_pos_pos_trivial [of "i + 2 ^ 32" "2 ^ 32"] mod_pos_pos_trivial [of i "2 ^ 32"] ok
    by (simp add: int32_ok_def u_def)
  then have "(if u < 2 ^ 31 then u else u - 2 ^ 32) = i"
    using ok by (simp add: int32_ok_def)
  then show ?thesis
    unfolding bytes_int_def int_bytes_def u_def [symmetric] Let_def list.case s .
qed

text \<open>A \<^verbatim>\<open>char[n]\<close> after \<^verbatim>\<open>safe_strcpy\<close>: \<^verbatim>\<open>strncpy\<close> pads with NUL, the last byte is NUL.\<close>

definition field_bytes :: "nat \<Rightarrow> string \<Rightarrow> string" where
  "field_bytes n s = strncpy_field n s @ replicate (n - length (strncpy_field n s)) NUL"

definition safe_strcpy :: "nat \<Rightarrow> nat \<Rightarrow> string \<Rightarrow> payload_t \<Rightarrow> payload_t" where
  "safe_strcpy off n src m = (if n > 0 then store off (field_bytes n src) m else m)"

definition load_str :: "nat \<Rightarrow> payload_t \<Rightarrow> string" where
  "load_str off m = c_str (drop off m)"

lemma length_field_bytes [simp]: "0 < n \<Longrightarrow> length (field_bytes n s) = n"
  using length_strncpy_field [of n s] by (simp add: field_bytes_def)

lemma c_str_append_NUL: "NUL \<notin> set s \<Longrightarrow> c_str (s @ NUL # t) = s"
  unfolding c_str_def by (subst takeWhile_append2) auto

lemma c_str_field_bytes:
  assumes "fits n s"
  shows "c_str (field_bytes n s @ t) = s"
proof -
  have "replicate (n - length s) NUL = NUL # replicate (n - length s - 1) NUL"
    using assms by (cases "n - length s") (auto simp: fits_def)
  then show ?thesis
    using assms c_str_append_NUL [of s] by (simp add: field_bytes_def strncpy_field_id) (simp add: fits_def)
qed

lemma field_bytes_Nil: "field_bytes n '''' = replicate n NUL"
  by (simp add: field_bytes_def)

lemma replicate_4: "replicate 4 x = [x, x, x, x]"
  by (simp add: numeral_eq_Suc)

lemma int_bytes_0: "int_bytes 0 = replicate 4 NUL"
  by (simp add: int_bytes_def replicate_4 char_of_def)

lemma load_int_at: "length a = off \<Longrightarrow> int32_ok i \<Longrightarrow> load_int off (a @ int_bytes i @ t) = i"
  by (simp add: load_int_def bytes_int_bytes)

lemma load_str_at: "length a = off \<Longrightarrow> fits n s \<Longrightarrow> load_str off (a @ field_bytes n s @ t) = s"
  by (simp add: load_str_def c_str_field_bytes)

lemmas load_int_0 = load_int_at [of "[]" 0, simplified]
lemmas load_str_0 = load_str_at [of "[]" 0, simplified]

section \<open>The members\<close>

record inventory_item_t =
  item_id :: int
  item_name :: string
  quantity :: int

record payload_items_list =
  items :: "inventory_item_t list"
  order_timestamp :: string

record payload_auth_response =
  ar_status_code :: int

record payload_acknowledgment =
  ack_status_code :: int
  ack_for_timestamp :: string

record payload_auth_request =
  username :: string
  password :: string

record payload_keepalive =
  ka_message :: string

record payload_client_emergency_alert =
  ce_emergency_code :: int
  ce_emergency_type :: string

record payload_server_emergency_alert =
  se_emergency_code :: int
  se_instructions :: string

record payload_generic_args =
  ga_args :: string

definition ITEM_SIZE :: nat where "ITEM_SIZE = 40"
definition PAYLOAD_SIZE :: nat where "PAYLOAD_SIZE = 272"

definition zero_payload :: payload_t where
  "zero_payload = replicate PAYLOAD_SIZE NUL"

definition zero_item :: inventory_item_t where
  "zero_item = \<lparr>item_id = 0, item_name = '''', quantity = 0\<rparr>"

text \<open>The byte image of each structure and the member read back from the union.\<close>

definition item_image :: "inventory_item_t \<Rightarrow> string" where
  "item_image it = int_bytes (item_id it) @ field_bytes ITEM_NAME_SIZE (item_name it) @ int_bytes (quantity it)"

definition load_item :: "payload_t \<Rightarrow> nat \<Rightarrow> inventory_item_t" where
  "load_item m i = \<lparr>item_id = load_int (ITEM_SIZE * i) m, item_name = load_str (ITEM_SIZE * i + 4) m,
     quantity = load_int (ITEM_SIZE * i + 36) m\<rparr>"

definition items_list_image :: "payload_items_list \<Rightarrow> string" where
  "items_list_image p = concat (map item_image (items p)) @ field_bytes TIMESTAMP_SIZE (order_timestamp p)"

definition load_items_list :: "payload_t \<Rightarrow> payload_items_list" where
  "load_items_list m = \<lparr>items = map (load_item m) [0..<QUANTITY_ITEMS], order_timestamp = load_str 240 m\<rparr>"

definition auth_response_image :: "payload_auth_response \<Rightarrow> string" where
  "auth_response_image p = int_bytes (ar_status_code p)"

definition load_auth_response :: "payload_t \<Rightarrow> payload_auth_response" where
  "load_auth_response m = \<lparr>ar_status_code = load_int 0 m\<rparr>"

definition acknowledgment_image :: "payload_acknowledgment \<Rightarrow> string" where
  "acknowledgment_image p = int_bytes (ack_status_code p) @ field_bytes TIMESTAMP_SIZE (ack_for_timestamp p)"

definition load_acknowledgment :: "payload_t \<Rightarrow> payload_acknowledgment" where
  "load_acknowledgment m = \<lparr>ack_status_code = load_int 0 m, ack_for_timestamp = load_str 4 m\<rparr>"

definition auth_request_image :: "payload_auth_request \<Rightarrow> string" where
  "auth_request_image p = field_bytes CREDENTIALS_SIZE (username p) @ field_bytes CREDENTIALS_SIZE (password p)"

definition load_auth_request :: "payload_t \<Rightarrow> payload_auth_request" where
  "load_auth_request m = \<lparr>username = load_str 0 m, password = load_str 64 m\<rparr>"

definition keepalive_image :: "payload_keepalive \<Rightarrow> string" where
  "keepalive_image p = field_bytes DESCRIPTION_SIZE (ka_message p)"

definition load_keepalive :: "payload_t \<Rightarrow> payload_keepalive" where
  "load_keepalive m = \<lparr>ka_message = load_str 0 m\<rparr>"

definition client_emergency_image :: "payload_client_emergency_alert \<Rightarrow> string" where
  "client_emergency_image p = int_bytes (ce_emergency_code p) @ field_bytes EMERGENCY_TYPE_SIZE (ce_emergency_type p)"

definition load_client_emergency :: "payload_t \<Rightarrow> payload_client_emergency_alert" where
  "load_client_emergency m = \<lparr>ce_emergency_code = load_int 0 m, ce_emergency_type = load_str 4 m\<rparr>"

definition server_emergency_image :: "payload_server_emergency_alert \<Rightarrow> string" where
  "server_emergency_image p = int_bytes (se_emergency_code p) @ field_bytes EMERGENCY_INSTRUCTIONS_SIZE (se_instructions p)"

definition load_server_emergency :: "payload_t \<Rightarrow> payload_server_emergency_alert" where
  "load_server_emergency m = \<lparr>se_emergency_code = load_int 0 m, se_instructions = load_str 4 m\<rparr>"

definition generic_args_image :: "payload_generic_args \<Rightarrow> string" where
  "generic_args_image p = field_bytes DESCRIPTION_SIZE (ga_args p)"

definition load_generic_args :: "payload_t \<Rightarrow> payload_generic_args" where
  "load_generic_args m = \<lparr>ga_args = load_str 0 m\<rparr>"

text \<open>\<^verbatim>\<open>memcpy(&out->payload, payload, payload_size)\<close> into the zeroed union.\<close>

definition payload_copy :: "string \<Rightarrow> payload_t" where
  "payload_copy bs = (if 0 < length bs \<and> length bs \<le> PAYLOAD_SIZE then store 0 bs zero_payload else zero_payload)"

section \<open>Well-formed structures\<close>

definition item_ok :: "inventory_item_t \<Rightarrow> bool" where
  "item_ok it \<longleftrightarrow> int32_ok (item_id it) \<and> fits ITEM_NAME_SIZE (item_name it) \<and> int32_ok (quantity it)"

definition items_list_ok :: "payload_items_list \<Rightarrow> bool" where
  "items_list_ok p \<longleftrightarrow> length (items p) = QUANTITY_ITEMS \<and> (\<forall>it\<in>set (items p). item_ok it)
     \<and> fits TIMESTAMP_SIZE (order_timestamp p)"

lemma length_item_image [simp]: "length (item_image it) = 40"
  by (simp add: item_image_def size_defs)

lemma length_items_image [simp]: "length (concat (map item_image xs)) = 40 * length xs"
  by (induction xs) simp_all

lemma payload_copy_eq:
  "0 < length bs \<Longrightarrow> length bs \<le> PAYLOAD_SIZE \<Longrightarrow> payload_copy bs = bs @ replicate (PAYLOAD_SIZE - length bs) NUL"
  by (simp add: payload_copy_def zero_payload_def store_def)

locale union_member =
  fixes image :: "'s \<Rightarrow> string" and load :: "payload_t \<Rightarrow> 's" and ok :: "'s \<Rightarrow> bool"
  assumes image_size: "ok s \<Longrightarrow> 0 < length (image s) \<and> length (image s) \<le> PAYLOAD_SIZE"
    and load_image: "ok s \<Longrightarrow> load (image s @ t) = s"
begin

lemma load_copy: "ok s \<Longrightarrow> load (payload_copy (image s)) = s"
  using image_size [of s] by (simp add: payload_copy_eq load_image)

lemma length_copy: "ok s \<Longrightarrow> length (payload_copy (image s)) = PAYLOAD_SIZE"
  using image_size [of s] by (simp add: payload_copy_eq)

lemma image_inject: "ok s \<Longrightarrow> ok s' \<Longrightarrow> image s = image s' \<Longrightarrow> s = s'"
  using load_image [of s "[]"] load_image [of s' "[]"] by simp

end

lemma load_item_at:
  assumes "length a = ITEM_SIZE * i" "item_ok it"
  shows "load_item (a @ item_image it @ t) i = it"
proof -
  have "load_int (ITEM_SIZE * i + 36) ((a @ int_bytes (item_id it) @ field_bytes ITEM_NAME_SIZE (item_name it))
       @ int_bytes (quantity it) @ t) = quantity it"
    by (rule load_int_at) (use assms in \<open>simp_all add: size_defs item_ok_def\<close>)
  moreover have "load_str (ITEM_SIZE * i + 4) ((a @ int_bytes (item_id it)) @ field_bytes ITEM_NAME_SIZE (item_name it)
       @ int_bytes (quantity it) @ t) = item_name it"
    by (rule load_str_at) (use assms in \<open>simp_all add: item_ok_def\<close>)
  moreover have "load_int (ITEM_SIZE * i) (a @ int_bytes (item_id it) @ field_bytes ITEM_NAME_SIZE (item_name it)
       @ int_bytes (quantity it) @ t) = item_id it"
    by (rule load_int_at) (use assms in \<open>simp_all add: item_ok_def\<close>)
  ultimately show ?thesis by (simp add: load_item_def item_image_def)
qed

lemma load_items_at:
  assumes "length a = ITEM_SIZE * n" "\<forall>it\<in>set xs. item_ok it"
  shows "map (load_item (a @ concat (map item_image xs) @ t)) [n..<n + length xs] = xs"
  using assms
proof (induction xs arbitrary: a n)
  case (Cons x xs)
  have "load_item (a @ item_image x @ concat (map item_image xs) @ t) n = x"
    using Cons.prems by (intro load_item_at) simp_all
  moreover have "map (load_item ((a @ item_image x) @ concat (map item_image xs) @ t)) [Suc n..<Suc n + length xs] = xs"
    using Cons.prems by (intro Cons.IH) (simp_all add: ITEM_SIZE_def)
  ultimately show ?case by (simp add: upt_conv_Cons del: upt_Suc)
qed simp

lemma load_items_list_image:
  assumes "items_list_ok p"
  shows "load_items_list (items_list_image p @ t) = p"
proof -
  have "map (load_item (concat (map item_image (items p)) @ field_bytes TIMESTAMP_SIZE (order_timestamp p) @ t))
      [0..<QUANTITY_ITEMS] = items p"
    using load_items_at [of "[]" 0 "items p"] assms by (simp add: items_list_ok_def)
  moreover have "load_str 240 (concat (map item_image (items p)) @ field_bytes TIMESTAMP_SIZE (order_timestamp p) @ t)
      = order_timestamp p"
    by (rule load_str_at) (use assms in \<open>simp_all add: items_list_ok_def QUANTITY_ITEMS_def\<close>)
  ultimately show ?thesis by (simp add: load_items_list_def items_list_image_def)
qed

lemma load_int_field_image:
  "int32_ok i \<Longrightarrow> fits n s \<Longrightarrow> load_int 0 (int_bytes i @ field_bytes n s @ t) = i \<and>
     load_str 4 (int_bytes i @ field_bytes n s @ t) = s"
  by (simp add: load_int_0 load_str_at)

lemma length_items_list_image: "items_list_ok p \<Longrightarrow> length (items_list_image p) = 272"
  by (simp add: items_list_image_def items_list_ok_def size_defs)

lemma load_auth_request_image:
  "fits 64 u \<Longrightarrow> fits 64 v \<Longrightarrow> load_str 0 (field_bytes 64 u @ field_bytes 64 v @ t) = u \<and>
     load_str 64 (field_bytes 64 u @ field_bytes 64 v @ t) = v"
  by (simp add: load_str_0 load_str_at)

interpretation um_items: union_member items_list_image load_items_list items_list_ok
  by unfold_locales (simp_all add: load_items_list_image length_items_list_image PAYLOAD_SIZE_def)

interpretation um_auth_response: union_member auth_response_image load_auth_response "\<lambda>p. int32_ok (ar_status_code p)"
  by unfold_locales (simp_all add: auth_response_image_def load_auth_response_def load_int_0 PAYLOAD_SIZE_def)

interpretation um_ack: union_member acknowledgment_image load_acknowledgment
  "\<lambda>p. int32_ok (ack_status_code p) \<and> fits TIMESTAMP_SIZE (ack_for_timestamp p)"
  by unfold_locales (simp_all add: acknowledgment_image_def load_acknowledgment_def load_int_field_image
      size_defs PAYLOAD_SIZE_def)

interpretation um_auth_request: union_member auth_request_image load_auth_request
  "\<lambda>p. fits CREDENTIALS_SIZE (username p) \<and> fits CREDENTIALS_SIZE (password p)"
  by unfold_locales (simp_all add: auth_request_image_def load_auth_request_def load_auth_request_image
      size_defs PAYLOAD_SIZE_def)

interpretation um_keepalive: union_member keepalive_image load_keepalive "\<lambda>p. fits DESCRIPTION_SIZE (ka_message p)"
  by unfold_locales (simp_all add: keepalive_image_def load_keepalive_def load_str_0 size_defs PAYLOAD_SIZE_def)

interpretation um_client_emergency: union_member client_emergency_image load_client_emergency
  "\<lambda>p. int32_ok (ce_emergency_code p) \<and> fits EMERGENCY_TYPE_SIZE (ce_emergency_type p)"
  by unfold_locales (simp_all add: client_emergency_image_def load_client_emergency_def load_int_field_image
      size_defs PAYLOAD_SIZE_def)

interpretation um_server_emergency: union_member server_emergency_image load_server_emergency
  "\<lambda>p. int32_ok (se_emergency_code p) \<and> fits EMERGENCY_INSTRUCTIONS_SIZE (se_instructions p)"
  by unfold_locales (simp_all add: server_emergency_image_def load_server_emergency_def load_int_field_image
      size_defs PAYLOAD_SIZE_def)

interpretation um_generic_args: union_member generic_args_image load_generic_args "\<lambda>p. fits DESCRIPTION_SIZE (ga_args p)"
  by unfold_locales (simp_all add: generic_args_image_def load_generic_args_def load_str_0 size_defs PAYLOAD_SIZE_def)

end
