(* ===== verification/Database.thy ===== *)
theory Database
  imports Payload "HOL-Library.Multiset"
begin

text \<open>
  The persistence layer (\<^verbatim>\<open>include/server/database.hpp\<close>, \<^verbatim>\<open>src/server/database.cpp\<close>): the three tables the
  code creates, and each helper with the meaning of the SQL text it sends. What PostgreSQL chooses is a
  parameter \<open>pg_env\<close>: the order in which a scan visits rows, the value of \<^verbatim>\<open>random()\<close>, the parsing of
  timestamp text, the current time. Every statement may throw: because the SQL fails (integer overflow,
  malformed timestamp) or because the connection does, which the list \<open>w_faults\<close> decides. A \<^verbatim>\<open>pqxx::work\<close>
  keeps the durable tables until \<open>commit\<close>; leaving its scope without a commit restores them, except for
  the identifier sequences, which PostgreSQL does not roll back.
\<close>

section \<open>Tables\<close>

record credential =
  cred_id :: int
  cred_username :: string
  password_hash :: string
  cred_client_type :: string
  is_active :: bool

text \<open>The six stock columns food, water, medicine, tools, guns, ammo are a list in that order.\<close>

record client_row =
  cr_client_id :: string
  cr_client_type :: string
  cr_stock :: "int list"
  cr_last_updated :: int

record txn_row =
  tr_id :: int
  tr_type :: string
  tr_source_id :: "string option"
  tr_source_type :: "string option"
  tr_destination_id :: "string option"
  tr_destination_type :: "string option"
  tr_status :: string
  tr_quantities :: "int list"
  tr_order_timestamp :: int
  tr_dispatch_timestamp :: "int option"
  tr_reception_timestamp :: "int option"

record database =
  db_credentials :: "credential list"
  db_inventory :: "client_row list"
  db_transactions :: "txn_row list"
  db_credential_seq :: int
  db_transaction_seq :: int

record transaction_record =
  transaction_id :: int
  transaction_type :: string
  rec_source_id :: string
  rec_source_type :: string
  destination_id :: string
  destination_type :: string
  status :: string
  rec_quantities :: "int list"

record pg_env =
  pg_timestamp :: "string \<Rightarrow> int option"
  pg_now :: int
  pg_scan_inventory :: "client_row list \<Rightarrow> client_row list"
  pg_scan_transactions :: "txn_row list \<Rightarrow> txn_row list"
  pg_random_offset :: "nat \<Rightarrow> nat"

text \<open>Documented behaviour: a scan visits each row once, \<^verbatim>\<open>floor(random() * n)\<close> is below \<open>n\<close>.\<close>

definition pg_ok :: "pg_env \<Rightarrow> bool" where
  "pg_ok pg \<longleftrightarrow> (\<forall>rs. mset (pg_scan_inventory pg rs) = mset rs) \<and> (\<forall>rs. mset (pg_scan_transactions pg rs) = mset rs)
     \<and> (\<forall>n>0. pg_random_offset pg n < n)"

section \<open>Statements and transactions\<close>

record work =
  w_db :: database
  w_durable :: database
  w_faults :: "bool list"

type_synonym 'a txn = "work \<Rightarrow> 'a option \<times> work"

type_synonym 'a stmt = "database \<Rightarrow> ('a \<times> database) option"

definition exec :: "'a stmt \<Rightarrow> 'a txn" where
  "exec stmt w =
     (let w' = w\<lparr>w_faults := tl (w_faults w)\<rparr> in
      if w_faults w \<noteq> [] \<and> hd (w_faults w) then (None, w')
      else case stmt (w_db w) of
             None \<Rightarrow> (None, w')
           | Some (a, db) \<Rightarrow> (Some a, w'\<lparr>w_db := db\<rparr>))"

definition ret :: "'a \<Rightarrow> 'a txn" where
  "ret a w = (Some a, w)"

definition bnd :: "'a txn \<Rightarrow> ('a \<Rightarrow> 'b txn) \<Rightarrow> 'b txn" where
  "bnd m f w = (case m w of (None, w') \<Rightarrow> (None, w') | (Some a, w') \<Rightarrow> f a w')"

definition commit :: "unit txn" where
  "commit w =
     (let w' = w\<lparr>w_faults := tl (w_faults w)\<rparr> in
      if w_faults w \<noteq> [] \<and> hd (w_faults w) then (None, w')
      else (Some (), w'\<lparr>w_durable := w_db w\<rparr>))"

record db_conn =
  c_db :: database
  c_faults :: "bool list"

text \<open>The scope of a \<^verbatim>\<open>pqxx::work\<close>.\<close>

definition with_work :: "(work \<Rightarrow> 'r \<times> work) \<Rightarrow> db_conn \<Rightarrow> 'r \<times> db_conn" where
  "with_work body c =
     (let (r, w) = body \<lparr>w_db = c_db c, w_durable = c_db c, w_faults = c_faults c\<rparr>
      in (r, \<lparr>c_db = (w_durable w)\<lparr>db_credential_seq := db_credential_seq (w_db w),
                                    db_transaction_seq := db_transaction_seq (w_db w)\<rparr>,
              c_faults = w_faults w\<rparr>))"

text \<open>The helpers that own their transaction: commit on a zero result, \<open>-1\<close> on an exception.\<close>

definition self_committing :: "int txn \<Rightarrow> db_conn \<Rightarrow> int \<times> db_conn" where
  "self_committing body =
     with_work (\<lambda>w. case bnd body (\<lambda>rc. if rc = 0 then bnd commit (\<lambda>_. ret rc) else ret rc) w of
        (None, w') \<Rightarrow> (- 1, w') | (Some rc, w') \<Rightarrow> (rc, w'))"

definition int4 :: "int \<Rightarrow> int option" where
  "int4 i = (if int32_ok i then Some i else None)"

fun int4_all :: "int list \<Rightarrow> int list option" where
  "int4_all [] = Some []"
| "int4_all (x # xs) = (case int4 x of None \<Rightarrow> None | Some y \<Rightarrow> map_option (\<lambda>ys. y # ys) (int4_all xs))"

section \<open>Credentials\<close>

definition query_credentials_by_username :: "string \<Rightarrow> db_conn \<Rightarrow> credential option \<times> db_conn" where
  "query_credentials_by_username u =
     with_work (\<lambda>w. case exec (\<lambda>db. Some (find (\<lambda>r. cred_username r = u) (db_credentials db), db)) w of
        (None, w') \<Rightarrow> (None, w') | (Some r, w') \<Rightarrow> (r, w'))"

definition sql_upsert_credential :: "string \<Rightarrow> string \<Rightarrow> string \<Rightarrow> unit stmt" where
  "sql_upsert_credential u p t db =
     (let n = db_credential_seq db + 1 in
      if \<not> int32_ok n then None
      else if \<exists>r\<in>set (db_credentials db). cred_username r = u
      then Some ((), db\<lparr>db_credential_seq := n,
             db_credentials := map (\<lambda>r. if cred_username r = u then r\<lparr>password_hash := p, cred_client_type := t\<rparr> else r)
               (db_credentials db)\<rparr>)
      else Some ((), db\<lparr>db_credential_seq := n,
             db_credentials := db_credentials db @
               [\<lparr>cred_id = n, cred_username = u, password_hash = p, cred_client_type = t, is_active = False\<rparr>]\<rparr>))"

definition set_client_active :: "string \<Rightarrow> bool \<Rightarrow> db_conn \<Rightarrow> int \<times> db_conn" where
  "set_client_active u active c =
     (if u = '''' then (- 1, c)
      else self_committing (bnd (exec (\<lambda>db. Some ((), db\<lparr>db_credentials :=
             map (\<lambda>r. if cred_username r = u then r\<lparr>is_active := active\<rparr> else r) (db_credentials db)\<rparr>)))
             (\<lambda>_. ret 0)) c)"

definition reset_all_clients_inactive :: "db_conn \<Rightarrow> int \<times> db_conn" where
  "reset_all_clients_inactive =
     self_committing (bnd (exec (\<lambda>db. Some ((), db\<lparr>db_credentials :=
         map (\<lambda>r. r\<lparr>is_active := False\<rparr>) (db_credentials db)\<rparr>))) (\<lambda>_. ret 0))"

text \<open>Credential files: the lines of a \<^verbatim>\<open>.conf\<close> file, and the (user, password, type) they give.\<close>

definition is_blank :: "char \<Rightarrow> bool" where
  "is_blank c \<longleftrightarrow> c \<in> {CHR '' '', CHR 0x09, CHR 0x0A, CHR 0x0D}"

definition trim_copy :: "string \<Rightarrow> string" where
  "trim_copy s = rev (dropWhile is_blank (rev (dropWhile is_blank s)))"

fun parse_conf_lines :: "string list \<Rightarrow> string \<times> string \<times> string \<Rightarrow> string \<times> string \<times> string" where
  "parse_conf_lines [] acc = acc"
| "parse_conf_lines (l # ls) (u, p, t) =
     (if CHR ''='' \<notin> set l then parse_conf_lines ls (u, p, t)
      else let key = trim_copy (takeWhile (\<lambda>c. c \<noteq> CHR ''='') l);
               v = trim_copy (tl (dropWhile (\<lambda>c. c \<noteq> CHR ''='') l))
           in parse_conf_lines ls
                (if key = ''username'' then (v, p, t)
                 else if key = ''password'' then (u, v, t)
                 else if key = ''type'' then (u, p, v) else (u, p, t)))"

definition parse_client_conf_credentials :: "string list option \<Rightarrow> (string \<times> string \<times> string) option" where
  "parse_client_conf_credentials file =
     (case file of
        None \<Rightarrow> None
      | Some ls \<Rightarrow>
          (case parse_conf_lines ls ('''', '''', '''') of
             (u, p, t) \<Rightarrow> if u \<noteq> '''' \<and> p \<noteq> '''' \<and> t \<noteq> '''' then Some (u, p, t) else None))"

text \<open>
  The files of the directory with extension \<^verbatim>\<open>.conf\<close>, in the order of the iterator; \<open>None\<close> is a file that
  does not open. After a failed statement PostgreSQL rejects every further one of the transaction,
  which \<open>aborted\<close> remembers; \<open>reports\<close> is whether the library's \<open>commit\<close> then throws.
\<close>

fun populate_loop :: "string list option list \<Rightarrow> nat \<Rightarrow> bool \<Rightarrow> work \<Rightarrow> (nat \<times> bool) \<times> work" where
  "populate_loop [] cnt aborted w = ((cnt, aborted), w)"
| "populate_loop (f # fs) cnt aborted w =
     (case parse_client_conf_credentials f of
        None \<Rightarrow> populate_loop fs cnt aborted w
      | Some (u, p, t) \<Rightarrow>
          if aborted then populate_loop fs cnt True w
          else (case exec (sql_upsert_credential u p t) w of
                  (None, w') \<Rightarrow> populate_loop fs cnt True w'
                | (Some _, w') \<Rightarrow> populate_loop fs (cnt + 1) False w'))"

definition populate_credentials_table :: "bool \<Rightarrow> string list option list option \<Rightarrow> db_conn \<Rightarrow> int \<times> db_conn" where
  "populate_credentials_table reports dir c =
     (case dir of
        None \<Rightarrow> (1, c)
      | Some files \<Rightarrow>
          with_work (\<lambda>w. case populate_loop files 0 False w of
             ((cnt, aborted), w') \<Rightarrow>
               if files \<noteq> [] \<and> cnt = 0 then (1, w')
               else if aborted then (if reports then 1 else 0, w')
               else (case commit w' of (None, w'') \<Rightarrow> (1, w'') | (Some _, w'') \<Rightarrow> (0, w''))) c)"

section \<open>Inventory\<close>

definition INITIAL_STOCK_HUB :: int where "INITIAL_STOCK_HUB = 100"
definition INITIAL_STOCK_WAREHOUSE :: int where "INITIAL_STOCK_WAREHOUSE = 500"

definition sql_upsert_inventory :: "pg_env \<Rightarrow> string \<Rightarrow> string \<Rightarrow> int list \<Rightarrow> string \<Rightarrow> unit stmt" where
  "sql_upsert_inventory pg cid ct q ts db =
     (case (pg_timestamp pg ts, int4_all q) of
        (Some t, Some q) \<Rightarrow>
          (let row = \<lparr>cr_client_id = cid, cr_client_type = ct, cr_stock = q, cr_last_updated = t\<rparr>
           in if \<exists>r\<in>set (db_inventory db). cr_client_id r = cid
              then Some ((), db\<lparr>db_inventory := map (\<lambda>r. if cr_client_id r = cid then row else r) (db_inventory db)\<rparr>)
              else Some ((), db\<lparr>db_inventory := db_inventory db @ [row]\<rparr>))
      | _ \<Rightarrow> None)"

definition update_client_inventory :: "pg_env \<Rightarrow> string \<Rightarrow> string \<Rightarrow> int list \<Rightarrow> string \<Rightarrow> int txn" where
  "update_client_inventory pg cid ct q ts =
     (if cid = '''' \<or> ct = '''' then ret (- 1)
      else bnd (exec (sql_upsert_inventory pg cid ct q ts)) (\<lambda>_. ret 0))"

definition update_client_inventory_conn :: "pg_env \<Rightarrow> string \<Rightarrow> string \<Rightarrow> int list \<Rightarrow> string \<Rightarrow> db_conn \<Rightarrow> int \<times> db_conn" where
  "update_client_inventory_conn pg cid ct q ts = self_committing (update_client_inventory pg cid ct q ts)"

definition has_stock :: "int list \<Rightarrow> client_row \<Rightarrow> bool" where
  "has_stock q r \<longleftrightarrow> list_all2 (\<lambda>s n. n \<le> s) (cr_stock r) q"

definition sql_warehouse_with_stock :: "pg_env \<Rightarrow> int list \<Rightarrow> string option stmt" where
  "sql_warehouse_with_stock pg q db =
     (let rows = filter (\<lambda>r. cr_client_type r = ''WAREHOUSE'' \<and> has_stock q r) (pg_scan_inventory pg (db_inventory db));
          k = (if rows = [] then 0 else pg_random_offset pg (length rows))
      in Some (case drop k rows of [] \<Rightarrow> None | r # _ \<Rightarrow> Some (cr_client_id r), db))"

definition get_warehouse_with_all_stock :: "pg_env \<Rightarrow> int list \<Rightarrow> string txn" where
  "get_warehouse_with_all_stock pg q =
     bnd (exec (sql_warehouse_with_stock pg q)) (\<lambda>r. ret (case r of None \<Rightarrow> '''' | Some cid \<Rightarrow> cid))"

definition get_warehouse_with_all_stock_conn :: "pg_env \<Rightarrow> int list \<Rightarrow> db_conn \<Rightarrow> string \<times> db_conn" where
  "get_warehouse_with_all_stock_conn pg q =
     with_work (\<lambda>w. case get_warehouse_with_all_stock pg q w of (None, w') \<Rightarrow> ('''', w') | (Some s, w') \<Rightarrow> (s, w'))"

definition sql_select_stock :: "string \<Rightarrow> int list option stmt" where
  "sql_select_stock cid db = Some (map_option cr_stock (find (\<lambda>r. cr_client_id r = cid) (db_inventory db)), db)"

definition sql_insert_inventory :: "pg_env \<Rightarrow> string \<Rightarrow> string \<Rightarrow> int \<Rightarrow> unit stmt" where
  "sql_insert_inventory pg cid ct n db =
     (if \<exists>r\<in>set (db_inventory db). cr_client_id r = cid then None
      else Some ((), db\<lparr>db_inventory := db_inventory db @
             [\<lparr>cr_client_id = cid, cr_client_type = ct, cr_stock = replicate QUANTITY_ITEMS n, cr_last_updated = pg_now pg\<rparr>]\<rparr>))"

definition get_client_inventory :: "pg_env \<Rightarrow> string \<Rightarrow> string \<Rightarrow> (int \<times> int list) txn" where
  "get_client_inventory pg cid ct =
     (if cid = '''' \<or> ct = '''' then ret (- 1, replicate QUANTITY_ITEMS 0)
      else let initial = (if ct = ''WAREHOUSE'' then INITIAL_STOCK_WAREHOUSE else INITIAL_STOCK_HUB)
           in bnd (exec (sql_select_stock cid)) (\<lambda>r. case r of
                None \<Rightarrow> bnd (exec (sql_insert_inventory pg cid ct initial)) (\<lambda>_. ret (0, replicate QUANTITY_ITEMS initial))
              | Some q \<Rightarrow> ret (0, q)))"

definition get_client_inventory_conn :: "pg_env \<Rightarrow> string \<Rightarrow> string \<Rightarrow> db_conn \<Rightarrow> (int \<times> int list) \<times> db_conn" where
  "get_client_inventory_conn pg cid ct =
     with_work (\<lambda>w. case bnd (get_client_inventory pg cid ct)
          (\<lambda>(rc, q). if rc = 0 then bnd commit (\<lambda>_. ret (rc, q)) else ret (rc, q)) w of
        (None, w') \<Rightarrow> ((- 1, replicate QUANTITY_ITEMS 0), w') | (Some r, w') \<Rightarrow> (r, w'))"

definition adjusted :: "bool \<Rightarrow> int list \<Rightarrow> int list \<Rightarrow> int list option" where
  "adjusted add q s =
     (if add then int4_all (map2 (+) s q)
      else map_option (map (max 0)) (int4_all (map2 (-) s q)))"

text \<open>The key makes at most one row match.\<close>

definition sql_adjust_inventory :: "pg_env \<Rightarrow> string \<Rightarrow> int list \<Rightarrow> bool \<Rightarrow> unit stmt" where
  "sql_adjust_inventory pg cid q add db =
     (case find (\<lambda>r. cr_client_id r = cid) (db_inventory db) of
        None \<Rightarrow> Some ((), db)
      | Some row \<Rightarrow>
          (case adjusted add q (cr_stock row) of
             None \<Rightarrow> None
           | Some s \<Rightarrow> Some ((), db\<lparr>db_inventory :=
               map (\<lambda>r. if cr_client_id r = cid then r\<lparr>cr_stock := s, cr_last_updated := pg_now pg\<rparr> else r)
                 (db_inventory db)\<rparr>)))"

definition adjust_client_inventory :: "pg_env \<Rightarrow> string \<Rightarrow> int list \<Rightarrow> bool \<Rightarrow> int txn" where
  "adjust_client_inventory pg cid q add =
     (if cid = '''' then ret (- 1) else bnd (exec (sql_adjust_inventory pg cid q add)) (\<lambda>_. ret 0))"

definition adjust_client_inventory_conn :: "pg_env \<Rightarrow> string \<Rightarrow> int list \<Rightarrow> bool \<Rightarrow> db_conn \<Rightarrow> int \<times> db_conn" where
  "adjust_client_inventory_conn pg cid q add = self_committing (adjust_client_inventory pg cid q add)"

section \<open>Transactions\<close>

definition sql_insert_transaction :: "pg_env \<Rightarrow> string \<Rightarrow> string \<Rightarrow> string \<Rightarrow> int list \<Rightarrow> string \<Rightarrow> int stmt" where
  "sql_insert_transaction pg ty did dt q ts db =
     (let n = db_transaction_seq db + 1 in
      case (pg_timestamp pg ts, int4_all q) of
        (Some t, Some q) \<Rightarrow>
          if \<not> int32_ok n then None
          else Some (n, db\<lparr>db_transaction_seq := n, db_transactions := db_transactions db @
             [\<lparr>tr_id = n, tr_type = ty, tr_source_id = None, tr_source_type = None, tr_destination_id = Some did,
               tr_destination_type = Some dt, tr_status = ''PENDING'', tr_quantities = q, tr_order_timestamp = t,
               tr_dispatch_timestamp = None, tr_reception_timestamp = None\<rparr>]\<rparr>)
      | _ \<Rightarrow> None)"

definition create_transaction :: "pg_env \<Rightarrow> string \<Rightarrow> string \<Rightarrow> string \<Rightarrow> int list \<Rightarrow> string \<Rightarrow> int txn" where
  "create_transaction pg ty did dt q ts =
     (if ty = '''' \<or> did = '''' \<or> dt = '''' then ret (- 1)
      else exec (sql_insert_transaction pg ty did dt q ts))"

definition create_transaction_conn :: "pg_env \<Rightarrow> string \<Rightarrow> string \<Rightarrow> string \<Rightarrow> int list \<Rightarrow> string \<Rightarrow> db_conn \<Rightarrow> int \<times> db_conn" where
  "create_transaction_conn pg ty did dt q ts =
     with_work (\<lambda>w. case bnd (create_transaction pg ty did dt q ts)
          (\<lambda>n. if n \<ge> 0 then bnd commit (\<lambda>_. ret n) else ret n) w of
        (None, w') \<Rightarrow> (- 1, w') | (Some n, w') \<Rightarrow> (n, w'))"

definition sql_update_txn :: "int \<Rightarrow> (txn_row \<Rightarrow> txn_row) \<Rightarrow> unit stmt" where
  "sql_update_txn n f db =
     Some ((), db\<lparr>db_transactions := map (\<lambda>r. if tr_id r = n then f r else r) (db_transactions db)\<rparr>)"

definition set_transaction_destination :: "int \<Rightarrow> string \<Rightarrow> string \<Rightarrow> db_conn \<Rightarrow> int \<times> db_conn" where
  "set_transaction_destination n cid ct =
     self_committing (bnd (exec (sql_update_txn n (\<lambda>r. r\<lparr>tr_destination_id := Some cid, tr_destination_type := Some ct\<rparr>)))
       (\<lambda>_. ret 0))"

definition set_transaction_source :: "int \<Rightarrow> string \<Rightarrow> string \<Rightarrow> int txn" where
  "set_transaction_source n cid ct =
     bnd (exec (sql_update_txn n (\<lambda>r. r\<lparr>tr_source_id := Some cid, tr_source_type := Some ct\<rparr>))) (\<lambda>_. ret 0)"

definition set_transaction_source_conn :: "int \<Rightarrow> string \<Rightarrow> string \<Rightarrow> db_conn \<Rightarrow> int \<times> db_conn" where
  "set_transaction_source_conn n cid ct = self_committing (set_transaction_source n cid ct)"

definition mark_transaction_dispatched :: "pg_env \<Rightarrow> int \<Rightarrow> string \<Rightarrow> int txn" where
  "mark_transaction_dispatched pg n ts =
     bnd (exec (\<lambda>db. case pg_timestamp pg ts of
            None \<Rightarrow> None
          | Some t \<Rightarrow> sql_update_txn n (\<lambda>r. r\<lparr>tr_status := ''DISPATCHED'', tr_dispatch_timestamp := Some t\<rparr>) db))
       (\<lambda>_. ret 0)"

definition mark_transaction_dispatched_conn :: "pg_env \<Rightarrow> int \<Rightarrow> string \<Rightarrow> db_conn \<Rightarrow> int \<times> db_conn" where
  "mark_transaction_dispatched_conn pg n ts = self_committing (mark_transaction_dispatched pg n ts)"

definition mark_transaction_assigned :: "int \<Rightarrow> int txn" where
  "mark_transaction_assigned n = bnd (exec (sql_update_txn n (\<lambda>r. r\<lparr>tr_status := ''ASSIGNED''\<rparr>))) (\<lambda>_. ret 0)"

definition mark_transaction_assigned_conn :: "int \<Rightarrow> db_conn \<Rightarrow> int \<times> db_conn" where
  "mark_transaction_assigned_conn n = self_committing (mark_transaction_assigned n)"

definition complete_transaction :: "pg_env \<Rightarrow> int \<Rightarrow> string \<Rightarrow> int txn" where
  "complete_transaction pg n ts =
     bnd (exec (\<lambda>db. case pg_timestamp pg ts of
            None \<Rightarrow> None
          | Some t \<Rightarrow> sql_update_txn n (\<lambda>r. r\<lparr>tr_status := ''COMPLETED'', tr_reception_timestamp := Some t\<rparr>) db))
       (\<lambda>_. ret 0)"

definition complete_transaction_conn :: "pg_env \<Rightarrow> int \<Rightarrow> string \<Rightarrow> db_conn \<Rightarrow> int \<times> db_conn" where
  "complete_transaction_conn pg n ts = self_committing (complete_transaction pg n ts)"

definition opt_str :: "string option \<Rightarrow> string" where
  "opt_str s = (case s of None \<Rightarrow> '''' | Some t \<Rightarrow> t)"

definition parse_row :: "txn_row \<Rightarrow> transaction_record" where
  "parse_row r = \<lparr>transaction_id = tr_id r, transaction_type = tr_type r, rec_source_id = opt_str (tr_source_id r),
     rec_source_type = opt_str (tr_source_type r), destination_id = opt_str (tr_destination_id r),
     destination_type = opt_str (tr_destination_type r), status = tr_status r, rec_quantities = tr_quantities r\<rparr>"

definition parse_transaction_rows :: "txn_row list \<Rightarrow> nat \<Rightarrow> transaction_record list" where
  "parse_transaction_rows rows max_count = map parse_row (take max_count rows)"

definition pending_rows :: "pg_env \<Rightarrow> database \<Rightarrow> txn_row list" where
  "pending_rows pg db = sort_key tr_order_timestamp
     (filter (\<lambda>r. tr_status r = ''PENDING'') (pg_scan_transactions pg (db_transactions db)))"

definition get_pending_transactions :: "pg_env \<Rightarrow> nat \<Rightarrow> transaction_record list txn" where
  "get_pending_transactions pg max_count =
     (if max_count = 0 then ret []
      else bnd (exec (\<lambda>db. Some (pending_rows pg db, db))) (\<lambda>rows. ret (parse_transaction_rows rows max_count)))"

definition get_pending_transactions_conn :: "pg_env \<Rightarrow> nat \<Rightarrow> db_conn \<Rightarrow> transaction_record list \<times> db_conn" where
  "get_pending_transactions_conn pg max_count c =
     (if max_count = 0 then ([], c)
      else with_work (\<lambda>w. case get_pending_transactions pg max_count w of
             (None, w') \<Rightarrow> ([], w') | (Some rs, w') \<Rightarrow> (rs, w')) c)"

text \<open>The conditions that are empty strings are left out of the \<^verbatim>\<open>WHERE\<close> clause; \<^verbatim>\<open>NULL\<close> equals nothing.\<close>

definition txn_matches :: "string \<Rightarrow> string \<Rightarrow> string \<Rightarrow> txn_row \<Rightarrow> bool" where
  "txn_matches sid did st r \<longleftrightarrow> (sid \<noteq> '''' \<longrightarrow> tr_source_id r = Some sid)
     \<and> (did \<noteq> '''' \<longrightarrow> tr_destination_id r = Some did) \<and> (st \<noteq> '''' \<longrightarrow> tr_status r = st)"

definition sql_find_transaction :: "pg_env \<Rightarrow> string \<Rightarrow> string \<Rightarrow> string \<Rightarrow> int stmt" where
  "sql_find_transaction pg sid did st db =
     Some (case sort_key (\<lambda>r. - tr_order_timestamp r)
                  (filter (txn_matches sid did st) (pg_scan_transactions pg (db_transactions db))) of
             [] \<Rightarrow> - 1 | r # _ \<Rightarrow> tr_id r, db)"

definition find_transaction_id :: "pg_env \<Rightarrow> string \<Rightarrow> string \<Rightarrow> string \<Rightarrow> int txn" where
  "find_transaction_id pg sid did st = exec (sql_find_transaction pg sid did st)"

definition find_transaction_id_conn :: "pg_env \<Rightarrow> string \<Rightarrow> string \<Rightarrow> string \<Rightarrow> db_conn \<Rightarrow> int \<times> db_conn" where
  "find_transaction_id_conn pg sid did st =
     with_work (\<lambda>w. case find_transaction_id pg sid did st w of (None, w') \<Rightarrow> (- 1, w') | (Some n, w') \<Rightarrow> (n, w'))"

definition get_transaction_by_id :: "int \<Rightarrow> (int \<times> transaction_record option) txn" where
  "get_transaction_by_id n =
     bnd (exec (\<lambda>db. Some (find (\<lambda>r. tr_id r = n) (db_transactions db), db)))
       (\<lambda>r. ret (case r of None \<Rightarrow> (- 1, None) | Some row \<Rightarrow> (0, Some (parse_row row))))"

definition get_transaction_by_id_conn :: "int \<Rightarrow> db_conn \<Rightarrow> (int \<times> transaction_record option) \<times> db_conn" where
  "get_transaction_by_id_conn n =
     with_work (\<lambda>w. case get_transaction_by_id n w of (None, w') \<Rightarrow> ((- 1, None), w') | (Some r, w') \<Rightarrow> (r, w'))"

section \<open>Effects of statements\<close>

lemma find_SomeD: "find P xs = Some x \<Longrightarrow> x \<in> set xs \<and> P x"
  by (induction xs) (auto split: if_splits)

definition same_tables :: "database \<Rightarrow> database \<Rightarrow> bool" where
  "same_tables a b \<longleftrightarrow> db_credentials a = db_credentials b \<and> db_inventory a = db_inventory b
     \<and> db_transactions a = db_transactions b"

lemma same_tables_refl [simp]: "same_tables a a"
  by (simp add: same_tables_def)

lemma same_tables_seq [simp]:
  "same_tables a (b\<lparr>db_credential_seq := m, db_transaction_seq := n\<rparr>) = same_tables a b"
  by (simp add: same_tables_def)

text \<open>A transaction body that does not commit: the durable tables stay, a failed statement changes nothing.\<close>

definition quiet :: "'a txn \<Rightarrow> bool" where
  "quiet m \<longleftrightarrow> (\<forall>w r w'. m w = (r, w') \<longrightarrow> w_durable w' = w_durable w \<and> (r = None \<longrightarrow> same_tables (w_db w) (w_db w')))"

lemma exec_Some: "exec s w = (Some a, w') \<Longrightarrow> s (w_db w) = Some (a, w_db w') \<and> w_durable w' = w_durable w"
  by (auto simp: exec_def Let_def split: if_splits option.splits)

lemma exec_None: "exec s w = (None, w') \<Longrightarrow> w_db w' = w_db w \<and> w_durable w' = w_durable w"
  by (auto simp: exec_def Let_def split: if_splits option.splits)

lemma commit_Some: "commit w = (Some a, w') \<Longrightarrow> w_db w' = w_db w \<and> w_durable w' = w_db w"
  by (auto simp: commit_def Let_def split: if_splits)

lemma commit_None: "commit w = (None, w') \<Longrightarrow> w_db w' = w_db w \<and> w_durable w' = w_durable w"
  by (auto simp: commit_def Let_def split: if_splits)

lemma bnd_Some: "bnd m f w = (Some b, w') \<Longrightarrow> \<exists>a w1. m w = (Some a, w1) \<and> f a w1 = (Some b, w')"
  by (auto simp: bnd_def split: prod.splits option.splits)

lemma bnd_exec_ret_Some:
  "bnd (exec s) (\<lambda>a. ret (f a)) w = (Some b, w') \<Longrightarrow>
   \<exists>a. s (w_db w) = Some (a, w_db w') \<and> b = f a \<and> w_durable w' = w_durable w"
  by (auto dest!: bnd_Some exec_Some simp: ret_def)

lemma quiet_ret [simp]: "quiet (ret a)"
  by (auto simp: quiet_def ret_def)

lemma quiet_exec [simp]: "quiet (exec s)"
  unfolding quiet_def
proof (intro allI impI)
  fix w r w'
  assume "exec s w = (r, w')"
  then show "w_durable w' = w_durable w \<and> (r = None \<longrightarrow> same_tables (w_db w) (w_db w'))"
    by (cases r) (auto dest: exec_None exec_Some)
qed

lemma quiet_exec_ret [simp]: "quiet (bnd (exec s) (\<lambda>a. ret (f a)))"
  unfolding quiet_def bnd_def ret_def
  by (auto split: prod.splits option.splits dest: exec_None exec_Some)

lemma quietD:
  "quiet m \<Longrightarrow> m w = (r, w') \<Longrightarrow> w_durable w' = w_durable w"
  "quiet m \<Longrightarrow> m w = (None, w') \<Longrightarrow> same_tables (w_db w) (w_db w')"
  unfolding quiet_def by blast+

lemma quiet_helpers [simp]:
  "quiet (update_client_inventory pg cid ct q ts)" "quiet (get_warehouse_with_all_stock pg q)"
  "quiet (adjust_client_inventory pg cid q add)" "quiet (create_transaction pg ty did dt q ts)"
  "quiet (set_transaction_source n cid ct)" "quiet (mark_transaction_dispatched pg n ts)"
  "quiet (mark_transaction_assigned n)" "quiet (complete_transaction pg n ts)"
  "quiet (get_pending_transactions pg k)" "quiet (find_transaction_id pg sid did st)"
  "quiet (get_transaction_by_id n)"
  by (simp_all add: update_client_inventory_def get_warehouse_with_all_stock_def adjust_client_inventory_def
      create_transaction_def set_transaction_source_def mark_transaction_dispatched_def
      mark_transaction_assigned_def complete_transaction_def get_pending_transactions_def find_transaction_id_def
      get_transaction_by_id_def)

lemma quiet_get_client_inventory [simp]: "quiet (get_client_inventory pg cid ct)"
proof -
  have "w_durable w' = w_durable w \<and> (r = None \<longrightarrow> same_tables (w_db w) (w_db w'))"
    if h: "bnd (exec (sql_select_stock cid)) (\<lambda>r. case r of
       None \<Rightarrow> bnd (exec (sql_insert_inventory pg cid ct n)) (\<lambda>_. ret (0 :: int, replicate QUANTITY_ITEMS n))
     | Some q \<Rightarrow> ret (0, q)) w = (r, w')" for n w r w'
  proof (cases "exec (sql_select_stock cid) w")
    case (Pair x w1)
    show ?thesis
    proof (cases x)
      case None
      then show ?thesis using h Pair by (auto simp: bnd_def dest!: exec_None)
    next
      case (Some y)
      then have e: "w_db w1 = w_db w" "w_durable w1 = w_durable w"
        using Pair exec_Some [of "sql_select_stock cid" w y w1] by (auto simp: sql_select_stock_def)
      show ?thesis
      proof (cases y)
        case None
        then have i: "bnd (exec (sql_insert_inventory pg cid ct n)) (\<lambda>_. ret (0 :: int, replicate QUANTITY_ITEMS n)) w1 = (r, w')"
          using h Pair Some by (simp add: bnd_def)
        have "r = None \<Longrightarrow> same_tables (w_db w1) (w_db w')"
          by (rule quietD(2) [OF quiet_exec_ret]) (use i in simp)
        then show ?thesis using quietD(1) [OF quiet_exec_ret i] e by simp
      next
        case (Some q)
        then show ?thesis using h Pair \<open>x = Some y\<close> e by (auto simp: bnd_def ret_def)
      qed
    qed
  qed
  then show ?thesis by (auto simp: get_client_inventory_def quiet_def Let_def ret_def)
qed

lemma adjust_Some:
  "adjust_client_inventory pg cid q add w = (Some rc, w') \<Longrightarrow>
     cid = '''' \<and> rc = - 1 \<and> w' = w
     \<or> cid \<noteq> '''' \<and> rc = 0 \<and> sql_adjust_inventory pg cid q add (w_db w) = Some ((), w_db w') \<and> w_durable w' = w_durable w"
  by (auto simp: adjust_client_inventory_def ret_def split: if_splits dest: bnd_exec_ret_Some)

lemma create_Some:
  "create_transaction pg ty did dt q ts w = (Some n, w') \<Longrightarrow>
     n = - 1 \<and> w' = w
     \<or> ty \<noteq> '''' \<and> did \<noteq> '''' \<and> dt \<noteq> '''' \<and> sql_insert_transaction pg ty did dt q ts (w_db w) = Some (n, w_db w')
       \<and> w_durable w' = w_durable w"
  by (auto simp: create_transaction_def ret_def split: if_splits dest: exec_Some)

lemma warehouse_Some:
  "get_warehouse_with_all_stock pg q w = (Some s, w') \<Longrightarrow>
     (\<exists>r. sql_warehouse_with_stock pg q (w_db w) = Some (r, w_db w) \<and> s = opt_str r) \<and> w_db w' = w_db w
     \<and> w_durable w' = w_durable w"
  by (auto simp: get_warehouse_with_all_stock_def opt_str_def sql_warehouse_with_stock_def Let_def dest!: bnd_exec_ret_Some)

lemma find_txn_Some:
  "find_transaction_id pg sid did st w = (Some n, w') \<Longrightarrow>
     sql_find_transaction pg sid did st (w_db w) = Some (n, w_db w') \<and> w_db w' = w_db w \<and> w_durable w' = w_durable w"
  unfolding find_transaction_id_def by (drule exec_Some) (auto simp: sql_find_transaction_def)

definition upd_txn :: "int \<Rightarrow> (txn_row \<Rightarrow> txn_row) \<Rightarrow> database \<Rightarrow> database" where
  "upd_txn n f db = db\<lparr>db_transactions := map (\<lambda>r. if tr_id r = n then f r else r) (db_transactions db)\<rparr>"

abbreviation put_source :: "string \<Rightarrow> string \<Rightarrow> txn_row \<Rightarrow> txn_row" where
  "put_source cid ct r \<equiv> r\<lparr>tr_source_id := Some cid, tr_source_type := Some ct\<rparr>"

abbreviation put_assigned :: "txn_row \<Rightarrow> txn_row" where
  "put_assigned r \<equiv> r\<lparr>tr_status := ''ASSIGNED''\<rparr>"

abbreviation put_dispatched :: "int \<Rightarrow> txn_row \<Rightarrow> txn_row" where
  "put_dispatched t r \<equiv> r\<lparr>tr_status := ''DISPATCHED'', tr_dispatch_timestamp := Some t\<rparr>"

abbreviation put_completed :: "int \<Rightarrow> txn_row \<Rightarrow> txn_row" where
  "put_completed t r \<equiv> r\<lparr>tr_status := ''COMPLETED'', tr_reception_timestamp := Some t\<rparr>"

lemma set_source_Some:
  "set_transaction_source n cid ct w = (Some rc, w') \<Longrightarrow>
     w_db w' = upd_txn n (put_source cid ct) (w_db w) \<and> w_durable w' = w_durable w"
  by (auto simp: set_transaction_source_def sql_update_txn_def upd_txn_def dest!: bnd_exec_ret_Some)

lemma assigned_Some:
  "mark_transaction_assigned n w = (Some rc, w') \<Longrightarrow>
     w_db w' = upd_txn n put_assigned (w_db w) \<and> w_durable w' = w_durable w"
  by (auto simp: mark_transaction_assigned_def sql_update_txn_def upd_txn_def dest!: bnd_exec_ret_Some)

lemma dispatched_Some:
  "mark_transaction_dispatched pg n ts w = (Some rc, w') \<Longrightarrow>
     (\<exists>t. pg_timestamp pg ts = Some t \<and> w_db w' = upd_txn n (put_dispatched t) (w_db w)) \<and> w_durable w' = w_durable w"
  by (auto simp: mark_transaction_dispatched_def sql_update_txn_def upd_txn_def split: option.splits dest!: bnd_exec_ret_Some)

lemma complete_Some:
  "complete_transaction pg n ts w = (Some rc, w') \<Longrightarrow>
     (\<exists>t. pg_timestamp pg ts = Some t \<and> w_db w' = upd_txn n (put_completed t) (w_db w)) \<and> w_durable w' = w_durable w"
  by (auto simp: complete_transaction_def sql_update_txn_def upd_txn_def split: option.splits dest!: bnd_exec_ret_Some)

lemma by_id_Some:
  "get_transaction_by_id n w = (Some (rc, row), w') \<Longrightarrow>
     row = map_option parse_row (find (\<lambda>r. tr_id r = n) (db_transactions (w_db w))) \<and> w_db w' = w_db w
     \<and> w_durable w' = w_durable w"
  by (auto simp: get_transaction_by_id_def split: option.splits dest!: bnd_exec_ret_Some)

lemma pending_Some:
  "get_pending_transactions pg k w = (Some rs, w') \<Longrightarrow>
     rs = map parse_row (take k (pending_rows pg (w_db w))) \<and> w_db w' = w_db w \<and> w_durable w' = w_durable w"
  by (auto simp: get_pending_transactions_def parse_transaction_rows_def ret_def split: if_splits dest!: bnd_exec_ret_Some)

text \<open>Reading an inventory leaves the transactions alone and, once the row exists, the whole database.\<close>

lemma inventory_Some:
  assumes "get_client_inventory pg cid ct w = (Some (rc, q), w')"
  shows "w_durable w' = w_durable w \<and> db_transactions (w_db w') = db_transactions (w_db w)
     \<and> db_transaction_seq (w_db w') = db_transaction_seq (w_db w) \<and> db_credentials (w_db w') = db_credentials (w_db w)
     \<and> (rc \<noteq> 0 \<longrightarrow> w' = w)
     \<and> (rc = 0 \<longrightarrow> (\<exists>r\<in>set (db_inventory (w_db w')). cr_client_id r = cid \<and> cr_stock r = q)
          \<and> (db_inventory (w_db w') = db_inventory (w_db w) \<or>
             (\<exists>r. db_inventory (w_db w') = db_inventory (w_db w) @ [r] \<and> cr_client_id r = cid \<and> cr_stock r = q
                \<and> length q = QUANTITY_ITEMS \<and> (\<forall>x\<in>set q. 0 \<le> x) \<and> cid \<notin> cr_client_id ` set (db_inventory (w_db w)))))"
proof (cases "cid = '''' \<or> ct = ''''")
  case True
  then show ?thesis using assms by (auto simp: get_client_inventory_def ret_def)
next
  case False
  then obtain a w1 where a: "exec (sql_select_stock cid) w = (Some a, w1)"
    and r: "(case a of None \<Rightarrow> bnd (exec (sql_insert_inventory pg cid ct
             (if ct = ''WAREHOUSE'' then INITIAL_STOCK_WAREHOUSE else INITIAL_STOCK_HUB)))
             (\<lambda>_. ret (0, replicate QUANTITY_ITEMS (if ct = ''WAREHOUSE'' then INITIAL_STOCK_WAREHOUSE else INITIAL_STOCK_HUB)))
           | Some q \<Rightarrow> ret (0, q)) w1 = (Some (rc, q), w')"
    using assms unfolding get_client_inventory_def Let_def by (auto dest!: bnd_Some)
  have w1: "w_db w1 = w_db w" "w_durable w1 = w_durable w"
      "a = map_option cr_stock (find (\<lambda>r. cr_client_id r = cid) (db_inventory (w_db w)))"
    using exec_Some [OF a] by (auto simp: sql_select_stock_def)
  show ?thesis
  proof (cases a)
    case None
    let ?n = "if ct = ''WAREHOUSE'' then INITIAL_STOCK_WAREHOUSE else INITIAL_STOCK_HUB"
    have "bnd (exec (sql_insert_inventory pg cid ct ?n)) (\<lambda>_. ret (0, replicate QUANTITY_ITEMS ?n)) w1 = (Some (rc, q), w')"
      using r None by simp
    from bnd_exec_ret_Some [OF this]
    have i: "sql_insert_inventory pg cid ct ?n (w_db w) = Some ((), w_db w')" "rc = 0" "q = replicate QUANTITY_ITEMS ?n"
      "w_durable w' = w_durable w"
      using w1 by auto
    have n: "0 \<le> ?n" by (simp add: INITIAL_STOCK_WAREHOUSE_def INITIAL_STOCK_HUB_def)
    have e: "w_db w' = (w_db w)\<lparr>db_inventory := db_inventory (w_db w) @ [\<lparr>cr_client_id = cid, cr_client_type = ct,
        cr_stock = q, cr_last_updated = pg_now pg\<rparr>]\<rparr>" and f: "\<forall>r\<in>set (db_inventory (w_db w)). cr_client_id r \<noteq> cid"
      using i(1) by (auto simp: sql_insert_inventory_def i(3) split: if_splits)
    have q: "\<forall>x\<in>set q. 0 \<le> x" "length q = QUANTITY_ITEMS" using n by (simp_all add: i(3))
    show ?thesis using i(2,4) q f by (auto simp: e)
  next
    case (Some q0)
    then have r': "rc = 0" "q = q0" "w' = w1" using r by (auto simp: ret_def)
    obtain row where "find (\<lambda>r. cr_client_id r = cid) (db_inventory (w_db w)) = Some row" "cr_stock row = q0"
      using trans [OF w1(3) [symmetric] Some] by auto
    then have "row \<in> set (db_inventory (w_db w))" "cr_client_id row = cid" by (auto dest: find_SomeD)
    then show ?thesis using r' w1 \<open>cr_stock row = q0\<close> by auto
  qed
qed

lemmas helper_Some = adjust_Some create_Some warehouse_Some find_txn_Some set_source_Some assigned_Some
  dispatched_Some complete_Some by_id_Some pending_Some commit_Some

section \<open>Well-formed databases and how transactions evolve\<close>

definition STATUSES :: "string list" where
  "STATUSES = [''PENDING'', ''ASSIGNED'', ''DISPATCHED'', ''COMPLETED'']"

fun status_rank :: "string \<Rightarrow> nat" where
  "status_rank s = (if s = ''PENDING'' then 0 else if s = ''ASSIGNED'' then 1 else if s = ''DISPATCHED'' then 2 else 3)"

declare status_rank.simps [simp del]

definition row_ok :: "int \<Rightarrow> txn_row \<Rightarrow> bool" where
  "row_ok n r \<longleftrightarrow> 0 < tr_id r \<and> tr_id r \<le> n \<and> length (tr_quantities r) = QUANTITY_ITEMS \<and> tr_status r \<in> set STATUSES"

definition db_wf :: "database \<Rightarrow> bool" where
  "db_wf db \<longleftrightarrow> distinct (map tr_id (db_transactions db)) \<and> (\<forall>r\<in>set (db_transactions db). row_ok (db_transaction_seq db) r)
     \<and> 0 \<le> db_transaction_seq db
     \<and> distinct (map cr_client_id (db_inventory db)) \<and> (\<forall>r\<in>set (db_inventory db). length (cr_stock r) = QUANTITY_ITEMS)"

text \<open>One step of a transaction: the order itself is fixed, the status moves by at most one place, the source is fixed once assigned.\<close>

definition row_step :: "txn_row \<Rightarrow> txn_row \<Rightarrow> bool" where
  "row_step r r' \<longleftrightarrow> tr_id r' = tr_id r \<and> tr_type r' = tr_type r \<and> tr_destination_id r' = tr_destination_id r
     \<and> tr_destination_type r' = tr_destination_type r \<and> tr_quantities r' = tr_quantities r
     \<and> tr_order_timestamp r' = tr_order_timestamp r
     \<and> (status_rank (tr_status r') = status_rank (tr_status r) \<or> status_rank (tr_status r') = Suc (status_rank (tr_status r)))
     \<and> (tr_status r \<noteq> ''PENDING'' \<longrightarrow> tr_source_id r' = tr_source_id r)"

definition evolves :: "database \<Rightarrow> database \<Rightarrow> bool" where
  "evolves a b \<longleftrightarrow> (\<exists>olds news. db_transactions b = olds @ news \<and> list_all2 row_step (db_transactions a) olds
     \<and> (\<forall>r\<in>set news. db_transaction_seq a < tr_id r))"

lemma row_step_refl [simp]: "row_step r r"
  by (simp add: row_step_def)

lemma evolves_same: "db_transactions b = db_transactions a \<Longrightarrow> evolves a b"
  unfolding evolves_def by (intro exI [of _ "db_transactions a"] exI [of _ "[]"]) (simp add: list_all2_refl)

lemma evolves_map:
  assumes "db_transactions b = map f (db_transactions a) @ news" "\<And>r. r \<in> set (db_transactions a) \<Longrightarrow> row_step r (f r)"
    and "\<forall>r\<in>set news. db_transaction_seq a < tr_id r"
  shows "evolves a b"
  unfolding evolves_def
  by (intro exI [of _ "map f (db_transactions a)"] exI [of _ news])
     (use assms in \<open>simp add: list_all2_conv_all_nth\<close>)

lemma db_wf_upd:
  assumes "db_wf db" "\<And>r. tr_id (f r) = tr_id r" "\<And>r. tr_quantities (f r) = tr_quantities r"
    and "\<And>r. tr_status r \<in> set STATUSES \<Longrightarrow> tr_status (f r) \<in> set STATUSES"
  shows "db_wf (upd_txn n f db)"
proof -
  have "map tr_id (map (\<lambda>r. if tr_id r = n then f r else r) (db_transactions db)) = map tr_id (db_transactions db)"
    using assms(2) by simp
  then show ?thesis
    using assms by (auto simp: db_wf_def upd_txn_def row_ok_def simp del: map_map)
qed

lemma statuses [simp]: "''PENDING'' \<in> set STATUSES" "''ASSIGNED'' \<in> set STATUSES" "''DISPATCHED'' \<in> set STATUSES"
  "''COMPLETED'' \<in> set STATUSES"
  by (simp_all add: STATUSES_def)

lemma int4_all_eq: "int4_all q = (if \<forall>x\<in>set q. int32_ok x then Some q else None)"
  by (induction q) (auto simp: int4_def)

lemma db_wf_insert:
  assumes "db_wf db" "length q = QUANTITY_ITEMS" "sql_insert_transaction pg ty did dt q ts db = Some (n, db')"
  shows "db_wf db' \<and> n = db_transaction_seq db + 1 \<and> db_inventory db' = db_inventory db
     \<and> db_transaction_seq db' = n \<and> db_credentials db' = db_credentials db
     \<and> (\<exists>r. db_transactions db' = db_transactions db @ [r] \<and> tr_id r = n \<and> tr_status r = ''PENDING'' \<and> tr_type r = ty
          \<and> tr_destination_id r = Some did \<and> tr_destination_type r = Some dt \<and> tr_quantities r = q
          \<and> pg_timestamp pg ts = Some (tr_order_timestamp r))"
proof -
  obtain t where t: "pg_timestamp pg ts = Some t" "\<forall>x\<in>set q. int32_ok x"
    and db': "n = db_transaction_seq db + 1" "db' = db\<lparr>db_transaction_seq := n, db_transactions := db_transactions db @
             [\<lparr>tr_id = n, tr_type = ty, tr_source_id = None, tr_source_type = None, tr_destination_id = Some did,
               tr_destination_type = Some dt, tr_status = ''PENDING'', tr_quantities = q, tr_order_timestamp = t,
               tr_dispatch_timestamp = None, tr_reception_timestamp = None\<rparr>]\<rparr>"
    using assms(3) by (auto simp: sql_insert_transaction_def int4_all_eq Let_def split: option.splits if_splits)
  have "\<forall>r\<in>set (db_transactions db). row_ok n r \<and> tr_id r \<noteq> n"
    using assms(1) by (auto simp: db_wf_def row_ok_def db'(1))
  then show ?thesis
    using assms(1,2) t by (auto simp: db'(2) db_wf_def row_ok_def) (auto simp: db'(1) db_wf_def)
qed

lemma adjusted_length: "adjusted add q s = Some s' \<Longrightarrow> length s = length q \<Longrightarrow> length s' = length q"
  by (auto simp: adjusted_def int4_all_eq split: if_splits)

lemma db_wf_adjust:
  assumes "db_wf db" "length q = QUANTITY_ITEMS" "sql_adjust_inventory pg cid q add db = Some ((), db')"
  shows "db_wf db' \<and> db_transactions db' = db_transactions db \<and> db_transaction_seq db' = db_transaction_seq db
     \<and> db_credentials db' = db_credentials db"
proof (cases "find (\<lambda>r. cr_client_id r = cid) (db_inventory db)")
  case None
  then show ?thesis using assms by (simp add: sql_adjust_inventory_def)
next
  case (Some row)
  then obtain s where s: "adjusted add q (cr_stock row) = Some s"
    and db': "db' = db\<lparr>db_inventory := map (\<lambda>r. if cr_client_id r = cid
        then r\<lparr>cr_stock := s, cr_last_updated := pg_now pg\<rparr> else r) (db_inventory db)\<rparr>"
    using assms(3) by (auto simp: sql_adjust_inventory_def split: option.splits)
  have "row \<in> set (db_inventory db)" using Some by (auto dest: find_SomeD)
  then have len: "length s = QUANTITY_ITEMS"
    using adjusted_length [OF s] assms(1,2) by (auto simp: db_wf_def)
  have "map cr_client_id (map (\<lambda>r. if cr_client_id r = cid then r\<lparr>cr_stock := s, cr_last_updated := pg_now pg\<rparr> else r)
      (db_inventory db)) = map cr_client_id (db_inventory db)"
    by simp
  then show ?thesis using assms(1) len by (auto simp: db' db_wf_def simp del: map_map)
qed

lemma db_wf_upsert:
  assumes "db_wf db" "length q = QUANTITY_ITEMS" "sql_upsert_inventory pg cid ct q ts db = Some ((), db')"
  shows "db_wf db' \<and> db_transactions db' = db_transactions db \<and> db_transaction_seq db' = db_transaction_seq db
     \<and> db_credentials db' = db_credentials db"
proof -
  have m: "map cr_client_id (map (\<lambda>r. if cr_client_id r = k then row else r) xs) = map cr_client_id xs"
    if "cr_client_id row = k" for row xs k
    using that by simp
  show ?thesis
    using assms
    by (auto simp: m sql_upsert_inventory_def int4_all_eq Let_def db_wf_def simp del: map_map
        split: option.splits if_splits)
qed

lemma db_wf_cong:
  "db_wf a \<Longrightarrow> db_transactions b = db_transactions a \<Longrightarrow> db_transaction_seq a \<le> db_transaction_seq b \<Longrightarrow>
   db_inventory b = db_inventory a \<Longrightarrow> db_wf b"
  by (auto simp: db_wf_def row_ok_def)

text \<open>Identifiers are never taken back, whatever fails.\<close>

definition seq_mono :: "(work \<Rightarrow> 'r \<times> work) \<Rightarrow> bool" where
  "seq_mono b \<longleftrightarrow> (\<forall>w. db_transaction_seq (w_db w) \<le> db_transaction_seq (w_db (snd (b w))))"

lemma seq_mono_const [simp]: "seq_mono (\<lambda>w. (r w, w))" "seq_mono (ret a)"
  by (simp_all add: seq_mono_def ret_def)

lemma seq_mono_commit [simp]: "seq_mono commit"
  by (simp add: seq_mono_def commit_def Let_def)

lemma seq_mono_exec: "(\<And>db a db'. s db = Some (a, db') \<Longrightarrow> db_transaction_seq db \<le> db_transaction_seq db') \<Longrightarrow> seq_mono (exec s)"
  by (auto simp: seq_mono_def exec_def Let_def split: option.splits)

lemma seq_mono_bnd: "seq_mono m \<Longrightarrow> (\<And>a. seq_mono (f a)) \<Longrightarrow> seq_mono (bnd m f)"
  unfolding seq_mono_def bnd_def by (auto split: prod.splits option.splits) (metis order.trans snd_conv)+

lemma seq_mono_helpers [simp]:
  "seq_mono (update_client_inventory pg cid ct q ts)" "seq_mono (get_warehouse_with_all_stock pg q)"
  "seq_mono (adjust_client_inventory pg cid q add)" "seq_mono (create_transaction pg ty did dt q ts)"
  "seq_mono (set_transaction_source n cid ct)" "seq_mono (mark_transaction_dispatched pg n ts)"
  "seq_mono (mark_transaction_assigned n)" "seq_mono (complete_transaction pg n ts)"
  "seq_mono (get_pending_transactions pg k)" "seq_mono (find_transaction_id pg sid did st)"
  "seq_mono (get_transaction_by_id n)" "seq_mono (get_client_inventory pg cid ct)"
  by (auto simp: update_client_inventory_def get_warehouse_with_all_stock_def adjust_client_inventory_def
      create_transaction_def set_transaction_source_def mark_transaction_dispatched_def get_client_inventory_def
      mark_transaction_assigned_def complete_transaction_def get_pending_transactions_def find_transaction_id_def
      get_transaction_by_id_def sql_upsert_inventory_def sql_warehouse_with_stock_def sql_adjust_inventory_def
      sql_insert_transaction_def sql_update_txn_def sql_find_transaction_def sql_select_stock_def
      sql_insert_inventory_def Let_def intro!: seq_mono_bnd seq_mono_exec split: option.splits if_splits)

end
