(* ===== verification/Auth_Module.thy ===== *)
theory Auth_Module
  imports Database
begin

text \<open>
  The authentication module (\<^verbatim>\<open>include/server/auth_module.hpp\<close>, \<^verbatim>\<open>src/server/auth_module.cpp\<close>). The pool
  blocks until a connection is free and the database helpers catch their own exceptions, so the catch
  blocks of this module have nothing to catch; the error code they would set is part of the type only.
\<close>

datatype auth_result_code = SUCCESS | INVALID_CREDENTIALS | AUTH_ERROR

fun auth_code :: "auth_result_code \<Rightarrow> int" where
  "auth_code SUCCESS = 200"
| "auth_code INVALID_CREDENTIALS = 401"
| "auth_code AUTH_ERROR = 500"

record auth_result =
  au_status_code :: auth_result_code
  au_client_type :: string
  au_username :: string
  au_error_message :: string

definition authenticate :: "string \<Rightarrow> string \<Rightarrow> db_conn \<Rightarrow> auth_result \<times> db_conn" where
  "authenticate u p c =
     (let rejected = \<lparr>au_status_code = INVALID_CREDENTIALS, au_client_type = '''', au_username = '''',
                      au_error_message = ''Invalid username or password''\<rparr>
      in case query_credentials_by_username u c of
           (None, c1) \<Rightarrow> (rejected, c1)
         | (Some cred, c1) \<Rightarrow>
             if password_hash cred \<noteq> p then (rejected, c1)
             else (\<lparr>au_status_code = SUCCESS, au_client_type = cred_client_type cred, au_username = cred_username cred,
                    au_error_message = ''''\<rparr>, snd (set_client_active u True c1)))"

definition deactivate_client :: "string \<Rightarrow> db_conn \<Rightarrow> db_conn" where
  "deactivate_client u c = snd (set_client_active u False c)"

section \<open>Effects\<close>

lemma self_committing_cases:
  assumes "self_committing (bnd (exec s) (\<lambda>_. ret 0)) c = (rc, c')"
  obtains (failed) "rc = - 1" "same_tables (c_db c) (c_db c')"
    | (stored) db where "rc = 0" "s (c_db c) = Some ((), db)" "same_tables db (c_db c')"
  using assms
  by (auto simp: self_committing_def with_work_def bnd_def ret_def exec_def commit_def Let_def same_tables_def
      split: prod.splits option.splits if_splits)

lemma query_credentials_cases:
  assumes "query_credentials_by_username u c = (r, c')"
  shows "c_db c' = c_db c \<and> (r = None \<or> r = find (\<lambda>r. cred_username r = u) (db_credentials (c_db c)))"
  using assms
  by (auto simp: query_credentials_by_username_def with_work_def exec_def Let_def split: prod.splits option.splits if_splits)

definition activated :: "string \<Rightarrow> bool \<Rightarrow> database \<Rightarrow> database" where
  "activated u b db = db\<lparr>db_credentials := map (\<lambda>r. if cred_username r = u then r\<lparr>is_active := b\<rparr> else r) (db_credentials db)\<rparr>"

lemma set_client_active_cases:
  assumes "set_client_active u b c = (rc, c')"
  shows "same_tables (c_db c) (c_db c') \<or> same_tables (activated u b (c_db c)) (c_db c')"
proof (cases "u = ''''")
  case True
  then show ?thesis using assms by (simp add: set_client_active_def)
next
  case False
  with assms have "self_committing (bnd (exec (\<lambda>db. Some ((), activated u b db))) (\<lambda>_. ret 0)) c = (rc, c')"
    by (simp add: set_client_active_def activated_def)
  then show ?thesis by (cases rule: self_committing_cases) auto
qed

text \<open>A login succeeds only on a stored credential with the given user name and password, and yields that
  credential's type; nothing but activity flags of that user changes in either case.\<close>

lemma authenticate_success:
  assumes "authenticate u p c = (r, c')" "au_status_code r = SUCCESS"
  obtains cred where "cred \<in> set (db_credentials (c_db c))" "cred_username cred = u" "password_hash cred = p"
    "au_client_type r = cred_client_type cred" "au_username r = u"
proof -
  obtain q c1 where q: "query_credentials_by_username u c = (q, c1)" by fastforce
  from assms obtain cred where c: "q = Some cred" "password_hash cred = p" "au_client_type r = cred_client_type cred"
      "au_username r = cred_username cred"
    unfolding authenticate_def Let_def q by (auto split: option.splits if_splits)
  with query_credentials_cases [OF q] have "find (\<lambda>r. cred_username r = u) (db_credentials (c_db c)) = Some cred" by simp
  from find_SomeD [OF this] c show thesis by (intro that [of cred]) simp_all
qed

lemma authenticate_db:
  assumes "authenticate u p c = (r, c')"
  shows "same_tables (c_db c) (c_db c') \<or> au_status_code r = SUCCESS \<and> same_tables (activated u True (c_db c)) (c_db c')"
proof -
  obtain q c1 where q: "query_credentials_by_username u c = (q, c1)" by fastforce
  have c1: "c_db c1 = c_db c" using query_credentials_cases [OF q] by simp
  obtain rc c2 where s: "set_client_active u True c1 = (rc, c2)" by fastforce
  have "same_tables (c_db c) (c_db c1)" by (simp add: c1)
  then show ?thesis
    using assms set_client_active_cases [OF s, unfolded c1] unfolding authenticate_def Let_def q
    by (auto simp: s split: option.splits if_splits)
qed

lemma authenticate_complete:
  assumes "find (\<lambda>r. cred_username r = u) (db_credentials (c_db c)) = Some cred" "password_hash cred = p" "c_faults c = []"
  shows "au_status_code (fst (authenticate u p c)) = SUCCESS"
  using assms
  by (auto simp: authenticate_def query_credentials_by_username_def with_work_def exec_def Let_def split: prod.splits)

lemma authenticate_never_500: "au_status_code (fst (authenticate u p c)) \<noteq> AUTH_ERROR"
  by (auto simp: authenticate_def Let_def split: prod.splits option.splits)

end
