(* ===== verification/Json_Manager.thy ===== *)
theory Json_Manager
  imports Payload "HOL-Library.Sublist"
begin

text \<open>
  Messages and their JSON form (\<^verbatim>\<open>include/common/json_manager.h\<close>, \<^verbatim>\<open>src/common/json_manager.c\<close>). The cJSON
  library is a parameter: a record \<open>cjson\<close> of the calls the code makes, over an unspecified type of
  trees; \<open>cjson_ok\<close> states the documented behaviour the round trip relies on. Null pointers are not
  values of the model, apart from the optional order timestamp.
\<close>

section \<open>The cJSON interface\<close>

text \<open>
  \<open>cj_string\<close> is \<^verbatim>\<open>cJSON_IsString\<close> with \<^verbatim>\<open>valuestring\<close>, \<open>cj_number\<close> is \<^verbatim>\<open>cJSON_IsNumber\<close> with \<^verbatim>\<open>valueint\<close>,
  \<open>cj_elems\<close> is \<^verbatim>\<open>cJSON_IsArray\<close> with its children, \<open>cj_mk_object\<close> and \<open>cj_mk_array\<close> create a node and add
  items to it in order, \<open>cj_print\<close> is \<^verbatim>\<open>cJSON_PrintPreallocated\<close> with the size of the buffer.
\<close>

record 'j cjson =
  cj_parse :: "string \<Rightarrow> 'j option"
  cj_print :: "'j \<Rightarrow> nat \<Rightarrow> string option"
  cj_get :: "'j \<Rightarrow> string \<Rightarrow> 'j option"
  cj_string :: "'j \<Rightarrow> string option"
  cj_number :: "'j \<Rightarrow> int option"
  cj_elems :: "'j \<Rightarrow> 'j list option"
  cj_is_object :: "'j \<Rightarrow> bool"
  cj_mk_string :: "string \<Rightarrow> 'j"
  cj_mk_number :: "int \<Rightarrow> 'j"
  cj_mk_array :: "'j list \<Rightarrow> 'j"
  cj_mk_object :: "(string \<times> 'j) list \<Rightarrow> 'j"

definition cjson_ok :: "'j cjson \<Rightarrow> bool" where
  "cjson_ok cj \<longleftrightarrow>
     (\<forall>s. cj_string cj (cj_mk_string cj s) = Some s)
     \<and> (\<forall>i. int32_ok i \<longrightarrow> cj_number cj (cj_mk_number cj i) = Some i)
     \<and> (\<forall>xs. cj_elems cj (cj_mk_array cj xs) = Some xs)
     \<and> (\<forall>kvs k. cj_get cj (cj_mk_object cj kvs) k = map_of kvs k)
     \<and> (\<forall>kvs. cj_is_object cj (cj_mk_object cj kvs))
     \<and> (\<forall>j n t. cj_print cj j n = Some t \<longrightarrow> cj_parse cj t = Some j \<and> length t < n)"

lemma cjson_okD:
  assumes "cjson_ok cj"
  shows "cj_string cj (cj_mk_string cj s) = Some s"
    and "int32_ok i \<Longrightarrow> cj_number cj (cj_mk_number cj i) = Some i"
    and "cj_elems cj (cj_mk_array cj xs) = Some xs"
    and "cj_get cj (cj_mk_object cj kvs) k = map_of kvs k"
    and "cj_is_object cj (cj_mk_object cj kvs)"
    and "cj_print cj j n = Some t \<Longrightarrow> cj_parse cj t = Some j"
  using assms unfolding cjson_ok_def by blast+

text \<open>A node that may be absent: the C code passes \<^verbatim>\<open>NULL\<close> to the type tests, which answer no.\<close>

definition get_string :: "'j cjson \<Rightarrow> 'j \<Rightarrow> string \<Rightarrow> string option" where
  "get_string cj root k = Option.bind (cj_get cj root k) (cj_string cj)"

definition get_number :: "'j cjson \<Rightarrow> 'j \<Rightarrow> string \<Rightarrow> int option" where
  "get_number cj root k = Option.bind (cj_get cj root k) (cj_number cj)"

section \<open>Payload serializers\<close>

definition serialize_item :: "'j cjson \<Rightarrow> inventory_item_t \<Rightarrow> 'j" where
  "serialize_item cj it = cj_mk_object cj
     [(''item_id'', cj_mk_number cj (item_id it)), (''item_name'', cj_mk_string cj (item_name it)),
      (''quantity'', cj_mk_number cj (quantity it))]"

definition serialize_items_list :: "'j cjson \<Rightarrow> payload_t \<Rightarrow> 'j" where
  "serialize_items_list cj m =
     (let payload = load_items_list m;
          arr = cj_mk_array cj (map (serialize_item cj) (filter (\<lambda>it. item_id it \<noteq> 0) (items payload)))
      in cj_mk_object cj ((''items'', arr) #
           (if order_timestamp payload \<noteq> '''' then [(''order_timestamp'', cj_mk_string cj (order_timestamp payload))] else [])))"

definition serialize_auth_response :: "'j cjson \<Rightarrow> payload_t \<Rightarrow> 'j" where
  "serialize_auth_response cj m = cj_mk_object cj [(''status_code'', cj_mk_number cj (ar_status_code (load_auth_response m)))]"

definition serialize_acknowledgment :: "'j cjson \<Rightarrow> payload_t \<Rightarrow> 'j" where
  "serialize_acknowledgment cj m = cj_mk_object cj
     [(''status_code'', cj_mk_number cj (ack_status_code (load_acknowledgment m))),
      (''ack_for_timestamp'', cj_mk_string cj (ack_for_timestamp (load_acknowledgment m)))]"

definition serialize_auth_request :: "'j cjson \<Rightarrow> payload_t \<Rightarrow> 'j" where
  "serialize_auth_request cj m = cj_mk_object cj
     [(''username'', cj_mk_string cj (username (load_auth_request m))),
      (''password'', cj_mk_string cj (password (load_auth_request m)))]"

definition serialize_keepalive :: "'j cjson \<Rightarrow> payload_t \<Rightarrow> 'j" where
  "serialize_keepalive cj m = cj_mk_object cj [(''message'', cj_mk_string cj (ka_message (load_keepalive m)))]"

definition serialize_client_emergency :: "'j cjson \<Rightarrow> payload_t \<Rightarrow> 'j" where
  "serialize_client_emergency cj m = cj_mk_object cj
     [(''emergency_code'', cj_mk_number cj (ce_emergency_code (load_client_emergency m))),
      (''emergency_type'', cj_mk_string cj (ce_emergency_type (load_client_emergency m)))]"

definition serialize_server_emergency :: "'j cjson \<Rightarrow> payload_t \<Rightarrow> 'j" where
  "serialize_server_emergency cj m = cj_mk_object cj
     [(''emergency_code'', cj_mk_number cj (se_emergency_code (load_server_emergency m))),
      (''instructions'', cj_mk_string cj (se_instructions (load_server_emergency m)))]"

definition serialize_generic_args :: "'j cjson \<Rightarrow> payload_t \<Rightarrow> 'j" where
  "serialize_generic_args cj m = cj_mk_object cj [(''args'', cj_mk_string cj (ga_args (load_generic_args m)))]"

section \<open>Payload deserializers\<close>

definition store_int_opt :: "nat \<Rightarrow> int option \<Rightarrow> payload_t \<Rightarrow> payload_t" where
  "store_int_opt off v m = (case v of Some i \<Rightarrow> store off (int_bytes i) m | None \<Rightarrow> m)"

definition store_str_opt :: "nat \<Rightarrow> nat \<Rightarrow> string option \<Rightarrow> payload_t \<Rightarrow> payload_t" where
  "store_str_opt off n v m = (case v of Some s \<Rightarrow> safe_strcpy off n s m | None \<Rightarrow> m)"

definition deserialize_generic_args :: "'j cjson \<Rightarrow> 'j \<Rightarrow> payload_t \<Rightarrow> payload_t" where
  "deserialize_generic_args cj root m = store_str_opt 0 DESCRIPTION_SIZE (get_string cj root ''args'') m"

definition deserialize_item :: "'j cjson \<Rightarrow> nat \<Rightarrow> 'j \<Rightarrow> payload_t \<Rightarrow> payload_t" where
  "deserialize_item cj i item m =
     store_int_opt (ITEM_SIZE * i + 36) (get_number cj item ''quantity'')
       (store_str_opt (ITEM_SIZE * i + 4) ITEM_NAME_SIZE (get_string cj item ''item_name'')
          (store_int_opt (ITEM_SIZE * i) (get_number cj item ''item_id'') m))"

fun deserialize_items :: "'j cjson \<Rightarrow> nat \<Rightarrow> 'j list \<Rightarrow> payload_t \<Rightarrow> payload_t" where
  "deserialize_items cj i [] m = m"
| "deserialize_items cj i (x # xs) m =
     (if i \<ge> QUANTITY_ITEMS then m else deserialize_items cj (i + 1) xs (deserialize_item cj i x m))"

definition deserialize_items_list :: "'j cjson \<Rightarrow> 'j \<Rightarrow> payload_t \<Rightarrow> payload_t" where
  "deserialize_items_list cj root m =
     (let m = (case Option.bind (cj_get cj root ''items'') (cj_elems cj) of
                 Some xs \<Rightarrow> deserialize_items cj 0 xs m | None \<Rightarrow> m)
      in case get_string cj root ''order_timestamp'' of
           Some s \<Rightarrow> safe_strcpy 240 TIMESTAMP_SIZE s m
         | None \<Rightarrow> store 240 [NUL] m)"

definition deserialize_auth_response :: "'j cjson \<Rightarrow> 'j \<Rightarrow> payload_t \<Rightarrow> payload_t" where
  "deserialize_auth_response cj root m = store_int_opt 0 (get_number cj root ''status_code'') m"

definition deserialize_acknowledgment :: "'j cjson \<Rightarrow> 'j \<Rightarrow> payload_t \<Rightarrow> payload_t" where
  "deserialize_acknowledgment cj root m =
     store_str_opt 4 TIMESTAMP_SIZE (get_string cj root ''ack_for_timestamp'')
       (store_int_opt 0 (get_number cj root ''status_code'') m)"

definition deserialize_auth_request :: "'j cjson \<Rightarrow> 'j \<Rightarrow> payload_t \<Rightarrow> payload_t" where
  "deserialize_auth_request cj root m =
     store_str_opt 64 CREDENTIALS_SIZE (get_string cj root ''password'')
       (store_str_opt 0 CREDENTIALS_SIZE (get_string cj root ''username'') m)"

definition deserialize_keepalive :: "'j cjson \<Rightarrow> 'j \<Rightarrow> payload_t \<Rightarrow> payload_t" where
  "deserialize_keepalive cj root m =
     (case get_string cj root ''message'' of
        Some s \<Rightarrow> if length (c_str s) > 0 then safe_strcpy 0 DESCRIPTION_SIZE s m else m
      | None \<Rightarrow> m)"

definition deserialize_client_emergency :: "'j cjson \<Rightarrow> 'j \<Rightarrow> payload_t \<Rightarrow> payload_t" where
  "deserialize_client_emergency cj root m =
     store_str_opt 4 EMERGENCY_TYPE_SIZE (get_string cj root ''emergency_type'')
       (store_int_opt 0 (get_number cj root ''emergency_code'') m)"

definition deserialize_server_emergency :: "'j cjson \<Rightarrow> 'j \<Rightarrow> payload_t \<Rightarrow> payload_t" where
  "deserialize_server_emergency cj root m =
     store_str_opt 4 EMERGENCY_INSTRUCTIONS_SIZE (get_string cj root ''instructions'')
       (store_int_opt 0 (get_number cj root ''emergency_code'') m)"

section \<open>The handler table\<close>

datatype payload_kind =
    K_auth_request | K_keepalive | K_items | K_client_emergency | K_ack | K_auth_response
  | K_server_emergency | K_generic_args

fun serialize_payload :: "payload_kind \<Rightarrow> 'j cjson \<Rightarrow> payload_t \<Rightarrow> 'j" where
  "serialize_payload K_auth_request = serialize_auth_request"
| "serialize_payload K_keepalive = serialize_keepalive"
| "serialize_payload K_items = serialize_items_list"
| "serialize_payload K_client_emergency = serialize_client_emergency"
| "serialize_payload K_ack = serialize_acknowledgment"
| "serialize_payload K_auth_response = serialize_auth_response"
| "serialize_payload K_server_emergency = serialize_server_emergency"
| "serialize_payload K_generic_args = serialize_generic_args"

fun deserialize_payload :: "payload_kind \<Rightarrow> 'j cjson \<Rightarrow> 'j \<Rightarrow> payload_t \<Rightarrow> payload_t" where
  "deserialize_payload K_auth_request = deserialize_auth_request"
| "deserialize_payload K_keepalive = deserialize_keepalive"
| "deserialize_payload K_items = deserialize_items_list"
| "deserialize_payload K_client_emergency = deserialize_client_emergency"
| "deserialize_payload K_ack = deserialize_acknowledgment"
| "deserialize_payload K_auth_response = deserialize_auth_response"
| "deserialize_payload K_server_emergency = deserialize_server_emergency"
| "deserialize_payload K_generic_args = deserialize_generic_args"

definition handlers :: "(string \<times> payload_kind) list" where
  "handlers =
    [(''HUB_TO_SERVER__AUTH_REQUEST'', K_auth_request),
     (''CLI_TO_SERVER__AUTH_REQUEST'', K_auth_request),
     (''GATEWAY_TO_SERVER__AUTH_REQUEST'', K_auth_request),
     (''HUB_TO_SERVER__KEEPALIVE'', K_keepalive),
     (''GATEWAY_TO_SERVER__KEEPALIVE'', K_keepalive),
     (''HUB_TO_SERVER__INVENTORY_UPDATE'', K_items),
     (''HUB_TO_SERVER__EMERGENCY_ALERT'', K_client_emergency),
     (''HUB_TO_SERVER__STOCK_REQUEST'', K_items),
     (''HUB_TO_SERVER__STOCK_RECEIPT_CONFIRMATION'', K_items),
     (''HUB_TO_SERVER__ACK'', K_ack),
     (''WAREHOUSE_TO_SERVER__AUTH_REQUEST'', K_auth_request),
     (''WAREHOUSE_TO_SERVER__KEEPALIVE'', K_keepalive),
     (''WAREHOUSE_TO_SERVER__INVENTORY_UPDATE'', K_items),
     (''WAREHOUSE_TO_SERVER__EMERGENCY_ALERT'', K_client_emergency),
     (''WAREHOUSE_TO_SERVER__SHIPMENT_NOTICE'', K_items),
     (''WAREHOUSE_TO_SERVER__REPLENISH_REQUEST'', K_items),
     (''WAREHOUSE_TO_SERVER__STOCK_RECEIPT_CONFIRMATION'', K_items),
     (''WAREHOUSE_TO_SERVER__ACK'', K_ack),
     (''GATEWAY_TO_SERVER__ACK'', K_ack),
     (''SERVER_TO_HUB__AUTH_RESPONSE'', K_auth_response),
     (''SERVER_TO_WAREHOUSE__AUTH_RESPONSE'', K_auth_response),
     (''SERVER_TO_CLI__AUTH_RESPONSE'', K_auth_response),
     (''SERVER_TO_GATEWAY__AUTH_RESPONSE'', K_auth_response),
     (''SERVER_TO_HUB__INVENTORY_UPDATE'', K_items),
     (''SERVER_TO_WAREHOUSE__INVENTORY_UPDATE'', K_items),
     (''SERVER_TO_WAREHOUSE__ORDER_TO_DISPATCH_STOCK_TO_HUB'', K_items),
     (''SERVER_TO_WAREHOUSE__RESTOCK_NOTICE'', K_items),
     (''SERVER_TO_HUB__INCOMING_STOCK_NOTICE'', K_items),
     (''SERVER_TO_HUB__ORDER_TO_DISPATCH_STOCK'', K_items),
     (''HUB_TO_SERVER__DISPATCH_CONFIRMATION'', K_items),
     (''SERVER_TO_ALL_CLIENTS__EMERGENCY_ALERT'', K_server_emergency),
     (''SERVER_TO_HUB__ACK'', K_ack),
     (''SERVER_TO_WAREHOUSE__ACK'', K_ack),
     (''SERVER_TO_GATEWAY__ACK'', K_ack),
     (''SERVER_TO_GATEWAY__ORDER_DISPATCHED'', K_generic_args)]"

text \<open>\<^verbatim>\<open>strstr\<close>: the needle occurs somewhere in the haystack.\<close>

fun strstr :: "string \<Rightarrow> string \<Rightarrow> bool" where
  "strstr [] k = (k = [])"
| "strstr (c # s) k = (prefix k (c # s) \<or> strstr s k)"

definition find_handler :: "string \<Rightarrow> payload_kind option" where
  "find_handler msg_type = map_option snd (find (\<lambda>h. strstr msg_type (fst h)) handlers)"

section \<open>Messages\<close>

record message_t =
  msg_type :: string
  source_role :: string
  source_id :: string
  target_role :: string
  target_id :: string
  timestamp :: string
  payload :: payload_t
  checksum :: string

definition message_to_tree :: "'j cjson \<Rightarrow> message_t \<Rightarrow> 'j" where
  "message_to_tree cj msg = cj_mk_object cj
     ([(''msg_type'', cj_mk_string cj (msg_type msg)), (''source_role'', cj_mk_string cj (source_role msg)),
       (''source_id'', cj_mk_string cj (source_id msg)), (''target_role'', cj_mk_string cj (target_role msg)),
       (''target_id'', cj_mk_string cj (target_id msg)), (''timestamp'', cj_mk_string cj (timestamp msg))]
      @ (case find_handler (msg_type msg) of
           Some k \<Rightarrow> [(''payload'', serialize_payload k cj (payload msg))] | None \<Rightarrow> [])
      @ [(''checksum'', cj_mk_string cj (checksum msg))])"

text \<open>The result: a negative code, or the text written to the buffer.\<close>

definition serialize_message_to_json :: "'j cjson \<Rightarrow> message_t \<Rightarrow> int + string" where
  "serialize_message_to_json cj msg =
     (case cj_print cj (message_to_tree cj msg) BUFFER_SIZE of None \<Rightarrow> Inl (- 3) | Some out \<Rightarrow> Inr out)"

definition field_of :: "'j cjson \<Rightarrow> 'j \<Rightarrow> string \<Rightarrow> nat \<Rightarrow> string" where
  "field_of cj root k n = (case get_string cj root k of Some s \<Rightarrow> strncpy_field n s | None \<Rightarrow> '''')"

definition message_from_tree :: "'j cjson \<Rightarrow> 'j \<Rightarrow> message_t" where
  "message_from_tree cj root =
     (let t = field_of cj root ''msg_type'' MESSAGE_TYPE_SIZE;
          p = (case cj_get cj root ''payload'' of
                 Some obj \<Rightarrow>
                   if cj_is_object cj obj then
                     (case find_handler t of Some k \<Rightarrow> deserialize_payload k cj obj zero_payload | None \<Rightarrow> zero_payload)
                   else zero_payload
               | None \<Rightarrow> zero_payload)
      in \<lparr>msg_type = t, source_role = field_of cj root ''source_role'' ROLE_SIZE,
          source_id = field_of cj root ''source_id'' ID_SIZE, target_role = field_of cj root ''target_role'' ROLE_SIZE,
          target_id = field_of cj root ''target_id'' ID_SIZE, timestamp = field_of cj root ''timestamp'' TIMESTAMP_SIZE,
          payload = p, checksum = field_of cj root ''checksum'' CHECKSUM_SIZE\<rparr>)"

definition deserialize_message_from_json :: "'j cjson \<Rightarrow> string \<Rightarrow> int + message_t" where
  "deserialize_message_from_json cj json =
     (case cj_parse cj json of None \<Rightarrow> Inl (- 2) | Some root \<Rightarrow> Inr (message_from_tree cj root))"

section \<open>Timestamps and checksums\<close>

text \<open>\<^verbatim>\<open>gettimeofday\<close> gives seconds and microseconds since 1970; \<^verbatim>\<open>gmtime\<close> splits the seconds by the Gregorian calendar.\<close>

record timeval =
  tm_sec :: int
  tm_usec :: int

definition is_leap :: "int \<Rightarrow> bool" where
  "is_leap y \<longleftrightarrow> y mod 4 = 0 \<and> y mod 100 \<noteq> 0 \<or> y mod 400 = 0"

definition days_in_year :: "int \<Rightarrow> int" where
  "days_in_year y = (if is_leap y then 366 else 365)"

function year_and_day :: "int \<Rightarrow> int \<Rightarrow> int \<times> int" where
  "year_and_day y d = (if d < days_in_year y then (y, d) else year_and_day (y + 1) (d - days_in_year y))"
  by pat_completeness auto
termination
  by (relation "measure (\<lambda>(y, d). nat d)") (auto simp: days_in_year_def split: if_splits)

declare year_and_day.simps [simp del]

definition month_lengths :: "int \<Rightarrow> int list" where
  "month_lengths y = [31, if is_leap y then 29 else 28, 31, 30, 31, 30, 31, 31, 30, 31, 30, 31]"

fun month_and_day :: "int \<Rightarrow> int list \<Rightarrow> int \<Rightarrow> int \<times> int" where
  "month_and_day m [] d = (m, d)"
| "month_and_day m (l # ls) d = (if d < l then (m, d) else month_and_day (m + 1) ls (d - l))"

definition zpad :: "nat \<Rightarrow> int \<Rightarrow> string" where
  "zpad w n = (let s = show_nat (nat n) in replicate (w - length s) CHR ''0'' @ s)"

definition generate_timestamp :: "timeval \<Rightarrow> nat \<Rightarrow> string" where
  "generate_timestamp tv sz =
     (let (y, yd) = year_and_day 1970 (tm_sec tv div 86400);
          (mo, d) = month_and_day 1 (month_lengths y) yd;
          s = tm_sec tv mod 86400;
          base = show_nat (nat y) @ ''-'' @ zpad 2 mo @ ''-'' @ zpad 2 (d + 1) @ ''T''
                 @ zpad 2 (s div 3600) @ '':'' @ zpad 2 (s mod 3600 div 60) @ '':'' @ zpad 2 (s mod 60)
      in take (sz - 1) (base @ ''.'' @ zpad 3 (tm_usec tv div 1000) @ ''Z''))"

definition hex_char :: "nat \<Rightarrow> char" where
  "hex_char d = (if d < 10 then char_of (48 + d) else char_of (55 + d))"

fun show_hex :: "nat \<Rightarrow> string" where
  "show_hex n = (if n < 16 then [hex_char n] else show_hex (n div 16) @ [hex_char (n mod 16)])"

declare show_hex.simps [simp del]

definition DJB2_HASH_SEED :: u64 where "DJB2_HASH_SEED = 5381"
definition CHECKSUM_BITMASK :: u64 where "CHECKSUM_BITMASK = 0xFFFFFF"

definition djb2 :: "u64 \<Rightarrow> string \<Rightarrow> u64" where
  "djb2 h s = foldl (\<lambda>h c. (push_bit 5 h + h) + of_char c) h s"

definition generate_checksum :: "message_t \<Rightarrow> string" where
  "generate_checksum msg =
     (let hash = djb2 (djb2 DJB2_HASH_SEED (msg_type msg)) (source_id msg)
      in take (CHECKSUM_SIZE - 1) (show_hex (unat (and hash CHECKSUM_BITMASK))))"

section \<open>Message constructors\<close>

definition create_message :: "timeval \<Rightarrow> string \<Rightarrow> string \<Rightarrow> string \<Rightarrow> string \<Rightarrow> string \<Rightarrow> string \<Rightarrow> message_t" where
  "create_message tv mt srole sid trole tid payload_image =
     (let out = \<lparr>msg_type = strncpy_field MESSAGE_TYPE_SIZE mt, source_role = strncpy_field ROLE_SIZE srole,
                 source_id = strncpy_field ID_SIZE sid, target_role = strncpy_field ROLE_SIZE trole,
                 target_id = strncpy_field ID_SIZE tid, timestamp = generate_timestamp tv TIMESTAMP_SIZE,
                 payload = payload_copy payload_image, checksum = ''''\<rparr>
      in out\<lparr>checksum := generate_checksum out\<rparr>)"

definition create_auth_request_message :: "timeval \<Rightarrow> string \<Rightarrow> string \<Rightarrow> string \<Rightarrow> string \<Rightarrow> int + message_t" where
  "create_auth_request_message tv srole sid u p =
     (let pl = \<lparr>username = strncpy_field CREDENTIALS_SIZE u, password = strncpy_field CREDENTIALS_SIZE p\<rparr>;
          mt = (if srole = ''HUB'' then ''HUB_TO_SERVER__AUTH_REQUEST'' else ''WAREHOUSE_TO_SERVER__AUTH_REQUEST'')
      in Inr (create_message tv mt srole sid ''SERVER'' ''SERVER'' (auth_request_image pl)))"

definition create_keepalive_message :: "timeval \<Rightarrow> string \<Rightarrow> string \<Rightarrow> string \<Rightarrow> int + message_t" where
  "create_keepalive_message tv srole sid message =
     (let pl = \<lparr>ka_message = strncpy_field DESCRIPTION_SIZE message\<rparr>;
          mt = (if srole = ''HUB'' then ''HUB_TO_SERVER__KEEPALIVE'' else ''WAREHOUSE_TO_SERVER__KEEPALIVE'')
      in Inr (create_message tv mt srole sid ''SERVER'' ''SERVER'' (keepalive_image pl)))"

definition items_payload :: "inventory_item_t list \<Rightarrow> int \<Rightarrow> string \<Rightarrow> payload_items_list" where
  "items_payload its item_count ots =
     (let count = (if item_count > int QUANTITY_ITEMS then QUANTITY_ITEMS else nat item_count)
      in \<lparr>items = take QUANTITY_ITEMS (take count its @ replicate QUANTITY_ITEMS zero_item), order_timestamp = ots\<rparr>)"

definition create_items_message ::
  "timeval \<Rightarrow> string \<Rightarrow> string \<Rightarrow> string \<Rightarrow> inventory_item_t list \<Rightarrow> int \<Rightarrow> string option \<Rightarrow> int + message_t" where
  "create_items_message tv mt sid tid its item_count ots =
     (if item_count < 0 then Inl (- 1)
      else let ts = (case ots of
                 Some s \<Rightarrow> if mt = ''HUB_TO_SERVER__STOCK_RECEIPT_CONFIRMATION''
                             \<or> mt = ''WAREHOUSE_TO_SERVER__STOCK_RECEIPT_CONFIRMATION''
                          then strncpy_field TIMESTAMP_SIZE s else ''''
               | None \<Rightarrow> '''');
               pl = items_payload its item_count ts;
               mk = (\<lambda>srole trole. Inr (create_message tv mt srole sid trole tid (items_list_image pl)))
           in if prefix ''HUB_TO_SERVER'' mt then mk ''HUB'' ''SERVER''
              else if prefix ''WAREHOUSE_TO_SERVER'' mt then mk ''WAREHOUSE'' ''SERVER''
              else if prefix ''SERVER_TO_HUB'' mt then mk ''SERVER'' ''HUB''
              else if prefix ''SERVER_TO_WAREHOUSE'' mt then mk ''SERVER'' ''WAREHOUSE''
              else Inl (- 1))"

definition create_auth_response_message :: "timeval \<Rightarrow> string \<Rightarrow> string \<Rightarrow> int \<Rightarrow> int + message_t" where
  "create_auth_response_message tv trole tid code =
     (let mk = (\<lambda>mt. Inr (create_message tv mt ''SERVER'' ''SERVER'' trole tid (auth_response_image \<lparr>ar_status_code = code\<rparr>)))
      in if trole = ''HUB'' then mk ''SERVER_TO_HUB__AUTH_RESPONSE''
         else if trole = ''WAREHOUSE'' then mk ''SERVER_TO_WAREHOUSE__AUTH_RESPONSE''
         else if trole = ''CLI'' then mk ''SERVER_TO_CLI__AUTH_RESPONSE''
         else if trole = ''GATEWAY'' then mk ''SERVER_TO_GATEWAY__AUTH_RESPONSE''
         else Inl (- 1))"

definition ack_message_type :: "string \<Rightarrow> string \<Rightarrow> string option" where
  "ack_message_type srole trole =
     (if srole = ''HUB'' \<and> trole = ''SERVER'' then Some ''HUB_TO_SERVER__ACK''
      else if srole = ''WAREHOUSE'' \<and> trole = ''SERVER'' then Some ''WAREHOUSE_TO_SERVER__ACK''
      else if srole = ''GATEWAY'' \<and> trole = ''SERVER'' then Some ''GATEWAY_TO_SERVER__ACK''
      else if srole = ''SERVER'' \<and> trole = ''HUB'' then Some ''SERVER_TO_HUB__ACK''
      else if srole = ''SERVER'' \<and> trole = ''WAREHOUSE'' then Some ''SERVER_TO_WAREHOUSE__ACK''
      else if srole = ''SERVER'' \<and> trole = ''GATEWAY'' then Some ''SERVER_TO_GATEWAY__ACK''
      else None)"

definition create_acknowledgment_message ::
  "timeval \<Rightarrow> string \<Rightarrow> string \<Rightarrow> string \<Rightarrow> string \<Rightarrow> string \<Rightarrow> int \<Rightarrow> int + message_t" where
  "create_acknowledgment_message tv srole sid trole tid ts code =
     (let pl = \<lparr>ack_status_code = code, ack_for_timestamp = strncpy_field TIMESTAMP_SIZE ts\<rparr>
      in case ack_message_type srole trole of
           None \<Rightarrow> Inl (- 1)
         | Some mt \<Rightarrow> Inr (create_message tv mt srole sid trole tid (acknowledgment_image pl)))"

definition create_client_emergency_message ::
  "timeval \<Rightarrow> string \<Rightarrow> string \<Rightarrow> int \<Rightarrow> string \<Rightarrow> int + message_t" where
  "create_client_emergency_message tv srole sid code etype =
     (let pl = \<lparr>ce_emergency_code = code, ce_emergency_type = strncpy_field EMERGENCY_TYPE_SIZE etype\<rparr>;
          mt = (if srole = ''HUB'' then ''HUB_TO_SERVER__EMERGENCY_ALERT'' else ''WAREHOUSE_TO_SERVER__EMERGENCY_ALERT'')
      in Inr (create_message tv mt srole sid ''SERVER'' ''SERVER'' (client_emergency_image pl)))"

definition create_server_emergency_message :: "timeval \<Rightarrow> int \<Rightarrow> string \<Rightarrow> int + message_t" where
  "create_server_emergency_message tv code instr =
     (let pl = \<lparr>se_emergency_code = code, se_instructions = strncpy_field EMERGENCY_INSTRUCTIONS_SIZE instr\<rparr>
      in Inr (create_message tv ''SERVER_TO_ALL_CLIENTS__EMERGENCY_ALERT'' ''SERVER'' ''SERVER'' ''CLI'' ''ALL''
                (server_emergency_image pl)))"

section \<open>Payload round trips\<close>

definition packed :: "inventory_item_t list \<Rightarrow> bool" where
  "packed its \<longleftrightarrow> its = filter (\<lambda>it. item_id it \<noteq> 0) its
      @ replicate (length its - length (filter (\<lambda>it. item_id it \<noteq> 0) its)) zero_item"

text \<open>The union holds a structure of the kind, and an item list has its used slots first.\<close>

definition payload_wf :: "payload_kind \<Rightarrow> payload_t \<Rightarrow> bool" where
  "payload_wf k m = (case k of
      K_auth_request \<Rightarrow> (\<exists>p. fits CREDENTIALS_SIZE (username p) \<and> fits CREDENTIALS_SIZE (password p)
                              \<and> m = payload_copy (auth_request_image p))
    | K_keepalive \<Rightarrow> (\<exists>p. fits DESCRIPTION_SIZE (ka_message p) \<and> m = payload_copy (keepalive_image p))
    | K_items \<Rightarrow> (\<exists>p. items_list_ok p \<and> packed (items p) \<and> m = payload_copy (items_list_image p))
    | K_client_emergency \<Rightarrow> (\<exists>p. int32_ok (ce_emergency_code p) \<and> fits EMERGENCY_TYPE_SIZE (ce_emergency_type p)
                              \<and> m = payload_copy (client_emergency_image p))
    | K_ack \<Rightarrow> (\<exists>p. int32_ok (ack_status_code p) \<and> fits TIMESTAMP_SIZE (ack_for_timestamp p)
                              \<and> m = payload_copy (acknowledgment_image p))
    | K_auth_response \<Rightarrow> (\<exists>p. int32_ok (ar_status_code p) \<and> m = payload_copy (auth_response_image p))
    | K_server_emergency \<Rightarrow> (\<exists>p. int32_ok (se_emergency_code p) \<and> fits EMERGENCY_INSTRUCTIONS_SIZE (se_instructions p)
                              \<and> m = payload_copy (server_emergency_image p))
    | K_generic_args \<Rightarrow> (\<exists>p. fits DESCRIPTION_SIZE (ga_args p) \<and> m = payload_copy (generic_args_image p)))"

lemma zero_payload_split: "a + b + c = PAYLOAD_SIZE \<Longrightarrow>
   zero_payload = replicate a NUL @ replicate b NUL @ replicate c NUL"
  by (simp add: zero_payload_def flip: replicate_add)

lemma get_object_simps:
  assumes "cjson_ok cj"
  shows "get_string cj (cj_mk_object cj kvs) k = Option.bind (map_of kvs k) (cj_string cj)"
    and "get_number cj (cj_mk_object cj kvs) k = Option.bind (map_of kvs k) (cj_number cj)"
  by (simp_all add: get_string_def get_number_def cjson_okD [OF assms])

lemma field_bytes_fits: "fits n s \<Longrightarrow> field_bytes n s = s @ replicate (n - length s) NUL"
  by (simp add: field_bytes_def strncpy_field_id)

lemma store_int_field:
  assumes n: "0 < n" and c: "4 + n + c = PAYLOAD_SIZE"
  shows "safe_strcpy 4 n s (store 0 (int_bytes i) zero_payload) = payload_copy (int_bytes i @ field_bytes n s)"
proof -
  have "store 0 (int_bytes i) zero_payload = int_bytes i @ replicate n NUL @ replicate c NUL"
    by (simp add: zero_payload_split [OF c] store_0)
  then show ?thesis
    using n c by (simp add: safe_strcpy_def store_append payload_copy_eq)
qed

lemma store_two_fields:
  assumes n: "0 < n" and c: "n + n + c = PAYLOAD_SIZE"
  shows "safe_strcpy n n t (safe_strcpy 0 n s zero_payload) = payload_copy (field_bytes n s @ field_bytes n t)"
proof -
  have "safe_strcpy 0 n s zero_payload = field_bytes n s @ replicate n NUL @ replicate c NUL"
    using n by (simp add: zero_payload_split [OF c] safe_strcpy_def store_0)
  then show ?thesis
    using n c by (simp add: safe_strcpy_def store_append payload_copy_eq)
qed

lemma store_one_field:
  "0 < n \<Longrightarrow> safe_strcpy 0 n s zero_payload = payload_copy (field_bytes n s)" if "n \<le> PAYLOAD_SIZE"
  using that by (simp add: safe_strcpy_def payload_copy_def)

lemma payload_copy_zero: "0 < n \<Longrightarrow> n \<le> PAYLOAD_SIZE \<Longrightarrow> payload_copy (replicate n NUL) = zero_payload"
  by (simp add: payload_copy_eq zero_payload_def flip: replicate_add)

lemma deserialize_item_at:
  assumes cj: "cjson_ok cj" and a: "length a = ITEM_SIZE * i" and it: "item_ok it"
  shows "deserialize_item cj i (serialize_item cj it) (a @ replicate 40 NUL @ t) = a @ item_image it @ t"
proof -
  let ?n = "field_bytes ITEM_NAME_SIZE (item_name it)"
  have r: "replicate 40 NUL = replicate 4 NUL @ replicate 32 NUL @ replicate 4 NUL"
    by (simp flip: replicate_add)
  have 1: "store (ITEM_SIZE * i) (int_bytes (item_id it)) (a @ replicate 40 NUL @ t)
      = (a @ int_bytes (item_id it)) @ replicate 32 NUL @ (replicate 4 NUL @ t)"
    using store_append [of a "ITEM_SIZE * i" "replicate 4 NUL" "int_bytes (item_id it)"] a by (simp add: r)
  have 2: "store (ITEM_SIZE * i + 4) ?n ((a @ int_bytes (item_id it)) @ replicate 32 NUL @ (replicate 4 NUL @ t))
      = (a @ int_bytes (item_id it) @ ?n) @ replicate 4 NUL @ t"
    using a by (subst store_append) (simp_all add: ITEM_NAME_SIZE_def)
  have 3: "store (ITEM_SIZE * i + 36) (int_bytes (quantity it)) ((a @ int_bytes (item_id it) @ ?n) @ replicate 4 NUL @ t)
      = a @ item_image it @ t"
    using a by (subst store_append) (simp_all add: ITEM_NAME_SIZE_def item_image_def)
  show ?thesis
    using it 1 2 3
    by (simp add: deserialize_item_def serialize_item_def get_object_simps [OF cj] cjson_okD [OF cj] item_ok_def
        store_int_opt_def store_str_opt_def safe_strcpy_def) (simp add: ITEM_NAME_SIZE_def)
qed

lemma deserialize_items_at:
  assumes cj: "cjson_ok cj"
  shows "length a = ITEM_SIZE * i \<Longrightarrow> i + length xs \<le> QUANTITY_ITEMS \<Longrightarrow> \<forall>it\<in>set xs. item_ok it \<Longrightarrow>
    deserialize_items cj i (map (serialize_item cj) xs) (a @ replicate (40 * length xs) NUL @ t)
      = a @ concat (map item_image xs) @ t"
proof (induction xs arbitrary: a i)
  case (Cons x xs)
  have r: "a @ replicate (40 * length (x # xs)) NUL @ t = a @ replicate 40 NUL @ (replicate (40 * length xs) NUL @ t)"
    by (simp add: replicate_add)
  have s: "deserialize_item cj i (serialize_item cj x) (a @ replicate 40 NUL @ (replicate (40 * length xs) NUL @ t))
      = (a @ item_image x) @ replicate (40 * length xs) NUL @ t"
    using Cons.prems by (subst deserialize_item_at [OF cj]) simp_all
  have "deserialize_items cj (i + 1) (map (serialize_item cj) xs) ((a @ item_image x) @ replicate (40 * length xs) NUL @ t)
      = (a @ item_image x) @ concat (map item_image xs) @ t"
    by (rule Cons.IH) (use Cons.prems in \<open>simp_all add: ITEM_SIZE_def\<close>)
  then show ?case using Cons.prems(2) by (simp only: r s list.map deserialize_items.simps) simp
qed simp

lemma item_image_zero: "item_image zero_item = replicate 40 NUL"
  by (simp add: item_image_def zero_item_def int_bytes_0 field_bytes_Nil ITEM_NAME_SIZE_def flip: replicate_add)

lemma concat_zero_items: "concat (map item_image (replicate n zero_item)) = replicate (40 * n) NUL"
  by (induction n) (simp_all add: item_image_zero replicate_add)

lemma packed_image:
  assumes "packed its" "length its = 6"
  shows "concat (map item_image its) = concat (map item_image (filter (\<lambda>it. item_id it \<noteq> 0) its))
     @ replicate (40 * (6 - length (filter (\<lambda>it. item_id it \<noteq> 0) its))) NUL"
proof -
  let ?xs = "filter (\<lambda>it. item_id it \<noteq> 0) its"
  have e: "its = ?xs @ replicate (6 - length ?xs) zero_item" using assms unfolding packed_def by simp
  have "concat (map item_image its) = concat (map item_image (?xs @ replicate (6 - length ?xs) zero_item))"
    using arg_cong [OF e, of "\<lambda>z. concat (map item_image z)"] .
  then show ?thesis unfolding map_append concat_append concat_zero_items .
qed

lemma store_order_timestamp:
  assumes "length a = 240" "fits TIMESTAMP_SIZE s"
  shows "(if s \<noteq> '''' then safe_strcpy 240 TIMESTAMP_SIZE s (a @ replicate 32 NUL)
          else store 240 [NUL] (a @ replicate 32 NUL)) = a @ field_bytes TIMESTAMP_SIZE s"
proof (cases "s = ''''")
  case True
  have "a @ replicate 32 NUL = a @ [NUL] @ replicate 31 NUL" by (simp add: numeral_eq_Suc)
  then have "store 240 [NUL] (a @ replicate 32 NUL) = a @ [NUL] @ replicate 31 NUL"
    using store_append [of a 240 "[NUL]" "[NUL]" "replicate 31 NUL"] assms by simp
  then show ?thesis using True by (simp add: field_bytes_Nil TIMESTAMP_SIZE_def numeral_eq_Suc)
next
  case False
  then show ?thesis
    using store_append [of a 240 "replicate 32 NUL" "field_bytes TIMESTAMP_SIZE s" "[]"] assms
    by (simp add: safe_strcpy_def TIMESTAMP_SIZE_def)
qed

lemma items_list_round_trip:
  assumes cj: "cjson_ok cj" and ok: "items_list_ok p" and pk: "packed (items p)"
  shows "deserialize_items_list cj (serialize_items_list cj (payload_copy (items_list_image p))) zero_payload
    = payload_copy (items_list_image p)"
proof -
  let ?xs = "filter (\<lambda>it. item_id it \<noteq> 0) (items p)"
  let ?n = "length ?xs"
  let ?t = "replicate (40 * (6 - ?n)) NUL @ replicate 32 NUL"
  have len: "length (items p) = 6" using ok by (simp add: items_list_ok_def QUANTITY_ITEMS_def)
  then have n: "?n \<le> 6" using length_filter_le [of "\<lambda>it. item_id it \<noteq> 0" "items p"] by simp
  have z: "zero_payload = [] @ replicate (40 * ?n) NUL @ ?t"
    using n by (simp add: zero_payload_def PAYLOAD_SIZE_def flip: replicate_add)
  have "deserialize_items cj 0 (map (serialize_item cj) ?xs) zero_payload = concat (map item_image ?xs) @ ?t"
    unfolding z by (subst deserialize_items_at [OF cj])
      (use ok n in \<open>auto simp: items_list_ok_def QUANTITY_ITEMS_def\<close>)
  then have d: "deserialize_items cj 0 (map (serialize_item cj) ?xs) zero_payload
      = concat (map item_image (items p)) @ replicate 32 NUL"
    by (simp add: packed_image [OF pk len])
  have c: "payload_copy (items_list_image p) = items_list_image p"
    by (simp add: payload_copy_eq length_items_list_image [OF ok] PAYLOAD_SIZE_def)
  have l: "load_items_list (items_list_image p) = p" using um_items.load_copy [OF ok] by (simp add: c)
  have "length (concat (map item_image (items p))) = 240" using len by simp
  from store_order_timestamp [OF this, of "order_timestamp p"] ok
  have "(if order_timestamp p \<noteq> '''' then safe_strcpy 240 TIMESTAMP_SIZE (order_timestamp p)
           (concat (map item_image (items p)) @ replicate 32 NUL)
         else store 240 [NUL] (concat (map item_image (items p)) @ replicate 32 NUL)) = items_list_image p"
    by (simp add: items_list_ok_def items_list_image_def)
  then show ?thesis
    by (simp add: c deserialize_items_list_def serialize_items_list_def Let_def l get_object_simps [OF cj]
        cjson_okD [OF cj] d split: if_splits)
qed

text \<open>What the field-by-field stores of each deserializer leave in the zeroed union.\<close>

lemma store_images:
  "safe_strcpy 64 CREDENTIALS_SIZE (password q) (safe_strcpy 0 CREDENTIALS_SIZE (username q) zero_payload)
     = payload_copy (auth_request_image q)"
  "safe_strcpy 0 DESCRIPTION_SIZE (ga_args g) zero_payload = payload_copy (generic_args_image g)"
  "safe_strcpy 4 TIMESTAMP_SIZE (ack_for_timestamp a) (store 0 (int_bytes (ack_status_code a)) zero_payload)
     = payload_copy (acknowledgment_image a)"
  "safe_strcpy 4 EMERGENCY_TYPE_SIZE (ce_emergency_type e) (store 0 (int_bytes (ce_emergency_code e)) zero_payload)
     = payload_copy (client_emergency_image e)"
  "safe_strcpy 4 EMERGENCY_INSTRUCTIONS_SIZE (se_instructions f) (store 0 (int_bytes (se_emergency_code f)) zero_payload)
     = payload_copy (server_emergency_image f)"
  "store 0 (int_bytes (ar_status_code r)) zero_payload = payload_copy (auth_response_image r)"
  using store_two_fields [of CREDENTIALS_SIZE 144] store_one_field [of DESCRIPTION_SIZE]
    store_int_field [of TIMESTAMP_SIZE 236] store_int_field [of EMERGENCY_TYPE_SIZE 248]
    store_int_field [of EMERGENCY_INSTRUCTIONS_SIZE 168]
  by (simp_all add: auth_request_image_def generic_args_image_def acknowledgment_image_def client_emergency_image_def
      server_emergency_image_def auth_response_image_def size_defs PAYLOAD_SIZE_def payload_copy_def)

lemma store_keepalive_image:
  assumes "fits DESCRIPTION_SIZE (ka_message k)"
  shows "(if ka_message k \<noteq> '''' then safe_strcpy 0 DESCRIPTION_SIZE (ka_message k) zero_payload
     else zero_payload) = payload_copy (keepalive_image k)"
  using assms store_one_field [of DESCRIPTION_SIZE] payload_copy_zero [of DESCRIPTION_SIZE]
  by (auto simp: keepalive_image_def DESCRIPTION_SIZE_def PAYLOAD_SIZE_def field_bytes_Nil)

lemmas serialize_defs = serialize_auth_request_def serialize_keepalive_def serialize_client_emergency_def
  serialize_acknowledgment_def serialize_auth_response_def serialize_server_emergency_def serialize_generic_args_def

lemmas deserialize_defs = deserialize_auth_request_def deserialize_keepalive_def deserialize_client_emergency_def
  deserialize_acknowledgment_def deserialize_auth_response_def deserialize_server_emergency_def
  deserialize_generic_args_def store_int_opt_def store_str_opt_def

lemmas load_copies = um_auth_request.load_copy um_keepalive.load_copy um_client_emergency.load_copy
  um_ack.load_copy um_auth_response.load_copy um_server_emergency.load_copy um_generic_args.load_copy

lemma keepalive_round_trip:
  assumes cj: "cjson_ok cj" and ok: "fits DESCRIPTION_SIZE (ka_message p)"
  shows "deserialize_keepalive cj (serialize_keepalive cj (payload_copy (keepalive_image p))) zero_payload
    = payload_copy (keepalive_image p)"
proof -
  have "c_str (ka_message p) = ka_message p" using ok by (simp add: fits_def c_str_id)
  then show ?thesis
    using store_keepalive_image [OF ok]
    by (simp add: serialize_keepalive_def deserialize_keepalive_def get_object_simps [OF cj] cjson_okD [OF cj]
        load_copies ok split: if_splits)
qed

lemma payload_round_trip:
  assumes cj: "cjson_ok cj" and wf: "payload_wf k m"
  shows "deserialize_payload k cj (serialize_payload k cj m) zero_payload = m"
proof (cases "k = K_items \<or> k = K_keepalive")
  case True
  then show ?thesis
    using wf items_list_round_trip [OF cj] keepalive_round_trip [OF cj] by (auto simp: payload_wf_def)
next
  case False
  then show ?thesis
    using wf unfolding payload_wf_def
    by (cases k) (auto simp: serialize_defs deserialize_defs get_object_simps [OF cj] cjson_okD [OF cj]
        load_copies store_images)
qed

section \<open>Well-formed messages\<close>

definition message_ok :: "message_t \<Rightarrow> bool" where
  "message_ok msg \<longleftrightarrow> fits MESSAGE_TYPE_SIZE (msg_type msg) \<and> fits ROLE_SIZE (source_role msg)
     \<and> fits ID_SIZE (source_id msg) \<and> fits ROLE_SIZE (target_role msg) \<and> fits ID_SIZE (target_id msg)
     \<and> fits TIMESTAMP_SIZE (timestamp msg) \<and> fits CHECKSUM_SIZE (checksum msg)
     \<and> (case find_handler (msg_type msg) of
          Some k \<Rightarrow> payload_wf k (payload msg) | None \<Rightarrow> payload msg = zero_payload)"

lemma handlers_found: "(t, k) \<in> set handlers \<Longrightarrow> find_handler t = Some k \<and> fits MESSAGE_TYPE_SIZE t"
proof -
  have "list_all (\<lambda>h. find_handler (fst h) = Some (snd h) \<and> length (fst h) < 64 \<and> list_all (\<lambda>c. c \<noteq> NUL) (fst h)) handlers"
    by code_simp
  then show "(t, k) \<in> set handlers \<Longrightarrow> find_handler t = Some k \<and> fits MESSAGE_TYPE_SIZE t"
    by (fastforce simp: list_all_iff fits_def MESSAGE_TYPE_SIZE_def)
qed

lemma show_nat_no_NUL: "NUL \<notin> set (show_nat n)"
  by (rule show_nat_not_mem) simp

lemma zpad_no_NUL: "NUL \<notin> set (zpad w n)"
  using show_nat_no_NUL by (auto simp: zpad_def Let_def)

lemma timestamp_fits: "fits TIMESTAMP_SIZE (generate_timestamp tv TIMESTAMP_SIZE)"
proof -
  have "NUL \<notin> set (generate_timestamp tv n)" for n
    using show_nat_no_NUL zpad_no_NUL
    by (auto simp: generate_timestamp_def Let_def case_prod_beta dest!: in_set_takeD)
  moreover have "length (generate_timestamp tv TIMESTAMP_SIZE) < TIMESTAMP_SIZE"
    unfolding generate_timestamp_def Let_def case_prod_beta length_take TIMESTAMP_SIZE_def
    by (rule le_less_trans [OF min.cobounded2]) simp
  ultimately show ?thesis by (simp add: fits_def)
qed

lemma hex_char_no_NUL: "d < 16 \<Longrightarrow> hex_char d \<noteq> NUL"
proof
  assume "d < 16" "hex_char d = NUL"
  then have "(of_char (hex_char d) :: nat) = 0" by simp
  with \<open>d < 16\<close> show False by (simp add: hex_char_def split: if_splits)
qed

lemma show_hex_no_NUL: "NUL \<notin> set (show_hex n)"
proof (induction n rule: show_hex.induct)
  case (1 n)
  then show ?case by (subst show_hex.simps) (auto dest: hex_char_no_NUL simp: hex_char_no_NUL [symmetric])
qed

lemma length_show_hex: "n < 16 ^ Suc k \<Longrightarrow> length (show_hex n) \<le> Suc k"
proof (induction k arbitrary: n)
  case 0
  then show ?case by (simp add: show_hex.simps)
next
  case (Suc k)
  then have "n div 16 < 16 ^ Suc k" by (simp add: less_mult_imp_div_less mult.commute)
  then show ?case using Suc.IH [of "n div 16"] by (subst show_hex.simps) simp
qed

lemma checksum_hex_length: "length (show_hex (unat (and h CHECKSUM_BITMASK))) \<le> 6"
proof -
  have "and h CHECKSUM_BITMASK \<le> CHECKSUM_BITMASK" by (rule word_and_le1)
  then have "unat (and h CHECKSUM_BITMASK) \<le> 16777215"
    by (simp add: word_le_nat_alt CHECKSUM_BITMASK_def)
  then show ?thesis using length_show_hex [of "unat (and h CHECKSUM_BITMASK)" 5] by simp
qed

lemma checksum_fits: "fits CHECKSUM_SIZE (generate_checksum msg)"
  using show_hex_no_NUL by (auto simp: fits_def generate_checksum_def Let_def CHECKSUM_SIZE_def dest: in_set_takeD)

lemma create_message_ok:
  assumes "(mt, k) \<in> set handlers" "payload_wf k (payload_copy img)"
  shows "message_ok (create_message tv mt srole sid trole tid img)"
  using assms handlers_found [OF assms(1)]
  by (auto simp: message_ok_def create_message_def Let_def strncpy_field_fits strncpy_field_id timestamp_fits
      checksum_fits) (auto simp: size_defs strncpy_field_fits)

text \<open>The calls of the public constructors.\<close>

datatype construct =
    Mk_auth_request string string string string
  | Mk_keepalive string string string
  | Mk_items string string string "inventory_item_t list" int "string option"
  | Mk_auth_response string string int
  | Mk_ack string string string string string int
  | Mk_client_emergency string string int string
  | Mk_server_emergency int string

fun construct_message :: "timeval \<Rightarrow> construct \<Rightarrow> int + message_t" where
  "construct_message tv (Mk_auth_request srole sid u p) = create_auth_request_message tv srole sid u p"
| "construct_message tv (Mk_keepalive srole sid m) = create_keepalive_message tv srole sid m"
| "construct_message tv (Mk_items mt sid tid its n ots) = create_items_message tv mt sid tid its n ots"
| "construct_message tv (Mk_auth_response trole tid c) = create_auth_response_message tv trole tid c"
| "construct_message tv (Mk_ack srole sid trole tid ts c) = create_acknowledgment_message tv srole sid trole tid ts c"
| "construct_message tv (Mk_client_emergency srole sid c t) = create_client_emergency_message tv srole sid c t"
| "construct_message tv (Mk_server_emergency c i) = create_server_emergency_message tv c i"

text \<open>What the C types guarantee of the arguments, and for item lists that the type carries items and no used item has identifier zero.\<close>

fun construct_ok :: "construct \<Rightarrow> bool" where
  "construct_ok (Mk_items mt sid tid its n ots) \<longleftrightarrow> (mt, K_items) \<in> set handlers
     \<and> (\<forall>it\<in>set its. item_ok it \<and> item_id it \<noteq> 0)"
| "construct_ok (Mk_auth_response trole tid c) \<longleftrightarrow> int32_ok c"
| "construct_ok (Mk_ack srole sid trole tid ts c) \<longleftrightarrow> int32_ok c"
| "construct_ok (Mk_client_emergency srole sid c t) \<longleftrightarrow> int32_ok c"
| "construct_ok (Mk_server_emergency c i) \<longleftrightarrow> int32_ok c"
| "construct_ok _ \<longleftrightarrow> True"

lemma payload_wf_simps:
  "fits CREDENTIALS_SIZE (username q) \<Longrightarrow> fits CREDENTIALS_SIZE (password q) \<Longrightarrow>
     payload_wf K_auth_request (payload_copy (auth_request_image q))"
  "fits DESCRIPTION_SIZE (ka_message m) \<Longrightarrow> payload_wf K_keepalive (payload_copy (keepalive_image m))"
  "items_list_ok p \<Longrightarrow> packed (items p) \<Longrightarrow> payload_wf K_items (payload_copy (items_list_image p))"
  "int32_ok (ce_emergency_code e) \<Longrightarrow> fits EMERGENCY_TYPE_SIZE (ce_emergency_type e) \<Longrightarrow>
     payload_wf K_client_emergency (payload_copy (client_emergency_image e))"
  "int32_ok (ack_status_code a) \<Longrightarrow> fits TIMESTAMP_SIZE (ack_for_timestamp a) \<Longrightarrow>
     payload_wf K_ack (payload_copy (acknowledgment_image a))"
  "int32_ok (ar_status_code r) \<Longrightarrow> payload_wf K_auth_response (payload_copy (auth_response_image r))"
  "int32_ok (se_emergency_code f) \<Longrightarrow> fits EMERGENCY_INSTRUCTIONS_SIZE (se_instructions f) \<Longrightarrow>
     payload_wf K_server_emergency (payload_copy (server_emergency_image f))"
  by (auto simp: payload_wf_def)

lemma packed_padded:
  assumes "\<forall>it\<in>set xs. item_id it \<noteq> 0" "length xs \<le> n"
  shows "packed (take n (xs @ replicate n zero_item))"
proof -
  have t: "take n (xs @ replicate n zero_item) = xs @ replicate (n - length xs) zero_item"
    using assms(2) by simp
  have f: "filter (\<lambda>it. item_id it \<noteq> 0) (xs @ replicate (n - length xs) zero_item) = xs"
    using assms(1) by (simp add: zero_item_def filter_id_conv)
  show ?thesis unfolding packed_def t f using assms(2) by simp
qed

lemma items_payload_ok:
  assumes "\<forall>it\<in>set its. item_ok it \<and> item_id it \<noteq> 0" "fits TIMESTAMP_SIZE ts"
  shows "items_list_ok (items_payload its n ts) \<and> packed (items (items_payload its n ts))"
proof -
  define c where "c = (if n > int QUANTITY_ITEMS then QUANTITY_ITEMS else nat n)"
  have c: "length (take c its) \<le> QUANTITY_ITEMS" by (auto simp: c_def)
  have z: "item_ok zero_item" by (simp add: item_ok_def zero_item_def int32_ok_def fits_def ITEM_NAME_SIZE_def)
  have i: "items (items_payload its n ts) = take QUANTITY_ITEMS (take c its @ replicate QUANTITY_ITEMS zero_item)"
    "order_timestamp (items_payload its n ts) = ts"
    by (simp_all add: items_payload_def c_def Let_def)
  have "packed (items (items_payload its n ts))"
    unfolding i by (rule packed_padded) (use assms c in \<open>auto dest: in_set_takeD\<close>)
  moreover have "\<forall>it\<in>set (take QUANTITY_ITEMS (take c its @ replicate QUANTITY_ITEMS zero_item)). item_ok it"
    using assms(1) z by (auto dest!: in_set_takeD)
  ultimately show ?thesis using assms(2) c by (simp add: items_list_ok_def i)
qed

lemma fits_simps: "fits CREDENTIALS_SIZE (strncpy_field CREDENTIALS_SIZE s)"
  "fits DESCRIPTION_SIZE (strncpy_field DESCRIPTION_SIZE s)" "fits TIMESTAMP_SIZE (strncpy_field TIMESTAMP_SIZE s)"
  "fits EMERGENCY_TYPE_SIZE (strncpy_field EMERGENCY_TYPE_SIZE s)"
  "fits EMERGENCY_INSTRUCTIONS_SIZE (strncpy_field EMERGENCY_INSTRUCTIONS_SIZE s)" "fits TIMESTAMP_SIZE ''''"
  by (simp_all add: strncpy_field_fits size_defs) (simp add: fits_def)

lemma handler_entries:
  "(''HUB_TO_SERVER__AUTH_REQUEST'', K_auth_request) \<in> set handlers"
  "(''WAREHOUSE_TO_SERVER__AUTH_REQUEST'', K_auth_request) \<in> set handlers"
  "(''HUB_TO_SERVER__KEEPALIVE'', K_keepalive) \<in> set handlers"
  "(''WAREHOUSE_TO_SERVER__KEEPALIVE'', K_keepalive) \<in> set handlers"
  "(''SERVER_TO_HUB__AUTH_RESPONSE'', K_auth_response) \<in> set handlers"
  "(''SERVER_TO_WAREHOUSE__AUTH_RESPONSE'', K_auth_response) \<in> set handlers"
  "(''SERVER_TO_CLI__AUTH_RESPONSE'', K_auth_response) \<in> set handlers"
  "(''SERVER_TO_GATEWAY__AUTH_RESPONSE'', K_auth_response) \<in> set handlers"
  "(''HUB_TO_SERVER__EMERGENCY_ALERT'', K_client_emergency) \<in> set handlers"
  "(''WAREHOUSE_TO_SERVER__EMERGENCY_ALERT'', K_client_emergency) \<in> set handlers"
  "(''SERVER_TO_ALL_CLIENTS__EMERGENCY_ALERT'', K_server_emergency) \<in> set handlers"
  by (simp_all add: handlers_def)

lemma ack_entry: "ack_message_type srole trole = Some mt \<Longrightarrow> (mt, K_ack) \<in> set handlers"
  by (auto simp: ack_message_type_def handlers_def split: if_splits)

lemma construct_message_ok:
  assumes c: "construct_message tv c = Inr msg" and ok: "construct_ok c"
  shows "message_ok msg"
proof (cases c)
  case (Mk_items mt sid tid its n ots)
  have "fits TIMESTAMP_SIZE (case ots of Some s \<Rightarrow> if mt = ''HUB_TO_SERVER__STOCK_RECEIPT_CONFIRMATION''
      \<or> mt = ''WAREHOUSE_TO_SERVER__STOCK_RECEIPT_CONFIRMATION'' then strncpy_field TIMESTAMP_SIZE s else '''' | None \<Rightarrow> '''')"
    by (simp add: fits_simps split: option.split)
  then have "payload_wf K_items (payload_copy (items_list_image (items_payload its n (case ots of Some s \<Rightarrow>
      if mt = ''HUB_TO_SERVER__STOCK_RECEIPT_CONFIRMATION'' \<or> mt = ''WAREHOUSE_TO_SERVER__STOCK_RECEIPT_CONFIRMATION''
      then strncpy_field TIMESTAMP_SIZE s else '''' | None \<Rightarrow> ''''))))"
    using items_payload_ok ok Mk_items by (intro payload_wf_simps) auto
  then show ?thesis
    using c ok Mk_items by (auto simp: create_items_message_def Let_def intro!: create_message_ok split: if_splits)
next
  case (Mk_ack srole sid trole tid ts code)
  then show ?thesis
    using c ok by (auto simp: create_acknowledgment_message_def Let_def fits_simps payload_wf_simps
        dest: ack_entry intro!: create_message_ok split: option.splits)
qed (use c ok in \<open>auto simp: create_auth_request_message_def create_keepalive_message_def create_auth_response_message_def
      create_client_emergency_message_def create_server_emergency_message_def Let_def handler_entries fits_simps
      intro!: create_message_ok payload_wf_simps split: if_splits\<close>)

lemma message_tree_round_trip:
  assumes cj: "cjson_ok cj" and ok: "message_ok msg"
  shows "message_from_tree cj (message_to_tree cj msg) = msg"
proof (cases "find_handler (msg_type msg)")
  case None
  then show ?thesis
    using ok by (simp add: message_from_tree_def message_to_tree_def Let_def field_of_def get_object_simps [OF cj]
        cjson_okD [OF cj] message_ok_def strncpy_field_id)
next
  case (Some k)
  then show ?thesis
    using ok payload_round_trip [OF cj, of k "payload msg"]
    by (simp add: message_from_tree_def message_to_tree_def Let_def field_of_def get_object_simps [OF cj]
        cjson_okD [OF cj] message_ok_def strncpy_field_id)
       (cases k; simp add: serialize_defs serialize_items_list_def Let_def cjson_okD [OF cj])
qed

section \<open>Properties\<close>

text \<open>
  C10: Messages survive the wire. Whatever a public constructor builds (for item lists: a type that
  carries items, no used item with identifier zero), if the text fits the 1024-byte buffer, then
  parsing that text gives back exactly the same message, payload bytes included. cJSON is assumed only
  to answer queries on the nodes it built and to parse what it printed.
\<close>

theorem constructed_message_round_trip:
  assumes "cjson_ok cj" "construct_message tv c = Inr msg" "construct_ok c"
    and "serialize_message_to_json cj msg = Inr out"
  shows "deserialize_message_from_json cj out = Inr msg"
proof -
  have "cj_print cj (message_to_tree cj msg) BUFFER_SIZE = Some out"
    using assms(4) by (simp add: serialize_message_to_json_def split: option.splits)
  then have "cj_parse cj out = Some (message_to_tree cj msg)" by (rule cjson_okD [OF assms(1)])
  then show ?thesis
    using message_tree_round_trip [OF assms(1) construct_message_ok [OF assms(2,3)]]
    by (simp add: deserialize_message_from_json_def)
qed

text \<open>A concrete library for the witness: plain trees, and a printer that knows one document.\<close>

datatype demo_json = DS string | DN int | DA "demo_json list" | DO "(string \<times> demo_json) list"

definition demo_nodes :: "demo_json cjson" where
  "demo_nodes = \<lparr>cj_parse = (\<lambda>_. None), cj_print = (\<lambda>_ _. None),
     cj_get = (\<lambda>j k. case j of DO kvs \<Rightarrow> map_of kvs k | _ \<Rightarrow> None),
     cj_string = (\<lambda>j. case j of DS s \<Rightarrow> Some s | _ \<Rightarrow> None),
     cj_number = (\<lambda>j. case j of DN i \<Rightarrow> Some i | _ \<Rightarrow> None),
     cj_elems = (\<lambda>j. case j of DA xs \<Rightarrow> Some xs | _ \<Rightarrow> None),
     cj_is_object = (\<lambda>j. case j of DO _ \<Rightarrow> True | _ \<Rightarrow> False),
     cj_mk_string = DS, cj_mk_number = DN, cj_mk_array = DA, cj_mk_object = DO\<rparr>"

definition demo_cjson :: "demo_json \<Rightarrow> demo_json cjson" where
  "demo_cjson j0 = demo_nodes\<lparr>cj_parse := (\<lambda>t. if t = ''x'' then Some j0 else None),
     cj_print := (\<lambda>j n. if j = j0 \<and> 1 < n then Some ''x'' else None)\<rparr>"

definition demo_message :: message_t where
  "demo_message = create_message \<lparr>tm_sec = 0, tm_usec = 0\<rparr> ''HUB_TO_SERVER__ACK'' ''HUB'' ''hub1'' ''SERVER'' ''SERVER''
     (acknowledgment_image \<lparr>ack_status_code = 200, ack_for_timestamp = strncpy_field TIMESTAMP_SIZE ''now''\<rparr>)"

lemma demo_cjson_ok: "cjson_ok (demo_cjson j0)"
  by (auto simp: cjson_ok_def demo_cjson_def demo_nodes_def)

lemma serialize_demo:
  "serialize_message_to_json (demo_cjson (message_to_tree demo_nodes demo_message)) demo_message = Inr ''x''"
proof -
  have "find_handler (msg_type demo_message) = Some K_ack"
    using handlers_found [of "''HUB_TO_SERVER__ACK''" K_ack]
    by (simp add: demo_message_def create_message_def Let_def strncpy_field_id handlers_def)
  then show ?thesis
    by (simp add: serialize_message_to_json_def message_to_tree_def serialize_acknowledgment_def demo_cjson_def
        demo_nodes_def BUFFER_SIZE_def)
qed

lemma demo_construct:
  "construct_message \<lparr>tm_sec = 0, tm_usec = 0\<rparr> (Mk_ack ''HUB'' ''hub1'' ''SERVER'' ''SERVER'' ''now'' 200) = Inr demo_message"
  by (simp add: create_acknowledgment_message_def ack_message_type_def demo_message_def)

theorem constructed_message_round_trip_witness:
  "deserialize_message_from_json (demo_cjson (message_to_tree demo_nodes demo_message)) ''x'' = Inr demo_message"
  by (rule constructed_message_round_trip [OF demo_cjson_ok, of "\<lparr>tm_sec = 0, tm_usec = 0\<rparr>"
        "Mk_ack ''HUB'' ''hub1'' ''SERVER'' ''SERVER'' ''now'' 200", OF demo_construct _ serialize_demo])
     (simp add: int32_ok_def)

lemma length_zero_payload [simp]: "length zero_payload = 272"
  by (simp add: zero_payload_def PAYLOAD_SIZE_def)

lemma length_store_opts:
  "off + 4 \<le> length m \<Longrightarrow> length (store_int_opt off v m) = length m"
  "off + n \<le> length m \<Longrightarrow> 0 < n \<Longrightarrow> length (store_str_opt off n s m) = length m"
  by (auto simp: store_int_opt_def store_str_opt_def safe_strcpy_def split: option.splits)

lemma length_deserialize_items:
  "length m = 272 \<Longrightarrow> length (deserialize_items cj i xs m) = 272"
  by (induction xs arbitrary: i m)
     (auto simp: deserialize_item_def length_store_opts ITEM_SIZE_def ITEM_NAME_SIZE_def QUANTITY_ITEMS_def)

lemma length_deserialize_payload: "length (deserialize_payload k cj root zero_payload) = 272"
  by (cases k)
     (auto simp: deserialize_auth_request_def deserialize_keepalive_def deserialize_client_emergency_def
      deserialize_acknowledgment_def deserialize_auth_response_def deserialize_server_emergency_def
      deserialize_generic_args_def deserialize_items_list_def Let_def length_store_opts size_defs
      length_deserialize_items safe_strcpy_def split: option.splits)

lemma field_of_fits: "0 < n \<Longrightarrow> fits n (field_of cj root k n)"
  by (simp add: field_of_def strncpy_field_fits split: option.split) (simp add: fits_def)


text \<open>
  The checksum always fits its 8-byte field without being cut: it is the uppercase hexadecimal form
  of the low 24 bits of the djb2 hash (64-bit, wrapping) of message type and source, at most six digits.
\<close>

theorem checksum_not_truncated:
  "generate_checksum msg =
     show_hex (unat (and (djb2 (djb2 DJB2_HASH_SEED (msg_type msg)) (source_id msg)) CHECKSUM_BITMASK))
   \<and> length (generate_checksum msg) \<le> 6"
  using checksum_hex_length [of "djb2 (djb2 DJB2_HASH_SEED (msg_type msg)) (source_id msg)"]
  by (simp add: generate_checksum_def Let_def CHECKSUM_SIZE_def)

end
