(* ===== verification/Inventory_Manager.thy ===== *)
theory Inventory_Manager
  imports Database Json_Manager
begin

text \<open>
  The inventory workflows (\<^verbatim>\<open>include/server/inventory_manager.hpp\<close>, \<^verbatim>\<open>src/server/inventory_manager.cpp\<close>):
  stock requests, replenishments, shipment notices, confirmations and the re-evaluation of pending
  orders, each one SQL transaction. A handler is a function from the database connection to its result
  and the connection afterwards; \<open>catching r\<close> is a statement inside its \<^verbatim>\<open>try\<close> block, where \<open>r\<close> is the result
  as it stands when the statement throws.
\<close>

section \<open>Data\<close>

definition MAX_PENDING_TRANSACTIONS :: nat where "MAX_PENDING_TRANSACTIONS = 100"

record stock_request_result =
  sr_transaction_id :: int
  sr_success :: bool
  sr_warehouse_assigned :: bool
  sr_assigned_warehouse_id :: string
  sr_items :: "inventory_item_t list"
  sr_item_count :: int
  sr_requesting_hub_id :: string

definition empty_result :: stock_request_result where
  "empty_result = \<lparr>sr_transaction_id = - 1, sr_success = False, sr_warehouse_assigned = False,
     sr_assigned_warehouse_id = '''', sr_items = [], sr_item_count = 0, sr_requesting_hub_id = ''''\<rparr>"

definition catching :: "'r \<Rightarrow> 'a txn \<Rightarrow> ('a \<Rightarrow> work \<Rightarrow> 'r \<times> work) \<Rightarrow> work \<Rightarrow> 'r \<times> work" where
  "catching r m f w = (case m w of (None, w') \<Rightarrow> (r, w') | (Some a, w') \<Rightarrow> f a w')"

section \<open>Operations\<close>

definition extract_quantities_from_payload :: "payload_items_list \<Rightarrow> int list" where
  "extract_quantities_from_payload p =
     foldl (\<lambda>q it. if 1 \<le> item_id it \<and> item_id it \<le> int QUANTITY_ITEMS then q[nat (item_id it - 1) := quantity it] else q)
       (replicate QUANTITY_ITEMS 0) (items p)"

definition item_names :: "string list" where
  "item_names = [''food'', ''water'', ''medicine'', ''tools'', ''guns'', ''ammo'']"

text \<open>The result items built from a quantity array: one entry per positive quantity.\<close>

definition positive_items :: "int list \<Rightarrow> inventory_item_t list" where
  "positive_items q = map (\<lambda>j. \<lparr>item_id = int j + 1, item_name = item_names ! j, quantity = q ! j\<rparr>)
     (filter (\<lambda>j. q ! j > 0) [0..<QUANTITY_ITEMS])"

definition with_items :: "int list \<Rightarrow> stock_request_result \<Rightarrow> stock_request_result" where
  "with_items q r = r\<lparr>sr_items := positive_items q, sr_item_count := int (length (positive_items q))\<rparr>"

definition copied_items :: "payload_items_list \<Rightarrow> stock_request_result \<Rightarrow> stock_request_result" where
  "copied_items p r = r\<lparr>sr_items := items p, sr_item_count := int (length (filter (\<lambda>it. item_id it \<noteq> 0) (items p)))\<rparr>"

definition can_fulfill :: "int list \<Rightarrow> int list \<Rightarrow> bool" where
  "can_fulfill q stock \<longleftrightarrow> (\<forall>j<QUANTITY_ITEMS. \<not> q ! j > stock ! j)"

definition handle_stock_request :: "pg_env \<Rightarrow> message_t \<Rightarrow> db_conn \<Rightarrow> stock_request_result \<times> db_conn" where
  "handle_stock_request pg msg =
     (let p = load_items_list (payload msg);
          q = extract_quantities_from_payload p;
          r0 = copied_items p (empty_result\<lparr>sr_requesting_hub_id := source_id msg\<rparr>)
      in with_work (catching r0 (adjust_client_inventory pg (source_id msg) q False) (\<lambda>_.
           catching r0 (create_transaction pg ''STOCK_REQUEST'' (source_id msg) (source_role msg) q (timestamp msg)) (\<lambda>n.
           if n < 0 then (\<lambda>w. (r0, w))
           else let r1 = r0\<lparr>sr_transaction_id := n, sr_success := True\<rparr>; e1 = r1\<lparr>sr_success := False\<rparr>
             in catching e1 (get_warehouse_with_all_stock pg q) (\<lambda>wh.
                if wh \<noteq> '''' then
                  catching e1 (set_transaction_source n wh ''WAREHOUSE'') (\<lambda>_.
                  catching e1 (mark_transaction_assigned n) (\<lambda>_.
                  let r2 = r1\<lparr>sr_warehouse_assigned := True, sr_assigned_warehouse_id := wh\<rparr>
                  in catching (r2\<lparr>sr_success := False\<rparr>) commit (\<lambda>_ w. (r2, w))))
                else catching e1 commit (\<lambda>_ w. (r1, w)))))))"

definition handle_replenish_request :: "pg_env \<Rightarrow> message_t \<Rightarrow> db_conn \<Rightarrow> stock_request_result \<times> db_conn" where
  "handle_replenish_request pg msg =
     (let p = load_items_list (payload msg);
          q = extract_quantities_from_payload p;
          r0 = copied_items p empty_result
      in with_work (catching r0 (create_transaction pg ''REPLENISH'' (source_id msg) (source_role msg) q (timestamp msg)) (\<lambda>n.
           if n < 0 then (\<lambda>w. (r0, w))
           else catching r0 (mark_transaction_dispatched pg n (timestamp msg)) (\<lambda>_.
                catching r0 commit (\<lambda>_ w.
                (r0\<lparr>sr_transaction_id := n, sr_success := True, sr_warehouse_assigned := True,
                    sr_assigned_warehouse_id := source_id msg\<rparr>, w))))))"

definition handle_receipt_confirmation :: "pg_env \<Rightarrow> message_t \<Rightarrow> db_conn \<Rightarrow> int \<times> db_conn" where
  "handle_receipt_confirmation pg msg =
     with_work (catching (- 1) (find_transaction_id pg '''' (source_id msg) ''DISPATCHED'') (\<lambda>n.
       if n < 0 then
         catching (- 1) (find_transaction_id pg '''' (source_id msg) ''COMPLETED'') (\<lambda>dup w. (if dup \<ge> 0 then 0 else - 1, w))
       else
         let q = extract_quantities_from_payload (load_items_list (payload msg))
         in catching (- 1) (adjust_client_inventory pg (source_id msg) q True) (\<lambda>rc.
            if rc \<noteq> 0 then (\<lambda>w. (- 1, w))
            else catching (- 1) (complete_transaction pg n (timestamp msg)) (\<lambda>_.
                 catching (- 1) commit (\<lambda>_ w. (0, w))))))"

text \<open>The result and the transaction written to the output parameter.\<close>

definition handle_dispatch_confirmation :: "pg_env \<Rightarrow> message_t \<Rightarrow> db_conn \<Rightarrow> (int \<times> int) \<times> db_conn" where
  "handle_dispatch_confirmation pg msg =
     with_work (catching (- 1, - 1) (find_transaction_id pg (source_id msg) '''' ''ASSIGNED'') (\<lambda>n.
       if n < 0 then
         catching (- 1, - 1) (find_transaction_id pg (source_id msg) '''' ''DISPATCHED'')
           (\<lambda>dup w. (if dup \<ge> 0 then (0, - 1) else (- 1, - 1), w))
       else
         let q = extract_quantities_from_payload (load_items_list (payload msg))
         in catching (- 1, - 1) (adjust_client_inventory pg (source_id msg) q False) (\<lambda>rc.
            if rc \<noteq> 0 then (\<lambda>w. ((- 1, - 1), w))
            else catching (- 1, - 1) (mark_transaction_dispatched pg n (timestamp msg)) (\<lambda>_.
                 catching (- 1, - 1) commit (\<lambda>_ w. ((0, n), w))))))"

definition handle_shipment_notice :: "pg_env \<Rightarrow> message_t \<Rightarrow> db_conn \<Rightarrow> stock_request_result \<times> db_conn" where
  "handle_shipment_notice pg msg =
     (let r0 = empty_result; sid = source_id msg
      in with_work (catching r0 (find_transaction_id pg sid '''' ''ASSIGNED'') (\<lambda>n.
           if n < 0 then
             catching r0 (find_transaction_id pg sid '''' ''DISPATCHED'') (\<lambda>d1.
             if d1 < 0 then
               catching r0 (find_transaction_id pg sid '''' ''COMPLETED'') (\<lambda>d2 w.
                 (if d2 \<ge> 0 then r0\<lparr>sr_transaction_id := d2, sr_success := True\<rparr> else r0, w))
             else (\<lambda>w. (r0\<lparr>sr_transaction_id := d1, sr_success := True\<rparr>, w)))
           else
             let q = extract_quantities_from_payload (load_items_list (payload msg))
             in catching r0 (adjust_client_inventory pg sid q False) (\<lambda>rc.
                if rc \<noteq> 0 then (\<lambda>w. (r0, w))
                else catching r0 (mark_transaction_dispatched pg n (timestamp msg)) (\<lambda>_.
                     catching r0 (get_transaction_by_id n) (\<lambda>(rc, row).
                     catching r0 commit (\<lambda>_ w.
                       (case row of
                          None \<Rightarrow> (r0\<lparr>sr_success := True, sr_transaction_id := n\<rparr>, w)
                        | Some t \<Rightarrow>
                            (with_items q (r0\<lparr>sr_transaction_id := n, sr_success := True, sr_warehouse_assigned := True,
                               sr_assigned_warehouse_id := sid, sr_requesting_hub_id := destination_id t\<rparr>), w)))))))))"

text \<open>The loop over the pending orders for a warehouse stops at the first order it can assign.\<close>

fun pending_orders_loop ::
  "string \<Rightarrow> int list \<Rightarrow> transaction_record list \<Rightarrow> work \<Rightarrow> stock_request_result list \<times> work" where
  "pending_orders_loop wid stock [] = catching [] commit (\<lambda>_ w. ([], w))"
| "pending_orders_loop wid stock (t # ts) =
     (if transaction_type t = ''ORDER_DISPATCH'' then pending_orders_loop wid stock ts
      else if can_fulfill (rec_quantities t) stock then
        catching [] (set_transaction_source (transaction_id t) wid ''WAREHOUSE'') (\<lambda>_.
        catching [] (mark_transaction_assigned (transaction_id t)) (\<lambda>_.
        let fulfilled = [with_items (rec_quantities t)
              (empty_result\<lparr>sr_transaction_id := transaction_id t, sr_success := True, sr_warehouse_assigned := True,
                 sr_assigned_warehouse_id := wid, sr_requesting_hub_id := destination_id t\<rparr>)]
        in catching fulfilled commit (\<lambda>_ w. (fulfilled, w))))
      else pending_orders_loop wid stock ts)"

definition process_pending_orders :: "pg_env \<Rightarrow> string \<Rightarrow> db_conn \<Rightarrow> stock_request_result list \<times> db_conn" where
  "process_pending_orders pg wid =
     with_work (catching [] (get_client_inventory pg wid ''WAREHOUSE'') (\<lambda>(rc, stock).
       if rc \<noteq> 0 then (\<lambda>w. ([], w))
       else catching [] (get_pending_transactions pg MAX_PENDING_TRANSACTIONS) (\<lambda>pending.
            if pending = [] then (\<lambda>w. ([], w)) else pending_orders_loop wid stock pending)))"

text \<open>The loop over the pending gateway orders for a hub takes each order off the stock it has read.\<close>

fun gateway_orders_loop ::
  "string \<Rightarrow> int list \<Rightarrow> stock_request_result list \<Rightarrow> transaction_record list \<Rightarrow> work \<Rightarrow> stock_request_result list \<times> work" where
  "gateway_orders_loop hid stock acc [] = catching acc commit (\<lambda>_ w. (acc, w))"
| "gateway_orders_loop hid stock acc (t # ts) =
     (if transaction_type t \<noteq> ''ORDER_DISPATCH'' then gateway_orders_loop hid stock acc ts
      else if can_fulfill (rec_quantities t) stock then
        catching acc (set_transaction_source (transaction_id t) hid ''HUB'') (\<lambda>_.
        catching acc (mark_transaction_assigned (transaction_id t)) (\<lambda>_.
        gateway_orders_loop hid (map2 (-) stock (rec_quantities t))
          (acc @ [with_items (rec_quantities t)
            (empty_result\<lparr>sr_transaction_id := transaction_id t, sr_success := True,
               sr_assigned_warehouse_id := hid, sr_requesting_hub_id := hid\<rparr>)]) ts))
      else gateway_orders_loop hid stock acc ts)"

definition process_pending_gateway_orders :: "pg_env \<Rightarrow> string \<Rightarrow> db_conn \<Rightarrow> stock_request_result list \<times> db_conn" where
  "process_pending_gateway_orders pg hid =
     with_work (catching [] (get_client_inventory pg hid ''HUB'') (\<lambda>(rc, stock).
       if rc \<noteq> 0 then (\<lambda>w. ([], w))
       else catching [] (get_pending_transactions pg MAX_PENDING_TRANSACTIONS) (\<lambda>pending.
            if pending = [] then (\<lambda>w. ([], w)) else gateway_orders_loop hid stock [] pending)))"

text \<open>\<open>handle_inventory_update\<close> has no handler of its own: \<open>None\<close> is an exception that leaves it.\<close>

definition handle_inventory_update ::
  "pg_env \<Rightarrow> message_t \<Rightarrow> db_conn \<Rightarrow> stock_request_result list option \<times> db_conn" where
  "handle_inventory_update pg msg c =
     (let q = extract_quantities_from_payload (load_items_list (payload msg))
      in case with_work (bnd (update_client_inventory pg (source_id msg) (source_role msg) q (timestamp msg)) (\<lambda>_. commit)) c of
           (None, c') \<Rightarrow> (None, c')
         | (Some _, c') \<Rightarrow>
             if source_role msg = ''WAREHOUSE'' then
               (case process_pending_orders pg (source_id msg) c' of (rs, c'') \<Rightarrow> (Some rs, c''))
             else (Some [], c'))"

definition find_transaction_id_pool :: "pg_env \<Rightarrow> string \<Rightarrow> string \<Rightarrow> string \<Rightarrow> db_conn \<Rightarrow> int \<times> db_conn" where
  "find_transaction_id_pool pg sid did st = find_transaction_id_conn pg sid did st"

definition get_client_inventory_message ::
  "pg_env \<Rightarrow> timeval \<Rightarrow> string \<Rightarrow> string \<Rightarrow> db_conn \<Rightarrow> message_t option \<times> db_conn" where
  "get_client_inventory_message pg tv cid ct c =
     (case get_client_inventory_conn pg cid ct c of
        ((rc, q), c') \<Rightarrow>
          if rc \<noteq> 0 then (None, c')
          else let its = map (\<lambda>i. \<lparr>item_id = int i + 1, item_name = item_names ! i, quantity = q ! i\<rparr>) [0..<QUANTITY_ITEMS];
                   mk = (\<lambda>mt. case create_items_message tv mt ''SERVER'' cid its (int QUANTITY_ITEMS) None of
                          Inl _ \<Rightarrow> None | Inr m \<Rightarrow> Some m)
               in if ct = ''HUB'' then (mk ''SERVER_TO_HUB__INVENTORY_UPDATE'', c')
                  else if ct = ''WAREHOUSE'' then (mk ''SERVER_TO_WAREHOUSE__INVENTORY_UPDATE'', c')
                  else (None, c'))"

section \<open>Outcomes of the workflows\<close>

lemma catchingE:
  assumes "catching r m f w = (x, w')"
  obtains (thrown) w1 where "m w = (None, w1)" "x = r" "w' = w1"
    | (went_on) a w1 where "m w = (Some a, w1)" "f a w1 = (x, w')"
  using assms by (auto simp: catching_def split: prod.splits option.splits)

lemma with_workE:
  assumes "with_work b c = (r, c')"
  obtains w where "b \<lparr>w_db = c_db c, w_durable = c_db c, w_faults = c_faults c\<rparr> = (r, w)"
    and "c_db c' = (w_durable w)\<lparr>db_credential_seq := db_credential_seq (w_db w),
                                  db_transaction_seq := db_transaction_seq (w_db w)\<rparr>"
  using assms by (auto simp: with_work_def Let_def split: prod.splits)

lemma seq_monoD: "seq_mono b \<Longrightarrow> b w = (r, w') \<Longrightarrow> db_transaction_seq (w_db w) \<le> db_transaction_seq (w_db w')"
  unfolding seq_mono_def by (drule spec [of _ w]) simp

lemma seq_mono_catching:
  assumes m: "seq_mono m" and f: "\<And>a. seq_mono (f a)"
  shows "seq_mono (catching r m f)"
proof -
  have "db_transaction_seq (w_db w) \<le> db_transaction_seq (w_db (snd (catching r m f w)))" for w
  proof (cases "m w")
    case (Pair x w1)
    have "db_transaction_seq (w_db w1) \<le> db_transaction_seq (w_db (snd (f a w1)))" for a
      using f [of a] by (simp add: seq_mono_def)
    with seq_monoD [OF m Pair] show ?thesis
      by (auto simp: catching_def Pair split: option.splits intro: order.trans)
  qed
  then show ?thesis by (simp add: seq_mono_def)
qed

lemma with_work_seq:
  assumes "seq_mono b" "with_work b c = (r, c')"
  shows "db_transaction_seq (c_db c) \<le> db_transaction_seq (c_db c')"
  using assms(2)
proof (rule with_workE)
  fix w
  assume "b \<lparr>w_db = c_db c, w_durable = c_db c, w_faults = c_faults c\<rparr> = (r, w)"
    and c: "c_db c' = (w_durable w)\<lparr>db_credential_seq := db_credential_seq (w_db w), db_transaction_seq := db_transaction_seq (w_db w)\<rparr>"
  from seq_monoD [OF assms(1) this(1)] show ?thesis by (simp add: c)
qed

definition rolled_back :: "db_conn \<Rightarrow> db_conn \<Rightarrow> bool" where
  "rolled_back c c' \<longleftrightarrow> same_tables (c_db c) (c_db c') \<and> db_transaction_seq (c_db c) \<le> db_transaction_seq (c_db c')"

abbreviation msg_quantities :: "message_t \<Rightarrow> int list" where
  "msg_quantities msg \<equiv> extract_quantities_from_payload (load_items_list (payload msg))"

lemma length_extract [simp]: "length (extract_quantities_from_payload p) = QUANTITY_ITEMS"
proof -
  have "length (foldl (\<lambda>q it. if 1 \<le> item_id it \<and> item_id it \<le> int QUANTITY_ITEMS
      then q[nat (item_id it - 1) := quantity it] else q) q xs) = length q" for q and xs :: "inventory_item_t list"
    by (induction xs arbitrary: q) simp_all
  then show ?thesis by (simp add: extract_quantities_from_payload_def)
qed

lemma seq_mono_receipt: "handle_receipt_confirmation pg msg c = (rc, c') \<Longrightarrow>
    db_transaction_seq (c_db c) \<le> db_transaction_seq (c_db c')"
  unfolding handle_receipt_confirmation_def
  by (erule with_work_seq [rotated]) (auto intro!: seq_mono_catching simp: Let_def)


lemma quiet_None: "quiet m \<Longrightarrow> m w = (None, w') \<Longrightarrow> w_durable w' = w_durable w"
  by (rule quietD)

lemmas helper_None = quiet_helpers [THEN quiet_None] quiet_get_client_inventory [THEN quiet_None] commit_None

lemma receipt_cases:
  assumes "handle_receipt_confirmation pg msg c = (rc, c')"
  obtains (failed) "rc = - 1" "rolled_back c c'"
    | (duplicate) dup where "rc = 0" "rolled_back c c'"
        "sql_find_transaction pg '''' (source_id msg) ''COMPLETED'' (c_db c) = Some (dup, c_db c)" "dup \<ge> 0"
    | (completed) n db1 t where "rc = 0" "source_id msg \<noteq> ''''"
        "sql_find_transaction pg '''' (source_id msg) ''DISPATCHED'' (c_db c) = Some (n, c_db c)" "n \<ge> 0"
        "sql_adjust_inventory pg (source_id msg) (msg_quantities msg) True (c_db c) = Some ((), db1)"
        "pg_timestamp pg (timestamp msg) = Some t" "c_db c' = upd_txn n (put_completed t) db1"
proof -
  note seq = seq_mono_receipt [OF assms]
  show thesis
    using assms seq that unfolding handle_receipt_confirmation_def Let_def rolled_back_def
    by (fastforce elim!: with_workE catchingE split: if_splits dest!: helper_Some helper_None)
qed

lemma seq_mono_dispatch: "handle_dispatch_confirmation pg msg c = (rc, c') \<Longrightarrow>
    db_transaction_seq (c_db c) \<le> db_transaction_seq (c_db c')"
  unfolding handle_dispatch_confirmation_def
  by (erule with_work_seq [rotated]) (auto intro!: seq_mono_catching simp: Let_def)

lemma dispatch_cases:
  assumes "handle_dispatch_confirmation pg msg c = (r, c')"
  obtains (failed) "r = (- 1, - 1)" "rolled_back c c'"
    | (duplicate) dup where "r = (0, - 1)" "rolled_back c c'"
        "sql_find_transaction pg (source_id msg) '''' ''DISPATCHED'' (c_db c) = Some (dup, c_db c)" "dup \<ge> 0"
    | (dispatched) n db1 t where "r = (0, n)" "source_id msg \<noteq> ''''"
        "sql_find_transaction pg (source_id msg) '''' ''ASSIGNED'' (c_db c) = Some (n, c_db c)" "n \<ge> 0"
        "sql_adjust_inventory pg (source_id msg) (msg_quantities msg) False (c_db c) = Some ((), db1)"
        "pg_timestamp pg (timestamp msg) = Some t" "c_db c' = upd_txn n (put_dispatched t) db1"
proof -
  note seq = seq_mono_dispatch [OF assms]
  show thesis
    using assms seq that unfolding handle_dispatch_confirmation_def Let_def rolled_back_def
    by (fastforce elim!: with_workE catchingE split: if_splits dest!: helper_Some helper_None)
qed

lemma seq_mono_replenish: "handle_replenish_request pg msg c = (rc, c') \<Longrightarrow>
    db_transaction_seq (c_db c) \<le> db_transaction_seq (c_db c')"
  unfolding handle_replenish_request_def Let_def
  by (erule with_work_seq [rotated]) (auto intro!: seq_mono_catching simp: Let_def)

lemma replenish_cases:
  assumes "handle_replenish_request pg msg c = (r, c')"
  obtains (failed) "\<not> sr_success r" "rolled_back c c'"
    | (dispatched) n db1 t where "sr_success r" "sr_transaction_id r = n" "n \<ge> 0"
        "sql_insert_transaction pg ''REPLENISH'' (source_id msg) (source_role msg) (msg_quantities msg) (timestamp msg) (c_db c)
           = Some (n, db1)"
        "pg_timestamp pg (timestamp msg) = Some t" "c_db c' = upd_txn n (put_dispatched t) db1"
proof -
  note seq = seq_mono_replenish [OF assms]
  show thesis
    using assms seq that unfolding handle_replenish_request_def Let_def rolled_back_def
    by (fastforce simp: copied_items_def empty_result_def elim!: with_workE catchingE split: if_splits
        dest!: helper_Some helper_None)
qed

lemma seq_mono_shipment: "handle_shipment_notice pg msg c = (rc, c') \<Longrightarrow>
    db_transaction_seq (c_db c) \<le> db_transaction_seq (c_db c')"
  unfolding handle_shipment_notice_def Let_def
  by (erule with_work_seq [rotated])
     (auto intro!: seq_mono_catching simp: Let_def, simp add: seq_mono_def split: option.split)

lemma shipment_cases:
  assumes "handle_shipment_notice pg msg c = (r, c')"
  obtains (failed) "\<not> sr_success r" "rolled_back c c'"
    | (duplicate) dup st where "sr_success r" "\<not> sr_warehouse_assigned r" "rolled_back c c'" "st \<in> {''DISPATCHED'', ''COMPLETED''}"
        "sql_find_transaction pg (source_id msg) '''' st (c_db c) = Some (dup, c_db c)" "dup \<ge> 0"
    | (dispatched) n db1 t where "sr_success r" "sr_transaction_id r = n" "source_id msg \<noteq> ''''"
        "sql_find_transaction pg (source_id msg) '''' ''ASSIGNED'' (c_db c) = Some (n, c_db c)" "n \<ge> 0"
        "sql_adjust_inventory pg (source_id msg) (msg_quantities msg) False (c_db c) = Some ((), db1)"
        "pg_timestamp pg (timestamp msg) = Some t" "c_db c' = upd_txn n (put_dispatched t) db1"
proof -
  note seq = seq_mono_shipment [OF assms]
  show thesis
    using assms seq that unfolding handle_shipment_notice_def Let_def rolled_back_def
    by (fastforce simp: with_items_def empty_result_def elim!: with_workE catchingE split: if_splits option.splits
        dest!: helper_Some helper_None)
qed

lemma seq_mono_stock_request: "handle_stock_request pg msg c = (rc, c') \<Longrightarrow>
    db_transaction_seq (c_db c) \<le> db_transaction_seq (c_db c')"
  unfolding handle_stock_request_def Let_def
  by (erule with_work_seq [rotated]) (auto intro!: seq_mono_catching simp: Let_def)

lemma stock_request_cases:
  assumes "handle_stock_request pg msg c = (r, c')"
  obtains (failed) "\<not> sr_success r" "rolled_back c c'"
    | (pending) n db1 where "sr_success r" "sr_transaction_id r = n" "n \<ge> 0" "\<not> sr_warehouse_assigned r"
        "sql_adjust_inventory pg (source_id msg) (msg_quantities msg) False (c_db c) = Some ((), db1)"
        "sql_insert_transaction pg ''STOCK_REQUEST'' (source_id msg) (source_role msg) (msg_quantities msg) (timestamp msg) db1
           = Some (n, c_db c')"
        "\<exists>x. sql_warehouse_with_stock pg (msg_quantities msg) (c_db c') = Some (x, c_db c') \<and> opt_str x = ''''"
    | (assigned) n db1 db2 where "sr_success r" "sr_transaction_id r = n" "n \<ge> 0" "sr_warehouse_assigned r"
        "sql_adjust_inventory pg (source_id msg) (msg_quantities msg) False (c_db c) = Some ((), db1)"
        "sql_insert_transaction pg ''STOCK_REQUEST'' (source_id msg) (source_role msg) (msg_quantities msg) (timestamp msg) db1
           = Some (n, db2)"
        "sql_warehouse_with_stock pg (msg_quantities msg) db2 = Some (Some (sr_assigned_warehouse_id r), db2)"
        "c_db c' = upd_txn n put_assigned (upd_txn n (put_source (sr_assigned_warehouse_id r) ''WAREHOUSE'') db2)"
proof -
  note seq = seq_mono_stock_request [OF assms]

  let ?r0 = "copied_items (load_items_list (payload msg)) (empty_result\<lparr>sr_requesting_hub_id := source_id msg\<rparr>)"
  have r0: "\<not> sr_success ?r0" "\<not> sr_warehouse_assigned ?r0" by (simp_all add: copied_items_def empty_result_def)
  note d = handle_stock_request_def Let_def rolled_back_def
  from assms show thesis
    unfolding d
  proof (elim with_workE catchingE, goal_cases)
    case (1 w w1)
    then show ?case using that(1) seq r0 by (auto simp: rolled_back_def dest!: helper_None)
  next
    case (2 w a w1 w2)
    then show ?case using that(1) seq r0 by (auto simp: rolled_back_def dest!: helper_None adjust_Some)
  next
    case (3 w a w1 n w2)
    show ?case
    proof (cases "n < 0")
      case True
      then show ?thesis
        using 3 that(1) seq r0 by (auto simp: rolled_back_def dest!: adjust_Some create_Some)
    next
      case False
      then have s: "sql_adjust_inventory pg (source_id msg) (msg_quantities msg) False (c_db c) = Some ((), w_db w1)"
        "sql_insert_transaction pg ''STOCK_REQUEST'' (source_id msg) (source_role msg) (msg_quantities msg) (timestamp msg)
           (w_db w1) = Some (n, w_db w2)" "w_durable w2 = c_db c"
        using adjust_Some [OF 3(2)] create_Some [OF 3(3)] by auto
      from 3(4) False show ?thesis
        using that(1) that(2) [of n "w_db w1"] that(3) [of n "w_db w1" "w_db w2"] s seq r0 3(1)
        by (auto simp: rolled_back_def opt_str_def elim!: catchingE split: if_splits option.splits
            dest!: helper_Some helper_None)
    qed
  qed
qed

end
