(* ===== verification/Inventory_Workflows.thy ===== *)
theory Inventory_Workflows
  imports Inventory_Manager "HOL-Library.Sublist"
begin

text \<open>
  What the inventory workflows guarantee: a reported failure leaves no trace in the tables, a transaction
  only ever moves forward through its life cycle, assignments are backed by stock, and pending orders are
  served oldest first. The interface \<open>workflow\<close> states what each handler keeps of a well-formed database;
  it is interpreted for every handler.
\<close>

section \<open>The pending-order loops\<close>

definition wh_eligible :: "int list \<Rightarrow> transaction_record \<Rightarrow> bool" where
  "wh_eligible stock t \<longleftrightarrow> transaction_type t \<noteq> ''ORDER_DISPATCH'' \<and> can_fulfill (rec_quantities t) stock"

definition wh_order :: "string \<Rightarrow> transaction_record \<Rightarrow> stock_request_result" where
  "wh_order wid t = with_items (rec_quantities t)
     (empty_result\<lparr>sr_transaction_id := transaction_id t, sr_success := True, sr_warehouse_assigned := True,
        sr_assigned_warehouse_id := wid, sr_requesting_hub_id := destination_id t\<rparr>)"

definition assign_to :: "string \<Rightarrow> string \<Rightarrow> int \<Rightarrow> database \<Rightarrow> database" where
  "assign_to cid ct n db = upd_txn n put_assigned (upd_txn n (put_source cid ct) db)"

lemma pending_orders_loop_cases:
  assumes "pending_orders_loop wid stock ts w = (rs, w')"
  shows "w_durable w' = w_durable w \<and> rs = []
     \<or> w_durable w' = w_durable w \<and> (\<exists>t. find (wh_eligible stock) ts = Some t \<and> rs = [wh_order wid t])
     \<or> find (wh_eligible stock) ts = None \<and> rs = [] \<and> w_db w' = w_db w \<and> w_durable w' = w_db w
     \<or> (\<exists>t. find (wh_eligible stock) ts = Some t \<and> rs = [wh_order wid t]
          \<and> w_db w' = assign_to wid ''WAREHOUSE'' (transaction_id t) (w_db w) \<and> w_durable w' = w_db w')"
  using assms
proof (induction ts)
  case Nil
  then show ?case by (auto elim!: catchingE dest!: commit_Some commit_None)
next
  case (Cons t ts)
  show ?case
  proof (cases "wh_eligible stock t")
    case False
    then have "pending_orders_loop wid stock ts w = (rs, w')"
      using Cons.prems by (auto simp: wh_eligible_def split: if_splits)
    then show ?thesis using Cons.IH False by simp
  next
    case True
    then show ?thesis
      using Cons.prems unfolding wh_eligible_def
      by (auto simp: Let_def wh_eligible_def wh_order_def assign_to_def elim!: catchingE
          dest!: set_source_Some assigned_Some commit_Some helper_None)
  qed
qed

fun gw_select :: "int list \<Rightarrow> transaction_record list \<Rightarrow> transaction_record list" where
  "gw_select stock [] = []"
| "gw_select stock (t # ts) =
     (if transaction_type t = ''ORDER_DISPATCH'' \<and> can_fulfill (rec_quantities t) stock
      then t # gw_select (map2 (-) stock (rec_quantities t)) ts else gw_select stock ts)"

definition gw_order :: "string \<Rightarrow> transaction_record \<Rightarrow> stock_request_result" where
  "gw_order hid t = with_items (rec_quantities t)
     (empty_result\<lparr>sr_transaction_id := transaction_id t, sr_success := True,
        sr_assigned_warehouse_id := hid, sr_requesting_hub_id := hid\<rparr>)"

definition assign_all :: "string \<Rightarrow> transaction_record list \<Rightarrow> database \<Rightarrow> database" where
  "assign_all hid ts db = fold (\<lambda>t. assign_to hid ''HUB'' (transaction_id t)) ts db"

lemma gateway_orders_loop_cases:
  assumes "gateway_orders_loop hid stock acc ts w = (rs, w')"
  shows "w_durable w' = w_durable w \<and> (\<exists>k. rs = acc @ map (gw_order hid) (take k (gw_select stock ts)))
     \<or> rs = acc @ map (gw_order hid) (gw_select stock ts) \<and> w_db w' = assign_all hid (gw_select stock ts) (w_db w)
       \<and> w_durable w' = w_db w'"
  using assms
proof (induction ts arbitrary: stock acc w)
  case Nil
  then show ?case by (auto simp: assign_all_def elim!: catchingE dest!: commit_Some commit_None)
next
  case (Cons t ts)
  let ?ok = "transaction_type t = ''ORDER_DISPATCH'' \<and> can_fulfill (rec_quantities t) stock"
  let ?stock = "map2 (-) stock (rec_quantities t)"
  show ?case
  proof (cases ?ok)
    case False
    then have "gateway_orders_loop hid stock acc ts w = (rs, w')"
      using Cons.prems by (auto split: if_splits)
    from Cons.IH [OF this] False show ?thesis by auto
  next
    case True
    from Cons.prems True
    have "catching acc (set_transaction_source (transaction_id t) hid ''HUB'') (\<lambda>_.
        catching acc (mark_transaction_assigned (transaction_id t)) (\<lambda>_.
        gateway_orders_loop hid ?stock (acc @ [gw_order hid t]) ts)) w = (rs, w')"
      by (simp add: gw_order_def)
    then consider (thrown) "w_durable w' = w_durable w" "rs = acc"
      | (on) w2 where "w_durable w2 = w_durable w" "w_db w2 = assign_to hid ''HUB'' (transaction_id t) (w_db w)"
          "gateway_orders_loop hid ?stock (acc @ [gw_order hid t]) ts w2 = (rs, w')"
      by (elim catchingE) (auto simp: assign_to_def dest!: set_source_Some assigned_Some helper_None)
    then show ?thesis
    proof cases
      case thrown
      then show ?thesis by (intro disjI1 conjI exI [of _ 0]) simp_all
    next
      case (on w2)
      from Cons.IH [OF on(3)] show ?thesis
      proof (elim disjE conjE exE, goal_cases)
        case (1 k)
        then have "rs = acc @ map (gw_order hid) (take (Suc k) (gw_select stock (t # ts)))" using True by simp
        then show ?case using 1 on by (intro disjI1 conjI exI [of _ "Suc k"]) simp_all
      next
        case 2
        then show ?case using on True by (intro disjI2) (simp add: assign_all_def)
      qed
    qed
  qed
qed

text \<open>What reading the stock of a client does to the database: at most a first row with the default stock.\<close>

definition stock_read :: "string \<Rightarrow> int list \<Rightarrow> database \<Rightarrow> database \<Rightarrow> bool" where
  "stock_read cid q db db' \<longleftrightarrow> db_transactions db' = db_transactions db \<and> db_transaction_seq db' = db_transaction_seq db
     \<and> db_credentials db' = db_credentials db
     \<and> (\<exists>r\<in>set (db_inventory db'). cr_client_id r = cid \<and> cr_stock r = q)
     \<and> (db_inventory db' = db_inventory db \<or>
        (\<exists>r. db_inventory db' = db_inventory db @ [r] \<and> cr_client_id r = cid \<and> cr_stock r = q
           \<and> length q = QUANTITY_ITEMS \<and> (\<forall>x\<in>set q. 0 \<le> x) \<and> cid \<notin> cr_client_id ` set (db_inventory db)))"

lemma db_wf_stock_read: "db_wf db \<Longrightarrow> stock_read cid q db db' \<Longrightarrow> db_wf db' \<and> length q = QUANTITY_ITEMS"
  by (auto simp: db_wf_def stock_read_def)

abbreviation pending_list :: "pg_env \<Rightarrow> database \<Rightarrow> transaction_record list" where
  "pending_list pg db \<equiv> map parse_row (take MAX_PENDING_TRANSACTIONS (pending_rows pg db))"

lemma pending_rows_cong: "db_transactions a = db_transactions b \<Longrightarrow> pending_rows pg a = pending_rows pg b"
  by (simp add: pending_rows_def)

lemma seq_mono_pending_loop: "seq_mono (pending_orders_loop wid stock ts)"
  by (induction ts) (auto intro!: seq_mono_catching simp: Let_def)

lemma seq_mono_gateway_loop: "seq_mono (gateway_orders_loop hid stock acc ts)"
  by (induction ts arbitrary: stock acc) (auto intro!: seq_mono_catching simp: Let_def)

text \<open>The opening both loops share: read the stock, then the pending transactions.\<close>

lemma pending_work_cases:
  assumes "with_work (catching [] (get_client_inventory pg cid ct) (\<lambda>(rc, stock).
       if rc \<noteq> 0 then (\<lambda>w. ([], w))
       else catching [] (get_pending_transactions pg MAX_PENDING_TRANSACTIONS) (\<lambda>pending.
            if pending = [] then (\<lambda>w. ([], w)) else L stock pending))) c = (rs, c')"
  obtains (stop) "rs = []" "same_tables (c_db c) (c_db c')"
    | (loop) w stock w2 where "stock_read cid stock (c_db c) (w_db w2)" "w_durable w2 = c_db c"
        "c_db c' = (w_durable w)\<lparr>db_credential_seq := db_credential_seq (w_db w), db_transaction_seq := db_transaction_seq (w_db w)\<rparr>"
        "L stock (pending_list pg (c_db c)) w2 = (rs, w)"
proof -
  from assms obtain w where
    b: "catching [] (get_client_inventory pg cid ct) (\<lambda>(rc, stock).
       if rc \<noteq> 0 then (\<lambda>w. ([], w))
       else catching [] (get_pending_transactions pg MAX_PENDING_TRANSACTIONS) (\<lambda>pending.
            if pending = [] then (\<lambda>w. ([], w)) else L stock pending))
         \<lparr>w_db = c_db c, w_durable = c_db c, w_faults = c_faults c\<rparr> = (rs, w)"
    and c': "c_db c' = (w_durable w)\<lparr>db_credential_seq := db_credential_seq (w_db w), db_transaction_seq := db_transaction_seq (w_db w)\<rparr>"
    by (rule with_workE)
  note halted = that(1)
  have stop: thesis if "rs = []" "w_durable w = c_db c" using that c' by (intro halted) simp_all
  from b show thesis
  proof (cases rule: catchingE)
    case (thrown w1)
    then show ?thesis by (intro stop) (auto dest!: helper_None)
  next
    case (went_on a w1)
    obtain rc stock where a: "a = (rc, stock)" by (cases a)
    note inv = inventory_Some [OF went_on(1) [unfolded a]]
    show ?thesis
    proof (cases "rc = 0")
      case False
      then show ?thesis using went_on a inv by (intro stop) auto
    next
      case True
      then have sr: "stock_read cid stock (c_db c) (w_db w1)" and d: "w_durable w1 = c_db c"
        using inv unfolding stock_read_def by simp_all
      have pl: "pending_list pg (w_db w1) = pending_list pg (c_db c)"
        using sr pending_rows_cong [of "w_db w1" "c_db c"] by (simp add: stock_read_def)
      have "catching [] (get_pending_transactions pg MAX_PENDING_TRANSACTIONS)
          (\<lambda>pending. if pending = [] then (\<lambda>w. ([], w)) else L stock pending) w1 = (rs, w)"
        using went_on(2) a True by simp
      then show ?thesis
      proof (cases rule: catchingE)
        case (thrown w2)
        then show ?thesis using d by (intro stop) (auto dest!: helper_None)
      next
        case (went_on ts w2)
        note p = pending_Some [OF went_on(1)]
        show ?thesis
        proof (cases "ts = []")
          case True
          then show ?thesis using went_on p d by (intro stop) auto
        next
          case False
          then show ?thesis using went_on(2) p sr d c' pl by (intro that(2) [of stock w2 w]) auto
        qed
      qed
    qed
  qed
qed

lemma pending_orders_cases:
  assumes "process_pending_orders pg wid c = (rs, c')"
  obtains (rolled) "rolled_back c c'" "rs = [] \<or> (\<exists>stock db1 t. stock_read wid stock (c_db c) db1
          \<and> find (wh_eligible stock) (pending_list pg (c_db c)) = Some t \<and> rs = [wh_order wid t])"
    | (none) stock where "rs = []" "stock_read wid stock (c_db c) (c_db c')"
        "find (wh_eligible stock) (pending_list pg (c_db c)) = None"
    | (assigned) stock db1 t where "rs = [wh_order wid t]" "stock_read wid stock (c_db c) db1"
        "find (wh_eligible stock) (pending_list pg (c_db c)) = Some t"
        "c_db c' = assign_to wid ''WAREHOUSE'' (transaction_id t) db1"
proof -
  have seq: "db_transaction_seq (c_db c) \<le> db_transaction_seq (c_db c')"
    using assms unfolding process_pending_orders_def
    by (rule with_work_seq [rotated]) (auto intro!: seq_mono_catching seq_mono_pending_loop split: prod.splits)
  show thesis
    using assms unfolding process_pending_orders_def
  proof (cases rule: pending_work_cases)
    case stop
    then show ?thesis using that(1) seq by (simp add: rolled_back_def)
  next
    case (loop w stock w2)
    from pending_orders_loop_cases [OF loop(4)] show ?thesis
    proof (elim disjE conjE exE, goal_cases)
      case 1
      then show ?case using that(1) seq loop by (simp add: rolled_back_def)
    next
      case (2 t)
      then show ?case using that(1) seq loop by (auto simp: rolled_back_def)
    next
      case 3
      then show ?case using that(2) [of stock] loop by simp
    next
      case (4 t)
      then show ?case using that(3) [of t stock "w_db w2"] loop by simp
    qed
  qed
qed

lemma gateway_orders_cases:
  assumes "process_pending_gateway_orders pg hid c = (rs, c')"
  obtains (rolled) "rolled_back c c'" "rs = [] \<or> (\<exists>stock db1 k. stock_read hid stock (c_db c) db1
          \<and> rs = map (gw_order hid) (take k (gw_select stock (pending_list pg (c_db c)))))"
    | (assigned) stock db1 where "stock_read hid stock (c_db c) db1"
        "rs = map (gw_order hid) (gw_select stock (pending_list pg (c_db c)))"
        "c_db c' = assign_all hid (gw_select stock (pending_list pg (c_db c))) db1"
proof -
  have seq: "db_transaction_seq (c_db c) \<le> db_transaction_seq (c_db c')"
    using assms unfolding process_pending_gateway_orders_def
    by (rule with_work_seq [rotated]) (auto intro!: seq_mono_catching seq_mono_gateway_loop split: prod.splits)
  show thesis
    using assms unfolding process_pending_gateway_orders_def
  proof (cases rule: pending_work_cases)
    case stop
    then show ?thesis using that(1) seq by (simp add: rolled_back_def)
  next
    case (loop w stock w2)
    from gateway_orders_loop_cases [OF loop(4)] show ?thesis
    proof (elim disjE conjE exE, goal_cases)
      case (1 k)
      then show ?case using that(1) seq loop by (auto simp: rolled_back_def)
    next
      case 2
      then show ?case using that(2) [of stock "w_db w2"] loop by simp
    qed
  qed
qed

section \<open>Well-formedness and progress\<close>

lemma scan_sets:
  assumes "pg_ok pg"
  shows "set (pg_scan_inventory pg rs) = set rs" "set (pg_scan_transactions pg ts) = set ts"
  using assms by (auto simp: pg_ok_def dest!: spec mset_eq_setD)

lemma found_row:
  assumes "pg_ok pg" "sql_find_transaction pg sid did st db = Some (n, db')" "n \<ge> 0"
  obtains r where "r \<in> set (db_transactions db)" "tr_id r = n" "txn_matches sid did st r"
proof -
  let ?rows = "sort_key (\<lambda>r. - tr_order_timestamp r) (filter (txn_matches sid did st) (pg_scan_transactions pg (db_transactions db)))"
  from assms(2,3) obtain r rs where r: "?rows = r # rs" "tr_id r = n"
    by (auto simp: sql_find_transaction_def split: list.splits)
  from r(1) have "r \<in> set ?rows" by (metis list.set_intros(1))
  then show thesis using r(2) by (intro that [of r]) (simp_all add: scan_sets [OF assms(1)])
qed

lemma wf_unique: "db_wf db \<Longrightarrow> r \<in> set (db_transactions db) \<Longrightarrow> s \<in> set (db_transactions db) \<Longrightarrow> tr_id r = tr_id s \<Longrightarrow> r = s"
  by (auto simp: db_wf_def distinct_map dest: inj_onD)

lemma found_status:
  assumes "pg_ok pg" "db_wf db" "sql_find_transaction pg sid did st db = Some (n, db')" "n \<ge> 0" "st \<noteq> ''''"
    and "r \<in> set (db_transactions db)" "tr_id r = n"
  shows "tr_status r = st"
proof -
  from found_row [OF assms(1,3,4)] obtain s where s: "s \<in> set (db_transactions db)" "tr_id s = n" "txn_matches sid did st s" .
  then have "s = r" using wf_unique [OF assms(2)] assms(6,7) by blast
  with s show ?thesis using assms(5) by (simp add: txn_matches_def)
qed

lemma evolves_upd:
  assumes "db_transactions db1 = db_transactions db" "\<And>r. r \<in> set (db_transactions db) \<Longrightarrow> tr_id r = n \<Longrightarrow> row_step r (f r)"
  shows "evolves db (upd_txn n f db1)"
  by (rule evolves_map [of _ "\<lambda>r. if tr_id r = n then f r else r" _ "[]"]) (use assms in \<open>auto simp: upd_txn_def\<close>)

lemma wf_marks:
  "db_wf db \<Longrightarrow> db_wf (upd_txn n put_assigned db)" "db_wf db \<Longrightarrow> db_wf (upd_txn n (put_source cid ct) db)"
  "db_wf db \<Longrightarrow> db_wf (upd_txn n (put_dispatched t) db)" "db_wf db \<Longrightarrow> db_wf (upd_txn n (put_completed t) db)"
  by (rule db_wf_upd; simp)+

lemma row_step_marks:
  "tr_status r = ''PENDING'' \<Longrightarrow> row_step r (put_assigned (put_source cid ct r))"
  "tr_status r = ''ASSIGNED'' \<Longrightarrow> row_step r (put_dispatched t r)"
  "tr_status r = ''DISPATCHED'' \<Longrightarrow> row_step r (put_completed t r)"
  by (simp_all add: row_step_def status_rank.simps)

lemma rolled_back_wf: "rolled_back c c' \<Longrightarrow> db_wf (c_db c) \<Longrightarrow> db_wf (c_db c') \<and> evolves (c_db c) (c_db c')"
  by (auto simp: rolled_back_def same_tables_def intro: db_wf_cong evolves_same)

lemma moved_wf:
  assumes "pg_ok pg" "db_wf db" "sql_find_transaction pg sid did st db = Some (n, db)" "n \<ge> 0" "st \<noteq> ''''"
    and "sql_adjust_inventory pg cid q add db = Some ((), db1)" "length q = QUANTITY_ITEMS"
    and "\<And>r. tr_status r = st \<Longrightarrow> row_step r (f r)" "\<And>d. db_wf d \<Longrightarrow> db_wf (upd_txn n f d)"
  shows "db_wf (upd_txn n f db1) \<and> evolves db (upd_txn n f db1)"
proof -
  note a = db_wf_adjust [OF assms(2,7,6)]
  have "evolves db (upd_txn n f db1)"
    by (rule evolves_upd) (use a assms(8) found_status [OF assms(1-5)] in auto)
  with a assms(9) show ?thesis by blast
qed

locale workflow =
  fixes step :: "pg_env \<Rightarrow> 'e \<Rightarrow> db_conn \<Rightarrow> db_conn"
  assumes keeps: "pg_ok pg \<Longrightarrow> db_wf (c_db c) \<Longrightarrow> db_wf (c_db (step pg e c)) \<and> evolves (c_db c) (c_db (step pg e c))"

interpretation receipt: workflow "\<lambda>pg msg c. snd (handle_receipt_confirmation pg msg c)"
proof
  fix pg and c :: db_conn and msg
  assume ok: "pg_ok pg" "db_wf (c_db c)"
  obtain rc c' where e: "handle_receipt_confirmation pg msg c = (rc, c')" by fastforce
  from e show "db_wf (c_db (snd (handle_receipt_confirmation pg msg c))) \<and>
      evolves (c_db c) (c_db (snd (handle_receipt_confirmation pg msg c)))"
  proof (cases rule: receipt_cases)
    case (completed n db1 t)
    from moved_wf [OF ok completed(3,4) _ completed(5), of "put_completed t"] completed show ?thesis
      by (simp add: e row_step_marks wf_marks)
  qed (use rolled_back_wf [OF _ ok(2)] in \<open>simp_all add: e\<close>)
qed

interpretation dispatch: workflow "\<lambda>pg msg c. snd (handle_dispatch_confirmation pg msg c)"
proof
  fix pg and c :: db_conn and msg
  assume ok: "pg_ok pg" "db_wf (c_db c)"
  obtain r c' where e: "handle_dispatch_confirmation pg msg c = (r, c')" by fastforce
  from e show "db_wf (c_db (snd (handle_dispatch_confirmation pg msg c))) \<and>
      evolves (c_db c) (c_db (snd (handle_dispatch_confirmation pg msg c)))"
  proof (cases rule: dispatch_cases)
    case (dispatched n db1 t)
    from moved_wf [OF ok dispatched(3,4) _ dispatched(5), of "put_dispatched t"] dispatched show ?thesis
      by (simp add: e row_step_marks wf_marks)
  qed (use rolled_back_wf [OF _ ok(2)] in \<open>simp_all add: e\<close>)
qed

interpretation shipment: workflow "\<lambda>pg msg c. snd (handle_shipment_notice pg msg c)"
proof
  fix pg and c :: db_conn and msg
  assume ok: "pg_ok pg" "db_wf (c_db c)"
  obtain r c' where e: "handle_shipment_notice pg msg c = (r, c')" by fastforce
  from e show "db_wf (c_db (snd (handle_shipment_notice pg msg c))) \<and>
      evolves (c_db c) (c_db (snd (handle_shipment_notice pg msg c)))"
  proof (cases rule: shipment_cases)
    case (dispatched n db1 t)
    from moved_wf [OF ok dispatched(4,5) _ dispatched(6), of "put_dispatched t"] dispatched show ?thesis
      by (simp add: e row_step_marks wf_marks)
  qed (use rolled_back_wf [OF _ ok(2)] in \<open>simp_all add: e\<close>)
qed

lemma evolves_insert:
  assumes wf: "db_wf db1" and seq: "db_transactions db1 = db_transactions db" "db_transaction_seq db1 = db_transaction_seq db"
    and n: "tr_id r = db_transaction_seq db1 + 1"
    and db': "db_transactions db' = map (\<lambda>x. if tr_id x = tr_id r then f x else x) (db_transactions db1 @ [r])"
    and id: "\<And>x. tr_id (f x) = tr_id x"
  shows "evolves db db'"
proof (rule evolves_map [of _ "\<lambda>x. x"])
  have "map (\<lambda>x. if tr_id x = tr_id r then f x else x) (db_transactions db1) = db_transactions db1"
    using wf n by (intro map_idI) (auto simp: db_wf_def row_ok_def)
  then show "db_transactions db' = map (\<lambda>x. x) (db_transactions db) @ [f r]"
    using db' seq by simp
  show "\<forall>x\<in>set [f r]. db_transaction_seq db < tr_id x" using n seq id by simp
qed simp

interpretation replenish: workflow "\<lambda>pg msg c. snd (handle_replenish_request pg msg c)"
proof
  fix pg and c :: db_conn and msg
  assume ok: "pg_ok pg" "db_wf (c_db c)"
  obtain r c' where e: "handle_replenish_request pg msg c = (r, c')" by fastforce
  from e show "db_wf (c_db (snd (handle_replenish_request pg msg c))) \<and>
      evolves (c_db c) (c_db (snd (handle_replenish_request pg msg c)))"
  proof (cases rule: replenish_cases)
    case (dispatched n db1 t)
    from db_wf_insert [OF ok(2) _ dispatched(4)] obtain row where
      i: "db_wf db1" "n = db_transaction_seq (c_db c) + 1" "db_transactions db1 = db_transactions (c_db c) @ [row]" "tr_id row = n"
      by auto
    have "evolves (c_db c) (c_db c')"
      by (rule evolves_insert [OF ok(2) refl refl, of row _ "put_dispatched t"])
         (use i dispatched in \<open>simp_all add: upd_txn_def\<close>)
    then show ?thesis using i(1) dispatched by (simp add: e wf_marks)
  qed (use rolled_back_wf [OF _ ok(2)] in \<open>simp add: e\<close>)
qed

interpretation stock_request: workflow "\<lambda>pg msg c. snd (handle_stock_request pg msg c)"
proof
  fix pg and c :: db_conn and msg
  assume ok: "pg_ok pg" "db_wf (c_db c)"
  obtain r c' where e: "handle_stock_request pg msg c = (r, c')" by fastforce
  from e show "db_wf (c_db (snd (handle_stock_request pg msg c))) \<and>
      evolves (c_db c) (c_db (snd (handle_stock_request pg msg c)))"
  proof (cases rule: stock_request_cases)
    case (pending n db1)
    note a = db_wf_adjust [OF ok(2) _ pending(5), simplified]
    from db_wf_insert [OF conjunct1 [OF a] _ pending(6)] obtain row where
      i: "db_wf (c_db c')" "n = db_transaction_seq db1 + 1" "db_transactions (c_db c') = db_transactions db1 @ [row]" "tr_id row = n"
      by auto
    have "evolves (c_db c) (c_db c')"
      by (rule evolves_insert [of db1 _ row _ "\<lambda>x. x"]) (use a i in simp_all)
    then show ?thesis using i(1) by (simp add: e)
  next
    case (assigned n db1 db2)
    note a = db_wf_adjust [OF ok(2) _ assigned(5), simplified]
    from db_wf_insert [OF conjunct1 [OF a] _ assigned(6)] obtain row where
      i: "db_wf db2" "n = db_transaction_seq db1 + 1" "db_transactions db2 = db_transactions db1 @ [row]" "tr_id row = n"
      by auto
    have "evolves (c_db c) (c_db c')"
      by (rule evolves_insert [of db1 _ row _ "\<lambda>x. put_assigned (put_source (sr_assigned_warehouse_id r) ''WAREHOUSE'' x)"])
         (use a i assigned(8) in \<open>simp_all add: upd_txn_def\<close>)
    then show ?thesis using i(1) assigned(8) by (simp add: e wf_marks)
  qed (use rolled_back_wf [OF _ ok(2)] in \<open>simp add: e\<close>)
qed

lemma pending_list_row:
  assumes "pg_ok pg" "t \<in> set (pending_list pg db)"
  obtains r where "r \<in> set (db_transactions db)" "t = parse_row r" "tr_status r = ''PENDING''"
proof -
  from assms(2) obtain r where "r \<in> set (pending_rows pg db)" "t = parse_row r" by (auto dest: in_set_takeD)
  with that show thesis by (auto simp: pending_rows_def scan_sets [OF assms(1)])
qed

lemma pending_list_distinct:
  assumes "pg_ok pg" "db_wf db"
  shows "distinct (map transaction_id (pending_list pg db))"
proof -
  have "mset (map tr_id (pg_scan_transactions pg (db_transactions db))) = mset (map tr_id (db_transactions db))"
    using assms(1) by (simp add: pg_ok_def)
  then have "distinct (map tr_id (pg_scan_transactions pg (db_transactions db)))"
    using assms(2) mset_eq_imp_distinct_iff by (fastforce simp: db_wf_def)
  then have "distinct (map tr_id (pending_rows pg db))"
    by (simp add: pending_rows_def distinct_map inj_on_def)
  then have "distinct (map tr_id (take k (pending_rows pg db)))" for k
    by (simp add: take_map [symmetric] distinct_take)
  then show ?thesis by (simp add: comp_def parse_row_def)
qed

lemma assign_to_wf: "db_wf db \<Longrightarrow> db_wf (assign_to cid ct n db)"
  by (simp add: assign_to_def wf_marks)

lemma assign_to_txns:
  "db_transactions (assign_to cid ct n db) =
     map (\<lambda>r. if tr_id r = n then put_assigned (put_source cid ct r) else r) (db_transactions db)"
  by (simp add: assign_to_def upd_txn_def)

lemma assign_all_txns:
  "db_transactions (assign_all cid ts db) =
     map (\<lambda>r. if tr_id r \<in> transaction_id ` set ts then put_assigned (put_source cid ''HUB'' r) else r) (db_transactions db)"
proof (induction ts arbitrary: db)
  case (Cons t ts)
  have "db_transactions (assign_all cid (t # ts) db) = db_transactions (assign_all cid ts (assign_to cid ''HUB'' (transaction_id t) db))"
    by (simp add: assign_all_def)
  also have "\<dots> = map (\<lambda>r. if tr_id r \<in> transaction_id ` set (t # ts) then put_assigned (put_source cid ''HUB'' r) else r) (db_transactions db)"
    by (simp add: Cons.IH assign_to_txns)
  finally show ?case .
qed (simp add: assign_all_def)

lemma assign_all_wf: "db_wf db \<Longrightarrow> db_wf (assign_all cid ts db)"
proof (induction ts arbitrary: db)
  case (Cons t ts)
  have "assign_all cid (t # ts) db = assign_all cid ts (assign_to cid ''HUB'' (transaction_id t) db)" by (simp add: assign_all_def)
  then show ?case using Cons by (simp add: assign_to_wf)
qed (simp add: assign_all_def)

lemma pending_assign_evolves:
  assumes ok: "pg_ok pg" "db_wf db" and ts: "set ts \<subseteq> set (pending_list pg db)" and db1: "db_transactions db1 = db_transactions db"
    and db': "db_transactions db' =
      map (\<lambda>r. if tr_id r \<in> transaction_id ` set ts then put_assigned (put_source cid ct r) else r) (db_transactions db1)"
  shows "evolves db db'"
proof (rule evolves_map [of _ "\<lambda>r. if tr_id r \<in> transaction_id ` set ts then put_assigned (put_source cid ct r) else r" _ "[]"])
  fix r
  assume r: "r \<in> set (db_transactions db)"
  have "tr_status r = ''PENDING''" if id: "tr_id r \<in> transaction_id ` set ts"
  proof -
    from id obtain t where t: "t \<in> set ts" "tr_id r = transaction_id t" by blast
    from t(1) ts have "t \<in> set (pending_list pg db)" by blast
    with ok(1) obtain s where s: "s \<in> set (db_transactions db)" "t = parse_row s" "tr_status s = ''PENDING''"
      by (rule pending_list_row)
    have "r = s" using wf_unique [OF ok(2) r s(1)] t(2) s(2) by (simp add: parse_row_def)
    with s show ?thesis by simp
  qed
  then show "row_step r (if tr_id r \<in> transaction_id ` set ts then put_assigned (put_source cid ct r) else r)"
    by (simp add: row_step_marks)
qed (use db1 db' in simp_all)

lemma gw_select_subset: "set (gw_select stock ts) \<subseteq> set ts"
  by (induction ts arbitrary: stock) auto

interpretation pending: workflow "\<lambda>pg wid c. snd (process_pending_orders pg wid c)"
proof
  fix pg and c :: db_conn and wid
  assume ok: "pg_ok pg" "db_wf (c_db c)"
  obtain r c' where e: "process_pending_orders pg wid c = (r, c')" by fastforce
  from e show "db_wf (c_db (snd (process_pending_orders pg wid c))) \<and>
      evolves (c_db c) (c_db (snd (process_pending_orders pg wid c)))"
  proof (cases rule: pending_orders_cases)
    case rolled
    then show ?thesis using rolled_back_wf [OF _ ok(2)] by (simp add: e)
  next
    case (none stock)
    then show ?thesis using db_wf_stock_read [OF ok(2) none(2)] by (simp add: e stock_read_def evolves_same)
  next
    case (assigned stock db1 t)
    from find_SomeD [OF assigned(3)] have t: "set [t] \<subseteq> set (pending_list pg (c_db c))" by simp
    have "evolves (c_db c) (c_db c')"
      by (rule pending_assign_evolves [OF ok t, of db1 _ "''WAREHOUSE''" wid]) (use assigned in \<open>simp_all add: assign_to_txns stock_read_def\<close>)
    then show ?thesis using assigned db_wf_stock_read [OF ok(2) assigned(2)] by (simp add: e assign_to_wf)
  qed
qed

interpretation gateway: workflow "\<lambda>pg hid c. snd (process_pending_gateway_orders pg hid c)"
proof
  fix pg and c :: db_conn and hid
  assume ok: "pg_ok pg" "db_wf (c_db c)"
  obtain r c' where e: "process_pending_gateway_orders pg hid c = (r, c')" by fastforce
  from e show "db_wf (c_db (snd (process_pending_gateway_orders pg hid c))) \<and>
      evolves (c_db c) (c_db (snd (process_pending_gateway_orders pg hid c)))"
  proof (cases rule: gateway_orders_cases)
    case rolled
    then show ?thesis using rolled_back_wf [OF _ ok(2)] by (simp add: e)
  next
    case (assigned stock db1)
    have "evolves (c_db c) (c_db c')"
      by (rule pending_assign_evolves [OF ok gw_select_subset [of stock], of db1 _ "''HUB''" hid]) (use assigned in \<open>simp_all add: assign_all_txns stock_read_def\<close>)
    then show ?thesis using assigned db_wf_stock_read [OF ok(2) assigned(1)] by (simp add: e assign_all_wf)
  qed
qed

lemma inventory_update_cases:
  assumes "handle_inventory_update pg msg c = (r, c')"
  obtains (thrown) "r = None" "rolled_back c c'"
    | (stored) c1 where "rolled_back c c1 \<or> sql_upsert_inventory pg (source_id msg) (source_role msg) (msg_quantities msg) (timestamp msg) (c_db c)
             = Some ((), c_db c1)"
        "(if source_role msg = ''WAREHOUSE'' then \<exists>rs. process_pending_orders pg (source_id msg) c1 = (rs, c') \<and> r = Some rs
          else c' = c1 \<and> r = Some [])"
proof -
  let ?body = "bnd (update_client_inventory pg (source_id msg) (source_role msg) (msg_quantities msg) (timestamp msg)) (\<lambda>_. commit)"
  obtain u c1 where u: "with_work ?body c = (u, c1)" by fastforce
  have seq: "db_transaction_seq (c_db c) \<le> db_transaction_seq (c_db c1)"
    using u by (rule with_work_seq [rotated]) (auto intro!: seq_mono_bnd)
  have c1: "rolled_back c c1 \<or> u = Some () \<and>
      sql_upsert_inventory pg (source_id msg) (source_role msg) (msg_quantities msg) (timestamp msg) (c_db c) = Some ((), c_db c1)"
  proof (rule with_workE [OF u], cases "source_id msg = '''' \<or> source_role msg = ''''", goal_cases)
    case (1 w)
    then show ?case using seq
      by (cases u) (auto simp: rolled_back_def update_client_inventory_def bnd_def ret_def dest!: commit_None commit_Some)
  next
    case (2 w)
    then show ?case using seq
      by (cases u) (auto simp: rolled_back_def update_client_inventory_def bnd_def ret_def split: prod.splits option.splits
          dest!: commit_None commit_Some exec_Some exec_None)
  qed
  show thesis
  proof (cases u)
    case None
    then show ?thesis using assms u c1 by (intro that(1)) (auto simp: handle_inventory_update_def)
  next
    case (Some a)
    then show ?thesis using assms u c1
      by (intro that(2) [of c1]) (auto simp: handle_inventory_update_def split: prod.splits if_splits)
  qed
qed



lemma evolves_cong:
  assumes "evolves a b" "db_transactions a = db_transactions a'" "db_transaction_seq a' \<le> db_transaction_seq a"
  shows "evolves a' b"
proof -
  from assms(1) obtain olds news where "db_transactions b = olds @ news" "list_all2 row_step (db_transactions a) olds"
    "\<forall>r\<in>set news. db_transaction_seq a < tr_id r"
    unfolding evolves_def by blast
  then show ?thesis using assms(2,3) unfolding evolves_def
    by (intro exI [of _ olds] exI [of _ news]) auto
qed

interpretation inventory_update: workflow "\<lambda>pg msg c. snd (handle_inventory_update pg msg c)"
proof
  fix pg and c :: db_conn and msg
  assume ok: "pg_ok pg" "db_wf (c_db c)"
  obtain r c' where e: "handle_inventory_update pg msg c = (r, c')" by fastforce
  from e show "db_wf (c_db (snd (handle_inventory_update pg msg c))) \<and>
      evolves (c_db c) (c_db (snd (handle_inventory_update pg msg c)))"
  proof (cases rule: inventory_update_cases)
    case thrown
    then show ?thesis using rolled_back_wf [OF _ ok(2)] by (simp add: e)
  next
    case (stored c1)
    have c1: "db_wf (c_db c1) \<and> db_transactions (c_db c1) = db_transactions (c_db c)
        \<and> db_transaction_seq (c_db c) \<le> db_transaction_seq (c_db c1)"
      using stored(1) db_wf_upsert [OF ok(2) length_extract] rolled_back_wf [OF _ ok(2)]
      by (fastforce simp: rolled_back_def same_tables_def)
    then have "db_wf (c_db c') \<and> evolves (c_db c1) (c_db c')"
      using stored(2) pending.keeps [OF ok(1), of c1 "source_id msg"] by (auto simp: evolves_same split: if_splits)
    then show ?thesis using evolves_cong [of "c_db c1" "c_db c'" "c_db c"] c1 by (simp add: e)
  qed
qed

section \<open>Runs of workflows\<close>

datatype inv_event =
    Inventory_update message_t
  | Stock_request message_t
  | Replenish_request message_t
  | Receipt_confirmation message_t
  | Dispatch_confirmation message_t
  | Shipment_notice message_t
  | Pending_orders string
  | Gateway_orders string

fun inv_step :: "pg_env \<Rightarrow> inv_event \<Rightarrow> db_conn \<Rightarrow> db_conn" where
  "inv_step pg (Inventory_update msg) c = snd (handle_inventory_update pg msg c)"
| "inv_step pg (Stock_request msg) c = snd (handle_stock_request pg msg c)"
| "inv_step pg (Replenish_request msg) c = snd (handle_replenish_request pg msg c)"
| "inv_step pg (Receipt_confirmation msg) c = snd (handle_receipt_confirmation pg msg c)"
| "inv_step pg (Dispatch_confirmation msg) c = snd (handle_dispatch_confirmation pg msg c)"
| "inv_step pg (Shipment_notice msg) c = snd (handle_shipment_notice pg msg c)"
| "inv_step pg (Pending_orders wid) c = snd (process_pending_orders pg wid c)"
| "inv_step pg (Gateway_orders hid) c = snd (process_pending_gateway_orders pg hid c)"

interpretation any_workflow: workflow inv_step
proof
  fix pg and c :: db_conn and e
  assume "pg_ok pg" "db_wf (c_db c)"
  then show "db_wf (c_db (inv_step pg e c)) \<and> evolves (c_db c) (c_db (inv_step pg e c))"
    by (cases e) (simp_all add: inventory_update.keeps stock_request.keeps replenish.keeps receipt.keeps
        dispatch.keeps shipment.keeps pending.keeps gateway.keeps)
qed

text \<open>What any number of steps leaves of a row: its identity and contents, a status no earlier than before,
  and its source once it has left \<^verbatim>\<open>PENDING\<close>.\<close>

definition row_after :: "txn_row \<Rightarrow> txn_row \<Rightarrow> bool" where
  "row_after r r' \<longleftrightarrow> tr_id r' = tr_id r \<and> tr_type r' = tr_type r \<and> tr_destination_id r' = tr_destination_id r
     \<and> tr_quantities r' = tr_quantities r \<and> tr_order_timestamp r' = tr_order_timestamp r
     \<and> status_rank (tr_status r) \<le> status_rank (tr_status r')
     \<and> (tr_status r \<noteq> ''PENDING'' \<longrightarrow> tr_source_id r' = tr_source_id r)"

lemma row_step_after: "row_step r r' \<Longrightarrow> row_after r r'"
  by (auto simp: row_step_def row_after_def)

lemma rank_0: "status_rank s = 0 \<longleftrightarrow> s = ''PENDING''"
  by (simp add: status_rank.simps)

lemma row_after_trans: "row_after a b \<Longrightarrow> row_after b c \<Longrightarrow> row_after a c"
  using rank_0 [of "tr_status a"] rank_0 [of "tr_status b"] by (auto simp: row_after_def)

definition progresses :: "database \<Rightarrow> database \<Rightarrow> bool" where
  "progresses a b \<longleftrightarrow> (\<forall>r\<in>set (db_transactions a). \<exists>r'\<in>set (db_transactions b). row_after r r')"

lemma evolves_progresses: "evolves a b \<Longrightarrow> progresses a b"
  unfolding evolves_def progresses_def
  by (force simp: list_all2_conv_all_nth in_set_conv_nth [of _ "db_transactions a"] intro!: row_step_after)

lemma progresses_trans: "progresses a b \<Longrightarrow> progresses b c \<Longrightarrow> progresses a c"
  unfolding progresses_def by (meson row_after_trans)

context workflow
begin

lemma run_progresses:
  assumes "pg_ok pg" "db_wf (c_db c)"
  shows "db_wf (c_db (foldl (\<lambda>c e. step pg e c) c es)) \<and> progresses (c_db c) (c_db (foldl (\<lambda>c e. step pg e c) c es))"
  using assms(2)
proof (induction es arbitrary: c)
  case Nil
  then show ?case by (auto simp: progresses_def row_after_def)
next
  case (Cons e es)
  note k = keeps [OF assms(1) Cons.prems, of e]
  from Cons.IH [OF conjunct1 [OF k]] show ?case
    using progresses_trans [OF evolves_progresses [OF conjunct2 [OF k]]] by simp
qed

end

section \<open>Stock behind an assignment\<close>

lemma warehouse_chosen:
  assumes "pg_ok pg" "sql_warehouse_with_stock pg q db = Some (Some wh, db')"
  obtains row where "row \<in> set (db_inventory db)" "cr_client_id row = wh" "cr_client_type row = ''WAREHOUSE''" "has_stock q row"
proof -
  let ?rows = "filter (\<lambda>r. cr_client_type r = ''WAREHOUSE'' \<and> has_stock q r) (pg_scan_inventory pg (db_inventory db))"
  let ?k = "if ?rows = [] then 0 else pg_random_offset pg (length ?rows)"
  from assms(2) obtain r rs where r: "drop ?k ?rows = r # rs" "cr_client_id r = wh"
    unfolding sql_warehouse_with_stock_def Let_def by (auto split: list.splits)
  have "r \<in> set ?rows" using in_set_dropD [of r ?k ?rows] r(1) by simp
  then show thesis using r(2) by (intro that [of r]) (simp_all add: scan_sets [OF assms(1)])
qed

lemma warehouse_missing:
  assumes "pg_ok pg" "sql_warehouse_with_stock pg q db = Some (None, db')" "row \<in> set (db_inventory db)"
    "cr_client_type row = ''WAREHOUSE''"
  shows "\<not> has_stock q row"
proof
  let ?rows = "filter (\<lambda>r. cr_client_type r = ''WAREHOUSE'' \<and> has_stock q r) (pg_scan_inventory pg (db_inventory db))"
  assume "has_stock q row"
  then have "row \<in> set ?rows" using assms(3,4) by (simp add: scan_sets [OF assms(1)])
  then have ne: "?rows \<noteq> []" by (metis list.set_cases list.discI)
  then have "pg_random_offset pg (length ?rows) < length ?rows" using assms(1) by (simp add: pg_ok_def)
  then have "drop (pg_random_offset pg (length ?rows)) ?rows \<noteq> []" by simp
  then show False using assms(2) ne unfolding sql_warehouse_with_stock_def Let_def
    by (simp split: list.splits)
qed

lemma adjust_others:
  assumes "sql_adjust_inventory pg cid q add db = Some ((), db')" "cid \<noteq> k"
  shows "filter (\<lambda>r. cr_client_id r = k) (db_inventory db') = filter (\<lambda>r. cr_client_id r = k) (db_inventory db)"
proof -
  have f: "filter (\<lambda>r. cr_client_id r = k) (map (\<lambda>r. if cr_client_id r = cid then g r else r) xs)
      = filter (\<lambda>r. cr_client_id r = k) xs" if "\<And>r. cr_client_id (g r) = cr_client_id r" for g xs
    using that assms(2) by (induction xs) auto
  show ?thesis using assms(1)
    by (auto simp: sql_adjust_inventory_def f split: option.splits)
qed

lemma insert_inventory: "sql_insert_transaction pg ty did dt q ts db = Some (n, db') \<Longrightarrow> db_inventory db' = db_inventory db"
  by (auto simp: sql_insert_transaction_def Let_def split: option.splits if_splits)

lemma upd_txn_inventory [simp]: "db_inventory (upd_txn n f db) = db_inventory db"
  by (simp add: upd_txn_def)

lemma adjust_ids:
  assumes "sql_adjust_inventory pg cid q add db = Some ((), db')"
  shows "cr_client_id ` set (db_inventory db') = cr_client_id ` set (db_inventory db)"
proof -
  have "map cr_client_id (db_inventory db') = map cr_client_id (db_inventory db)"
    using assms by (auto simp: sql_adjust_inventory_def split: option.splits)
  then show ?thesis by (metis list.set_map)
qed

lemma insert_row:
  assumes "sql_insert_transaction pg ty did dt q ts db = Some (n, db')"
  obtains row where "db_transactions db' = db_transactions db @ [row]" "tr_id row = n" "tr_status row = ''PENDING''"
    "tr_source_id row = None" "tr_destination_id row = Some did" "tr_quantities row = q"
  using assms by (auto simp: sql_insert_transaction_def int4_all_eq Let_def split: option.splits if_splits)

section \<open>Properties\<close>

text \<open>C12: Any sequence of inventory workflows, with any messages and any failing statements, keeps the database
  well formed (unique transaction ids below the sequence, known statuses, one row per client, six stock
  columns) and only moves transactions forward: no transaction disappears, changes its type, destination,
  quantities or order time, steps back from a later status to an earlier one, or changes the source it was
  assigned from once it has left \<^verbatim>\<open>PENDING\<close>.\<close>

theorem transactions_only_advance:
  assumes "pg_ok pg" "db_wf (c_db c)"
  shows "db_wf (c_db (foldl (\<lambda>c e. inv_step pg e c) c es)) \<and> progresses (c_db c) (c_db (foldl (\<lambda>c e. inv_step pg e c) c es))"
  using any_workflow.run_progresses [OF assms] .


text \<open>C14: A stock request that succeeds is either assigned to a warehouse whose stock covers every requested
  quantity, with the new transaction \<^verbatim>\<open>ASSIGNED\<close> from that warehouse to the requesting client, or it is left
  \<^verbatim>\<open>PENDING\<close> and no warehouse could have covered it.\<close>

theorem stock_request_assignment_sound:
  assumes "pg_ok pg" "db_wf (c_db c)" "\<forall>row\<in>set (db_inventory (c_db c)). cr_client_id row \<noteq> ''''"
    and "handle_stock_request pg msg c = (r, c')" "sr_success r"
  shows "\<exists>t\<in>set (db_transactions (c_db c')). tr_id t = sr_transaction_id r \<and> tr_destination_id t = Some (source_id msg)
     \<and> tr_quantities t = extract_quantities_from_payload (load_items_list (payload msg))
     \<and> (if sr_warehouse_assigned r
        then tr_status t = ''ASSIGNED'' \<and> tr_source_id t = Some (sr_assigned_warehouse_id r)
          \<and> (\<exists>row\<in>set (db_inventory (c_db c')). cr_client_id row = sr_assigned_warehouse_id r
               \<and> cr_client_type row = ''WAREHOUSE'' \<and> has_stock (tr_quantities t) row)
        else tr_status t = ''PENDING'' \<and> tr_source_id t = None
          \<and> (\<forall>row\<in>set (db_inventory (c_db c')). cr_client_type row = ''WAREHOUSE'' \<longrightarrow> \<not> has_stock (tr_quantities t) row))"
  using assms(4)
proof (cases rule: stock_request_cases)
  case failed
  then show ?thesis using assms(5) by simp
next
  case (pending n db1)
  obtain row where row: "row \<in> set (db_transactions (c_db c'))" "tr_id row = n" "tr_status row = ''PENDING''" "tr_source_id row = None"
    "tr_destination_id row = Some (source_id msg)" "tr_quantities row = msg_quantities msg"
    by (rule insert_row [OF pending(6)]) auto
  have named: "\<forall>k\<in>cr_client_id ` set (db_inventory (c_db c')). k \<noteq> ''''"
    using assms(3) adjust_ids [OF pending(5)] insert_inventory [OF pending(6)] by auto
  obtain x where x: "sql_warehouse_with_stock pg (msg_quantities msg) (c_db c') = Some (x, c_db c')" "opt_str x = ''''"
    using pending(7) by blast
  have "x = None"
  proof (rule ccontr)
    assume "x \<noteq> None"
    with x have "sql_warehouse_with_stock pg (msg_quantities msg) (c_db c') = Some (Some '''', c_db c')"
      by (auto simp: opt_str_def)
    from warehouse_chosen [OF assms(1) this] named show False by (metis image_eqI)
  qed
  then have "\<forall>row\<in>set (db_inventory (c_db c')). cr_client_type row = ''WAREHOUSE'' \<longrightarrow> \<not> has_stock (msg_quantities msg) row"
    using warehouse_missing [OF assms(1)] x(1) by blast
  with row pending show ?thesis by (intro bexI [of _ row]) simp_all
next
  case (assigned n db1 db2)
  obtain row where row: "row \<in> set (db_transactions db2)" "tr_id row = n"
    "tr_destination_id row = Some (source_id msg)" "tr_quantities row = msg_quantities msg"
    by (rule insert_row [OF assigned(6)]) auto
  let ?t = "put_assigned (put_source (sr_assigned_warehouse_id r) ''WAREHOUSE'' row)"
  have t: "?t \<in> set (db_transactions (c_db c'))"
    using row(1,2) unfolding assigned(8) by (auto simp: upd_txn_def image_iff intro!: bexI [of _ row])
  from warehouse_chosen [OF assms(1) assigned(7)] assigned(8) obtain wh where
    "wh \<in> set (db_inventory (c_db c'))" "cr_client_id wh = sr_assigned_warehouse_id r"
    "cr_client_type wh = ''WAREHOUSE''" "has_stock (msg_quantities msg) wh"
    by auto
  with row assigned show ?thesis by (intro bexI [OF _ t]) auto
qed

text \<open>A stock request reserves nothing: every other client's inventory row, the assigned warehouse's
  included, is left as it was, so that the next request is checked against the same stock.\<close>

theorem stock_request_reserves_nothing:
  assumes "handle_stock_request pg msg c = (r, c')" "k \<noteq> source_id msg"
  shows "filter (\<lambda>row. cr_client_id row = k) (db_inventory (c_db c')) = filter (\<lambda>row. cr_client_id row = k) (db_inventory (c_db c))"
  using assms(1)
proof (cases rule: stock_request_cases)
  case failed
  then show ?thesis by (simp add: rolled_back_def same_tables_def)
next
  case (pending n db1)
  then show ?thesis using adjust_others [OF pending(5), of k] insert_inventory [OF pending(6)] assms(2) by simp
next
  case (assigned n db1 db2)
  then show ?thesis using adjust_others [OF assigned(5), of k] insert_inventory [OF assigned(6)] assms(2) by simp
qed

lemma gw_select_within:
  assumes "length stock = QUANTITY_ITEMS" "\<forall>t\<in>set ts. length (rec_quantities t) = QUANTITY_ITEMS" "j < QUANTITY_ITEMS"
    and "take k (gw_select stock ts) \<noteq> []"
  shows "(\<Sum>t\<leftarrow>take k (gw_select stock ts). rec_quantities t ! j) \<le> stock ! j"
  using assms
proof (induction ts arbitrary: stock k)
  case (Cons t ts)
  let ?rest = "map2 (-) stock (rec_quantities t)"
  show ?case
  proof (cases "transaction_type t = ''ORDER_DISPATCH'' \<and> can_fulfill (rec_quantities t) stock")
    case True
    obtain k' where k: "k = Suc k'" using Cons.prems(4) by (cases k) auto
    from True have "rec_quantities t ! j \<le> stock ! j" using Cons.prems(3) by (auto simp: can_fulfill_def not_less)
    moreover have "?rest ! j = stock ! j - rec_quantities t ! j" using Cons.prems by simp
    moreover have "(\<Sum>t\<leftarrow>take k' (gw_select ?rest ts). rec_quantities t ! j) \<le> ?rest ! j" if "take k' (gw_select ?rest ts) \<noteq> []"
      using Cons.IH [of ?rest k'] Cons.prems that by simp
    ultimately show ?thesis using True k by (cases "take k' (gw_select ?rest ts) = []") auto
  next
    case False
    then show ?thesis using Cons by auto
  qed
qed simp

lemma gw_select_subseq: "subseq (gw_select stock ts) ts"
  by (induction ts arbitrary: stock) auto

lemma gw_select_type: "\<forall>t\<in>set (gw_select stock ts). transaction_type t = ''ORDER_DISPATCH''"
  by (induction ts arbitrary: stock) auto

text \<open>C15: The gateway orders assigned to a hub in one pass are, in the order they were placed, pending gateway
  orders that together never ask for more of an item than the hub had when the pass began.\<close>

theorem gateway_orders_within_stock:
  assumes "pg_ok pg" "db_wf (c_db c)" "process_pending_gateway_orders pg hid c = (rs, c')" "rs \<noteq> []" "j < QUANTITY_ITEMS"
  shows "\<exists>stock db1 sel. stock_read hid stock (c_db c) db1 \<and> rs = map (gw_order hid) sel
     \<and> subseq sel (pending_list pg (c_db c)) \<and> (\<forall>t\<in>set sel. transaction_type t = ''ORDER_DISPATCH'')
     \<and> (\<Sum>t\<leftarrow>sel. rec_quantities t ! j) \<le> stock ! j"
proof -
  have sel: "\<exists>stock db1 k. stock_read hid stock (c_db c) db1
      \<and> rs = map (gw_order hid) (take k (gw_select stock (pending_list pg (c_db c))))"
    using assms(3)
  proof (cases rule: gateway_orders_cases)
    case (assigned stock db1)
    then show ?thesis by (intro exI [of _ stock] exI [of _ db1] exI [of _ "length (gw_select stock (pending_list pg (c_db c)))"]) simp
  qed (use assms(4) in blast)
  then obtain stock db1 k where s: "stock_read hid stock (c_db c) db1"
    "rs = map (gw_order hid) (take k (gw_select stock (pending_list pg (c_db c))))" by blast
  let ?sel = "take k (gw_select stock (pending_list pg (c_db c)))"
  have len: "\<forall>t\<in>set (pending_list pg (c_db c)). length (rec_quantities t) = QUANTITY_ITEMS"
    using pending_list_row [OF assms(1)] assms(2) by (force simp: db_wf_def row_ok_def parse_row_def)
  have "(\<Sum>t\<leftarrow>?sel. rec_quantities t ! j) \<le> stock ! j"
    by (rule gw_select_within [OF _ len assms(5)]) (use db_wf_stock_read [OF assms(2) s(1)] assms(4) s(2) in simp_all)
  moreover have "subseq ?sel (pending_list pg (c_db c))"
    by (rule subseq_order.trans [OF prefix_imp_subseq [OF take_is_prefix] gw_select_subseq])
  moreover have "\<forall>t\<in>set ?sel. transaction_type t = ''ORDER_DISPATCH''"
    using gw_select_type by (fast dest: in_set_takeD)
  ultimately show ?thesis using s by blast
qed

text \<open>Re-evaluating the pending orders for a warehouse answers at most one of them: the oldest request (by
  order time, within the hundred oldest pending transactions) that is not a gateway order and that the stock
  read for the warehouse covers; every older one is a gateway order or asks for more than the stock.\<close>

theorem pending_orders_oldest_first:
  assumes "process_pending_orders pg wid c = (rs, c')" "rs \<noteq> []"
  shows "\<exists>t older newer stock db1. rs = [wh_order wid t] \<and> stock_read wid stock (c_db c) db1
     \<and> map parse_row (take MAX_PENDING_TRANSACTIONS (pending_rows pg (c_db c))) = older @ t # newer
     \<and> transaction_type t \<noteq> ''ORDER_DISPATCH'' \<and> can_fulfill (rec_quantities t) stock
     \<and> (\<forall>u\<in>set older. transaction_type u = ''ORDER_DISPATCH'' \<or> \<not> can_fulfill (rec_quantities u) stock)
     \<and> sorted (map tr_order_timestamp (pending_rows pg (c_db c)))"
proof -
  obtain stock db1 t where t: "rs = [wh_order wid t]" "stock_read wid stock (c_db c) db1"
    "find (wh_eligible stock) (pending_list pg (c_db c)) = Some t"
    using assms(1) by (cases rule: pending_orders_cases) (use assms(2) in auto)
  from t(3) obtain i where i: "i < length (pending_list pg (c_db c))" "wh_eligible stock (pending_list pg (c_db c) ! i)"
    "t = pending_list pg (c_db c) ! i" "\<forall>j<i. \<not> wh_eligible stock (pending_list pg (c_db c) ! j)"
    unfolding find_Some_iff by blast
  let ?l = "pending_list pg (c_db c)"
  have "?l = take i ?l @ t # drop (Suc i) ?l" using i(1,3) by (simp only: id_take_nth_drop [symmetric])
  moreover have "\<forall>u\<in>set (take i ?l). \<not> wh_eligible stock u" using i(1,4) by (auto simp: in_set_conv_nth simp del: take_map)
  moreover have "sorted (map tr_order_timestamp (pending_rows pg (c_db c)))" by (simp add: pending_rows_def)
  ultimately show ?thesis using t(1,2) i(2,3) unfolding wh_eligible_def
    by (intro exI [of _ t] exI [of _ "take i ?l"] exI [of _ "drop (Suc i) ?l"] exI [of _ stock] exI [of _ db1] conjI) auto
qed

section \<open>Example runs\<close>

definition demo_pg :: pg_env where
  "demo_pg = \<lparr>pg_timestamp = (\<lambda>_. Some 7), pg_now = 7, pg_scan_inventory = (\<lambda>rs. rs), pg_scan_transactions = (\<lambda>rs. rs),
     pg_random_offset = (\<lambda>_. 0)\<rparr>"

definition demo_conn :: db_conn where
  "demo_conn = \<lparr>c_db = \<lparr>db_credentials = [],
     db_inventory = [\<lparr>cr_client_id = ''hub1'', cr_client_type = ''HUB'', cr_stock = [5, 5, 5, 5, 5, 5], cr_last_updated = 0\<rparr>,
        \<lparr>cr_client_id = ''wh1'', cr_client_type = ''WAREHOUSE'', cr_stock = [15, 0, 0, 0, 0, 0], cr_last_updated = 0\<rparr>],
     db_transactions = [\<lparr>tr_id = 1, tr_type = ''STOCK_REQUEST'', tr_source_id = None, tr_source_type = None,
        tr_destination_id = Some ''hub1'', tr_destination_type = Some ''HUB'', tr_status = ''PENDING'',
        tr_quantities = [12, 0, 0, 0, 0, 0], tr_order_timestamp = 3, tr_dispatch_timestamp = None, tr_reception_timestamp = None\<rparr>,
        \<lparr>tr_id = 2, tr_type = ''ORDER_DISPATCH'', tr_source_id = None, tr_source_type = None,
        tr_destination_id = Some ''hub1'', tr_destination_type = Some ''HUB'', tr_status = ''PENDING'',
        tr_quantities = [4, 0, 0, 0, 0, 0], tr_order_timestamp = 4, tr_dispatch_timestamp = None, tr_reception_timestamp = None\<rparr>],
     db_credential_seq = 0, db_transaction_seq = 2\<rparr>, c_faults = []\<rparr>"

text \<open>A request of \<^verbatim>\<open>hub1\<close> for ten units of the first item.\<close>

definition demo_request :: message_t where
  "demo_request = \<lparr>msg_type = ''HUB_TO_SERVER__STOCK_REQUEST'', source_role = ''HUB'', source_id = ''hub1'', target_role = ''SERVER'',
     target_id = ''SERVER'', timestamp = ''now'',
     payload = int_bytes 1 @ replicate 32 NUL @ int_bytes 10 @ replicate 232 NUL, checksum = ''''\<rparr>"

lemma demo_quantities: "extract_quantities_from_payload (load_items_list (payload demo_request)) = [10, 0, 0, 0, 0, 0]"
  by code_simp

lemma demo_pg_ok: "pg_ok demo_pg"
  by (simp add: pg_ok_def demo_pg_def)

lemma demo_wf: "db_wf (c_db demo_conn)"
  by (simp add: demo_conn_def db_wf_def row_ok_def QUANTITY_ITEMS_def)

lemma demo_stock_request:
  "case handle_stock_request demo_pg demo_request demo_conn of (r, c') \<Rightarrow>
     sr_success r \<and> sr_warehouse_assigned r \<and> sr_assigned_warehouse_id r = ''wh1'' \<and> sr_transaction_id r = 3"
  by code_simp

lemma demo_pending: "process_pending_orders demo_pg ''wh1'' demo_conn =
    ([wh_order ''wh1'' (parse_row (db_transactions (c_db demo_conn) ! 0))],
     snd (process_pending_orders demo_pg ''wh1'' demo_conn))"
  by code_simp

lemma demo_gateway: "fst (process_pending_gateway_orders demo_pg ''hub1'' demo_conn) =
    [gw_order ''hub1'' (parse_row (db_transactions (c_db demo_conn) ! 1))]"
  by code_simp

theorem transactions_only_advance_witness:
  "progresses (c_db demo_conn) (c_db (foldl (\<lambda>c e. inv_step demo_pg e c) demo_conn
     [Stock_request demo_request, Pending_orders ''wh1'', Gateway_orders ''hub1'']))"
  using transactions_only_advance [OF demo_pg_ok demo_wf] by blast


theorem stock_request_assignment_sound_witness:
  "\<exists>row\<in>set (db_inventory (c_db (snd (handle_stock_request demo_pg demo_request demo_conn)))).
     cr_client_id row = ''wh1'' \<and> has_stock [10, 0, 0, 0, 0, 0] row"
proof -
  obtain r c' where e: "handle_stock_request demo_pg demo_request demo_conn = (r, c')" by fastforce
  have d: "sr_success r" "sr_warehouse_assigned r" "sr_assigned_warehouse_id r = ''wh1''" using demo_stock_request by (simp_all add: e)
  have "\<forall>row\<in>set (db_inventory (c_db demo_conn)). cr_client_id row \<noteq> ''''" by (simp add: demo_conn_def)
  from stock_request_assignment_sound [OF demo_pg_ok demo_wf this e d(1)] show ?thesis
    using d demo_quantities by (auto simp: e)
qed

theorem gateway_orders_within_stock_witness:
  "\<exists>stock db1 sel. stock_read ''hub1'' stock (c_db demo_conn) db1
     \<and> fst (process_pending_gateway_orders demo_pg ''hub1'' demo_conn) = map (gw_order ''hub1'') sel \<and> sel \<noteq> []
     \<and> (\<Sum>t\<leftarrow>sel. rec_quantities t ! 0) \<le> stock ! 0"
proof -
  obtain rs c' where e: "process_pending_gateway_orders demo_pg ''hub1'' demo_conn = (rs, c')" by fastforce
  have rs: "rs \<noteq> []" using demo_gateway by (simp add: e)
  have "0 < QUANTITY_ITEMS" by (simp add: QUANTITY_ITEMS_def)
  from gateway_orders_within_stock [OF demo_pg_ok demo_wf e rs this] rs show ?thesis by (auto simp: e)
qed

theorem pending_orders_oldest_first_witness:
  "\<exists>t stock db1. fst (process_pending_orders demo_pg ''wh1'' demo_conn) = [wh_order ''wh1'' t]
     \<and> stock_read ''wh1'' stock (c_db demo_conn) db1 \<and> can_fulfill (rec_quantities t) stock"
proof -
  obtain rs c' where e: "process_pending_orders demo_pg ''wh1'' demo_conn = (rs, c')" by fastforce
  have rs: "rs \<noteq> []" using demo_pending by (simp add: e)
  from pending_orders_oldest_first [OF e rs] show ?thesis by (auto simp: e)
qed

text \<open>When the commit that ends a pass over the pending orders fails, the pass still reports the order as
  fulfilled although nothing of the assignment is in the database.\<close>

theorem fulfilled_although_commit_failed:
  "\<exists>pg c wid rs c'. pg_ok pg \<and> db_wf (c_db c) \<and> process_pending_orders pg wid c = (rs, c') \<and> rs \<noteq> []
     \<and> list_all sr_success rs \<and> same_tables (c_db c) (c_db c')"
proof -
  let ?c = "demo_conn\<lparr>c_faults := [False, False, False, False, True]\<rparr>"
  have "case process_pending_orders demo_pg ''wh1'' ?c of (rs, c') \<Rightarrow>
      rs \<noteq> [] \<and> list_all sr_success rs \<and> same_tables (c_db ?c) (c_db c')"
    by code_simp
  moreover have "db_wf (c_db ?c)" using demo_wf by simp
  ultimately show ?thesis using demo_pg_ok by (intro exI [of _ demo_pg] exI [of _ ?c] exI [of _ "''wh1''"]) (simp split: prod.splits)
qed

lemma not_found:
  assumes "pg_ok pg" "\<forall>t\<in>set (db_transactions db). \<not> txn_matches sid did st t"
  shows "sql_find_transaction pg sid did st db = Some (- 1, db)"
proof -
  have "filter (txn_matches sid did st) (pg_scan_transactions pg (db_transactions db)) = []"
    using assms(2) by (simp add: filter_empty_conv scan_sets [OF assms(1)])
  then show ?thesis by (simp add: sql_find_transaction_def)
qed

text \<open>Confirmations are not applied twice. When no transaction to the client is \<^verbatim>\<open>DISPATCHED\<close>, a receipt
  confirmation from it changes no table, and when none from the client is \<^verbatim>\<open>ASSIGNED\<close>, a dispatch confirmation
  or a shipment notice changes none: a repeated message cannot move stock again.\<close>

theorem repeated_confirmation_harmless:
  assumes "pg_ok pg"
  shows "((\<forall>t\<in>set (db_transactions (c_db c)). \<not> txn_matches '''' (source_id msg) ''DISPATCHED'' t) \<longrightarrow>
       same_tables (c_db c) (c_db (snd (handle_receipt_confirmation pg msg c))))
    \<and> ((\<forall>t\<in>set (db_transactions (c_db c)). \<not> txn_matches (source_id msg) '''' ''ASSIGNED'' t) \<longrightarrow>
       same_tables (c_db c) (c_db (snd (handle_dispatch_confirmation pg msg c)))
       \<and> same_tables (c_db c) (c_db (snd (handle_shipment_notice pg msg c))))"
proof (intro conjI impI)
  assume "\<forall>t\<in>set (db_transactions (c_db c)). \<not> txn_matches '''' (source_id msg) ''DISPATCHED'' t"
  note nf = not_found [OF assms this]
  obtain r c' where e: "handle_receipt_confirmation pg msg c = (r, c')" by fastforce
  then show "same_tables (c_db c) (c_db (snd (handle_receipt_confirmation pg msg c)))"
    by (cases rule: receipt_cases) (use nf in \<open>simp_all add: rolled_back_def e\<close>)
next
  assume "\<forall>t\<in>set (db_transactions (c_db c)). \<not> txn_matches (source_id msg) '''' ''ASSIGNED'' t"
  note nf = not_found [OF assms this]
  obtain r c' where e: "handle_dispatch_confirmation pg msg c = (r, c')" by fastforce
  then show "same_tables (c_db c) (c_db (snd (handle_dispatch_confirmation pg msg c)))"
    by (cases rule: dispatch_cases) (use nf in \<open>simp_all add: rolled_back_def e\<close>)
next
  assume "\<forall>t\<in>set (db_transactions (c_db c)). \<not> txn_matches (source_id msg) '''' ''ASSIGNED'' t"
  note nf = not_found [OF assms this]
  obtain r c' where e: "handle_shipment_notice pg msg c = (r, c')" by fastforce
  then show "same_tables (c_db c) (c_db (snd (handle_shipment_notice pg msg c)))"
    by (cases rule: shipment_cases) (use nf in \<open>simp_all add: rolled_back_def e\<close>)
qed

theorem repeated_confirmation_harmless_witness:
  "same_tables (c_db demo_conn) (c_db (snd (handle_receipt_confirmation demo_pg demo_request demo_conn)))"
proof -
  have "\<forall>t\<in>set (db_transactions (c_db demo_conn)). \<not> txn_matches '''' (source_id demo_request) ''DISPATCHED'' t" by code_simp
  then show ?thesis using repeated_confirmation_harmless [OF demo_pg_ok, of demo_conn demo_request] by blast
qed

end
