(* ===== verification/Message_Handler.thy ===== *)
theory Message_Handler
  imports Ipc Auth_Module Inventory_Workflows
begin

text \<open>
  The message handler of the worker process (\<^verbatim>\<open>include/server/message_handler.hpp\<close>,
  \<^verbatim>\<open>src/server/message_handler.cpp\<close>): it turns a request slot into response commands for the reactor and
  changes the database through the authentication module and the inventory manager. The plug-ins are
  the function pointers the constructor may have loaded; \<open>tv n\<close> is the \<open>n\<close>-th reading of the clock during
  a call. An exception that leaves a function is \<open>Thrown\<close>; copying more bytes into a slot than its
  payload array holds is \<open>Overrun\<close>.
\<close>

section \<open>Data\<close>

datatype message_category =
    AUTH_REQUEST | ACK_MESSAGE | KEEPALIVE_MSG | INV_UPDATE | STOCK_REQ | RECEIPT_CONFIRM | DISPATCH_NOTICE
  | REPLENISH_REQ | DISPATCH_CONFIRM | EMERGENCY_ALERT | CLI_COMMAND | GATEWAY_COMMAND | OTHER

datatype 'a outcome = Returned 'a | Thrown | Overrun

record gateway_side_effect_t =
  gs_target_username :: string
  gs_send_json :: string

text \<open>A plug-in call gives \<open>None\<close> for a non-zero return code, otherwise the response text (and a message to forward).\<close>

record handler_config =
  m_ack_timeout_seconds :: u32
  m_max_retries :: u32
  m_keepalive_timeout_seconds :: u32
  m_admin_handle :: "(string \<Rightarrow> db_conn \<Rightarrow> string option \<times> db_conn) option"
  m_gateway_handle :: "(string \<Rightarrow> db_conn \<Rightarrow> (string \<times> gateway_side_effect_t option) option \<times> db_conn) option"

record mh_state =
  m_dead_sessions :: "string list"
  mh_conn :: db_conn

section \<open>Response slots\<close>

definition with_json :: "'j cjson \<Rightarrow> message_t \<Rightarrow> response_slot_t \<Rightarrow> response_slot_t" where
  "with_json cj msg slot =
     (case serialize_message_to_json cj msg of
        Inl _ \<Rightarrow> slot
      | Inr json \<Rightarrow> slot\<lparr>rs_payload := json, rs_payload_len := of_nat (length json)\<rparr>)"

definition make_send_response :: "'j cjson \<Rightarrow> string \<Rightarrow> message_t \<Rightarrow> response_slot_t" where
  "make_send_response cj sid msg =
     with_json cj msg (zero_response\<lparr>rs_command := SEND, rs_session_id := strncpy_field SESSION_ID_SIZE sid\<rparr>)"

definition make_send_to_username :: "handler_config \<Rightarrow> 'j cjson \<Rightarrow> string \<Rightarrow> message_t \<Rightarrow> response_slot_t" where
  "make_send_to_username cfg cj user msg =
     (with_json cj msg (zero_response\<lparr>rs_command := SEND, rs_target_username := strncpy_field CREDENTIALS_SIZE user\<rparr>))
       \<lparr>rs_start_ack_timer := True, rs_timer_key := strncpy_field TIMESTAMP_SIZE (timestamp msg),
        rs_timer_timeout := m_ack_timeout_seconds cfg, rs_retry_count := 0, rs_max_retries := m_max_retries cfg\<rparr>"

definition make_start_timer :: "handler_config \<Rightarrow> 'j cjson \<Rightarrow> string \<Rightarrow> message_t \<Rightarrow> response_slot_t" where
  "make_start_timer cfg cj sid msg =
     with_json cj msg (zero_response\<lparr>rs_command := START_ACK_TIMER, rs_session_id := strncpy_field SESSION_ID_SIZE sid,
       rs_timer_key := strncpy_field TIMESTAMP_SIZE (timestamp msg), rs_timer_timeout := m_ack_timeout_seconds cfg,
       rs_retry_count := 0, rs_max_retries := m_max_retries cfg\<rparr>)"

definition make_cancel_timer :: "string \<Rightarrow> string \<Rightarrow> response_slot_t" where
  "make_cancel_timer sid ts = zero_response\<lparr>rs_command := CANCEL_ACK_TIMER,
     rs_session_id := strncpy_field SESSION_ID_SIZE sid, rs_timer_key := strncpy_field TIMESTAMP_SIZE ts\<rparr>"

definition make_clear_timers :: "string \<Rightarrow> response_slot_t" where
  "make_clear_timers sid = zero_response\<lparr>rs_command := CLEAR_TIMERS, rs_session_id := strncpy_field SESSION_ID_SIZE sid\<rparr>"

definition make_blacklist :: "string \<Rightarrow> response_slot_t" where
  "make_blacklist sid = zero_response\<lparr>rs_command := BLACKLIST, rs_session_id := strncpy_field SESSION_ID_SIZE sid\<rparr>"

definition make_mark_authenticated :: "string \<Rightarrow> string \<Rightarrow> string \<Rightarrow> response_slot_t" where
  "make_mark_authenticated sid ct user = zero_response\<lparr>rs_command := MARK_AUTHENTICATED,
     rs_session_id := strncpy_field SESSION_ID_SIZE sid, rs_client_type := strncpy_field ROLE_SIZE ct,
     rs_username := strncpy_field CREDENTIALS_SIZE user\<rparr>"

definition make_start_keepalive_timer :: "handler_config \<Rightarrow> string \<Rightarrow> response_slot_t" where
  "make_start_keepalive_timer cfg sid = zero_response\<lparr>rs_command := START_KEEPALIVE_TIMER,
     rs_session_id := strncpy_field SESSION_ID_SIZE sid, rs_timer_timeout := m_keepalive_timeout_seconds cfg\<rparr>"

definition make_reset_keepalive_timer :: "string \<Rightarrow> response_slot_t" where
  "make_reset_keepalive_timer sid = zero_response\<lparr>rs_command := RESET_KEEPALIVE_TIMER,
     rs_session_id := strncpy_field SESSION_ID_SIZE sid\<rparr>"

section \<open>Routing\<close>

definition categorize_message :: "string \<Rightarrow> message_category" where
  "categorize_message mt =
     (if mt \<in> set [''HUB_TO_SERVER__AUTH_REQUEST'', ''WAREHOUSE_TO_SERVER__AUTH_REQUEST'', ''CLI_TO_SERVER__AUTH_REQUEST'',
                   ''GATEWAY_TO_SERVER__AUTH_REQUEST''] then AUTH_REQUEST
      else if mt \<in> set [''HUB_TO_SERVER__ACK'', ''WAREHOUSE_TO_SERVER__ACK'', ''GATEWAY_TO_SERVER__ACK''] then ACK_MESSAGE
      else if mt \<in> set [''HUB_TO_SERVER__KEEPALIVE'', ''WAREHOUSE_TO_SERVER__KEEPALIVE'', ''GATEWAY_TO_SERVER__KEEPALIVE'']
        then KEEPALIVE_MSG
      else if mt \<in> set [''HUB_TO_SERVER__INVENTORY_UPDATE'', ''WAREHOUSE_TO_SERVER__INVENTORY_UPDATE''] then INV_UPDATE
      else if mt = ''HUB_TO_SERVER__STOCK_REQUEST'' then STOCK_REQ
      else if mt \<in> set [''HUB_TO_SERVER__STOCK_RECEIPT_CONFIRMATION'', ''WAREHOUSE_TO_SERVER__STOCK_RECEIPT_CONFIRMATION'']
        then RECEIPT_CONFIRM
      else if mt = ''HUB_TO_SERVER__DISPATCH_CONFIRMATION'' then DISPATCH_CONFIRM
      else if mt = ''WAREHOUSE_TO_SERVER__SHIPMENT_NOTICE'' then DISPATCH_NOTICE
      else if mt = ''WAREHOUSE_TO_SERVER__REPLENISH_REQUEST'' then REPLENISH_REQ
      else if mt \<in> set [''HUB_TO_SERVER__EMERGENCY_ALERT'', ''WAREHOUSE_TO_SERVER__EMERGENCY_ALERT''] then EMERGENCY_ALERT
      else if mt = ''CLI_TO_SERVER__ADMIN_COMMAND'' then CLI_COMMAND
      else if mt = ''GATEWAY_TO_SERVER__COMMAND'' then GATEWAY_COMMAND
      else OTHER)"

definition get_auth_response_type :: "string \<Rightarrow> string option" where
  "get_auth_response_type ct =
     (if ct = ''HUB'' then Some ''SERVER_TO_HUB__AUTH_RESPONSE''
      else if ct = ''WAREHOUSE'' then Some ''SERVER_TO_WAREHOUSE__AUTH_RESPONSE''
      else if ct = ''CLI'' then Some ''SERVER_TO_CLI__AUTH_RESPONSE''
      else if ct = ''GATEWAY'' then Some ''SERVER_TO_GATEWAY__AUTH_RESPONSE''
      else None)"

section \<open>Acknowledgments\<close>

definition generate_ack_if_needed ::
  "'j cjson \<Rightarrow> (nat \<Rightarrow> timeval) \<Rightarrow> message_t \<Rightarrow> request_slot_t \<Rightarrow> response_slot_t option" where
  "generate_ack_if_needed cj tv msg req =
     (let category = categorize_message (msg_type msg)
      in if category = AUTH_REQUEST \<or> category = ACK_MESSAGE then None
         else if \<not> rq_is_authenticated req then None
         else case create_acknowledgment_message (tv 0) ''SERVER'' ''SERVER'' (source_role msg) (source_id msg) (timestamp msg) 200 of
                Inl _ \<Rightarrow> None
              | Inr ack \<Rightarrow> Some (make_send_response cj (rq_session_id req) ack))"

definition generate_ack :: "'j cjson \<Rightarrow> (nat \<Rightarrow> timeval) \<Rightarrow> request_slot_t \<Rightarrow> response_slot_t option" where
  "generate_ack cj tv req =
     (if rq_is_disconnect req \<or> rq_is_blacklisted req \<or> \<not> rq_is_authenticated req then None
      else case deserialize_message_from_json cj (rq_raw_json req) of
             Inl _ \<Rightarrow> None
           | Inr msg \<Rightarrow> generate_ack_if_needed cj tv msg req)"

section \<open>Handlers\<close>

definition handle_auth_request ::
  "handler_config \<Rightarrow> 'j cjson \<Rightarrow> pg_env \<Rightarrow> (nat \<Rightarrow> timeval) \<Rightarrow> message_t \<Rightarrow> request_slot_t \<Rightarrow> db_conn \<Rightarrow>
   response_slot_t list \<times> db_conn" where
  "handle_auth_request cfg cj pg tv msg req c =
     (let cr = load_auth_request (payload msg); sid = rq_session_id req
      in case authenticate (username cr) (password cr) c of (res, c1) \<Rightarrow>
         (case get_auth_response_type (source_role msg) of
            None \<Rightarrow> ([], c1)
          | Some response_type \<Rightarrow>
            (case create_auth_response_message (tv 0) (source_role msg) (source_id msg) (auth_code (au_status_code res)) of
               Inl _ \<Rightarrow> ([], c1)
             | Inr m \<Rightarrow>
               (let response_msg = m\<lparr>msg_type := strncpy_field MESSAGE_TYPE_SIZE response_type\<rparr>
                in if au_status_code res \<noteq> SUCCESS then ([make_send_response cj sid response_msg], c1)
                   else let is_cli = (au_client_type res = ''CLI''); is_gateway = (au_client_type res = ''GATEWAY'');
                            (inv, c2) = (if \<not> is_cli \<and> \<not> is_gateway
                              then get_client_inventory_message pg (tv 1) (au_username res) (au_client_type res) c1
                              else (None, c1))
                        in ([make_mark_authenticated sid (au_client_type res) (au_username res),
                             make_send_response cj sid response_msg]
                            @ (if \<not> is_cli then [make_start_timer cfg cj sid response_msg] else [])
                            @ (case inv of None \<Rightarrow> []
                               | Some inv_msg \<Rightarrow> [make_send_response cj sid inv_msg, make_start_timer cfg cj sid inv_msg])
                            @ (if \<not> is_cli then [make_start_keepalive_timer cfg sid] else []), c2)))))"

definition handle_ack_message :: "message_t \<Rightarrow> request_slot_t \<Rightarrow> response_slot_t list" where
  "handle_ack_message msg req =
     [make_cancel_timer (rq_session_id req) (ack_for_timestamp (load_acknowledgment (payload msg)))]"

text \<open>The dispatch orders for a list of fulfilled orders, the clock readings starting at \<open>k\<close>.\<close>

fun dispatch_orders ::
  "handler_config \<Rightarrow> 'j cjson \<Rightarrow> (nat \<Rightarrow> timeval) \<Rightarrow> string \<Rightarrow> (stock_request_result \<Rightarrow> string) \<Rightarrow> nat \<Rightarrow>
   stock_request_result list \<Rightarrow> response_slot_t list" where
  "dispatch_orders cfg cj tv mt target k [] = []"
| "dispatch_orders cfg cj tv mt target k (r # rs) =
     (case create_items_message (tv k) mt ''SERVER'' (target r) (sr_items r) (sr_item_count r) None of
        Inl _ \<Rightarrow> []
      | Inr m \<Rightarrow> [make_send_to_username cfg cj (target r) m])
     @ dispatch_orders cfg cj tv mt target (Suc k) rs"

definition gateway_dispatches ::
  "handler_config \<Rightarrow> 'j cjson \<Rightarrow> pg_env \<Rightarrow> (nat \<Rightarrow> timeval) \<Rightarrow> message_t \<Rightarrow> nat \<Rightarrow> db_conn \<Rightarrow> response_slot_t list \<times> db_conn" where
  "gateway_dispatches cfg cj pg tv msg k c =
     (if source_role msg = ''HUB'' then
        (case process_pending_gateway_orders pg (source_id msg) c of (orders, c') \<Rightarrow>
           (dispatch_orders cfg cj tv ''SERVER_TO_HUB__ORDER_TO_DISPATCH_STOCK'' sr_requesting_hub_id k orders, c'))
      else ([], c))"

text \<open>A command for the reactor whose payload is a plug-in's text: \<open>None\<close> when it does not fit the slot.\<close>

definition plugin_slot :: "string \<Rightarrow> response_slot_t \<Rightarrow> response_slot_t option" where
  "plugin_slot text slot =
     (if length text \<le> BUFFER_SIZE then Some (slot\<lparr>rs_payload := text, rs_payload_len := of_nat (length text)\<rparr>) else None)"

definition order_dispatched :: "message_t \<Rightarrow> int \<Rightarrow> message_t" where
  "order_dispatched msg n =
     \<lparr>msg_type = strncpy_field MESSAGE_TYPE_SIZE ''SERVER_TO_GATEWAY__ORDER_DISPATCHED'',
      source_role = strncpy_field ROLE_SIZE ''SERVER'', source_id = strncpy_field ID_SIZE ''SERVER'',
      target_role = strncpy_field ROLE_SIZE ''GATEWAY'', target_id = '''',
      timestamp = strncpy_field TIMESTAMP_SIZE (timestamp msg),
      payload = payload_copy (generic_args_image \<lparr>ga_args = strncpy_field DESCRIPTION_SIZE (show_int n)\<rparr>), checksum = ''''\<rparr>"

definition on_inv_update ::
  "handler_config \<Rightarrow> 'j cjson \<Rightarrow> pg_env \<Rightarrow> (nat \<Rightarrow> timeval) \<Rightarrow> message_t \<Rightarrow> request_slot_t \<Rightarrow> db_conn \<Rightarrow>
   response_slot_t list outcome \<times> db_conn" where
  "on_inv_update cfg cj pg tv msg req c =
     (case handle_inventory_update pg msg c of
        (None, c1) \<Rightarrow> (Thrown, c1)
      | (Some fulfilled, c1) \<Rightarrow>
          (case gateway_dispatches cfg cj pg tv msg (length fulfilled) c1 of (gw, c2) \<Rightarrow>
             (Returned (dispatch_orders cfg cj tv ''SERVER_TO_WAREHOUSE__ORDER_TO_DISPATCH_STOCK_TO_HUB''
                sr_assigned_warehouse_id 0 fulfilled @ gw), c2)))"

definition on_stock_req ::
  "handler_config \<Rightarrow> 'j cjson \<Rightarrow> pg_env \<Rightarrow> (nat \<Rightarrow> timeval) \<Rightarrow> message_t \<Rightarrow> request_slot_t \<Rightarrow> db_conn \<Rightarrow>
   response_slot_t list outcome \<times> db_conn" where
  "on_stock_req cfg cj pg tv msg req c =
     (case handle_stock_request pg msg c of (r, c1) \<Rightarrow>
        (Returned (if sr_success r \<and> sr_warehouse_assigned r \<and> sr_requesting_hub_id r \<noteq> ''''
           then dispatch_orders cfg cj tv ''SERVER_TO_WAREHOUSE__ORDER_TO_DISPATCH_STOCK_TO_HUB'' sr_assigned_warehouse_id 0 [r]
           else []), c1))"

definition on_receipt_confirm ::
  "handler_config \<Rightarrow> 'j cjson \<Rightarrow> pg_env \<Rightarrow> (nat \<Rightarrow> timeval) \<Rightarrow> message_t \<Rightarrow> request_slot_t \<Rightarrow> db_conn \<Rightarrow>
   response_slot_t list outcome \<times> db_conn" where
  "on_receipt_confirm cfg cj pg tv msg req c =
     (case handle_receipt_confirmation pg msg c of (_, c1) \<Rightarrow>
        (case gateway_dispatches cfg cj pg tv msg 0 c1 of (gw, c2) \<Rightarrow> (Returned gw, c2)))"

definition on_dispatch_confirm ::
  "handler_config \<Rightarrow> 'j cjson \<Rightarrow> pg_env \<Rightarrow> (nat \<Rightarrow> timeval) \<Rightarrow> message_t \<Rightarrow> request_slot_t \<Rightarrow> db_conn \<Rightarrow>
   response_slot_t list outcome \<times> db_conn" where
  "on_dispatch_confirm cfg cj pg tv msg req c =
     (case handle_dispatch_confirmation pg msg c of ((rc, n), c1) \<Rightarrow>
        (Returned (if rc = 0 \<and> n \<ge> 0
           then [make_send_to_username cfg cj ''api_gateway'' (order_dispatched msg n),
                 zero_response\<lparr>rs_command := MQTT_PUBLISH_ROUTE, rs_mqtt_transaction_id := n\<rparr>]
           else []), c1))"

definition on_dispatch_notice ::
  "handler_config \<Rightarrow> 'j cjson \<Rightarrow> pg_env \<Rightarrow> (nat \<Rightarrow> timeval) \<Rightarrow> message_t \<Rightarrow> request_slot_t \<Rightarrow> db_conn \<Rightarrow>
   response_slot_t list outcome \<times> db_conn" where
  "on_dispatch_notice cfg cj pg tv msg req c =
     (case handle_shipment_notice pg msg c of (r, c1) \<Rightarrow>
        (Returned (if sr_success r \<and> sr_requesting_hub_id r \<noteq> ''''
           then dispatch_orders cfg cj tv ''SERVER_TO_HUB__INCOMING_STOCK_NOTICE'' sr_requesting_hub_id 0 [r]
           else []), c1))"

definition on_replenish_req ::
  "handler_config \<Rightarrow> 'j cjson \<Rightarrow> pg_env \<Rightarrow> (nat \<Rightarrow> timeval) \<Rightarrow> message_t \<Rightarrow> request_slot_t \<Rightarrow> db_conn \<Rightarrow>
   response_slot_t list outcome \<times> db_conn" where
  "on_replenish_req cfg cj pg tv msg req c =
     (case handle_replenish_request pg msg c of (r, c1) \<Rightarrow>
        (Returned (if sr_success r then
           (case create_items_message (tv 0) ''SERVER_TO_WAREHOUSE__RESTOCK_NOTICE'' ''SERVER'' (sr_assigned_warehouse_id r)
                   (sr_items r) (sr_item_count r) None of
              Inl _ \<Rightarrow> []
            | Inr m \<Rightarrow> [make_send_response cj (rq_session_id req) m, make_start_timer cfg cj (rq_session_id req) m])
           else []), c1))"

definition on_emergency_alert ::
  "handler_config \<Rightarrow> 'j cjson \<Rightarrow> pg_env \<Rightarrow> (nat \<Rightarrow> timeval) \<Rightarrow> message_t \<Rightarrow> request_slot_t \<Rightarrow> db_conn \<Rightarrow>
   response_slot_t list outcome \<times> db_conn" where
  "on_emergency_alert cfg cj pg tv msg req c =
     (let e = load_client_emergency (payload msg)
      in (Returned (case create_server_emergency_message (tv 0) (ce_emergency_code e) (ce_emergency_type e) of
            Inl _ \<Rightarrow> []
          | Inr m \<Rightarrow> (case serialize_message_to_json cj m of
                Inl _ \<Rightarrow> []
              | Inr json \<Rightarrow> [zero_response\<lparr>rs_command := BROADCAST, rs_payload := json, rs_payload_len := of_nat (length json)\<rparr>])), c))"

definition on_cli_command ::
  "handler_config \<Rightarrow> 'j cjson \<Rightarrow> pg_env \<Rightarrow> (nat \<Rightarrow> timeval) \<Rightarrow> message_t \<Rightarrow> request_slot_t \<Rightarrow> db_conn \<Rightarrow>
   response_slot_t list outcome \<times> db_conn" where
  "on_cli_command cfg cj pg tv msg req c =
     (case m_admin_handle cfg of
        None \<Rightarrow> (Returned [], c)
      | Some handle \<Rightarrow>
          (case handle (rq_raw_json req) c of
             (None, c1) \<Rightarrow> (Returned [], c1)
           | (Some resp, c1) \<Rightarrow>
               (case plugin_slot resp (zero_response\<lparr>rs_command := SEND, rs_session_id := strncpy_field SESSION_ID_SIZE (rq_session_id req)\<rparr>) of
                  None \<Rightarrow> (Overrun, c1)
                | Some slot \<Rightarrow> (Returned [slot], c1))))"

definition on_gateway_command ::
  "handler_config \<Rightarrow> 'j cjson \<Rightarrow> pg_env \<Rightarrow> (nat \<Rightarrow> timeval) \<Rightarrow> message_t \<Rightarrow> request_slot_t \<Rightarrow> db_conn \<Rightarrow>
   response_slot_t list outcome \<times> db_conn" where
  "on_gateway_command cfg cj pg tv msg req c =
     (case m_gateway_handle cfg of
        None \<Rightarrow> (Returned [], c)
      | Some handle \<Rightarrow>
          (case handle (rq_raw_json req) c of
             (None, c1) \<Rightarrow> (Returned [], c1)
           | (Some (resp, side), c1) \<Rightarrow>
               (case plugin_slot resp (zero_response\<lparr>rs_command := SEND, rs_session_id := strncpy_field SESSION_ID_SIZE (rq_session_id req)\<rparr>) of
                  None \<Rightarrow> (Overrun, c1)
                | Some slot \<Rightarrow>
                    (case side of
                       None \<Rightarrow> (Returned [slot], c1)
                     | Some s \<Rightarrow>
                         (let key = (case deserialize_message_from_json cj (gs_send_json s) of
                                       Inl _ \<Rightarrow> '''' | Inr m \<Rightarrow> strncpy_field TIMESTAMP_SIZE (timestamp m))
                          in case plugin_slot (gs_send_json s)
                                 (zero_response\<lparr>rs_command := SEND, rs_target_username := strncpy_field CREDENTIALS_SIZE (gs_target_username s),
                                    rs_start_ack_timer := True, rs_timer_timeout := m_ack_timeout_seconds cfg,
                                    rs_max_retries := m_max_retries cfg, rs_timer_key := key\<rparr>) of
                               None \<Rightarrow> (Overrun, c1)
                             | Some fwd \<Rightarrow> (Returned [slot, fwd], c1))))))"

fun handle_other_message ::
  "handler_config \<Rightarrow> 'j cjson \<Rightarrow> pg_env \<Rightarrow> (nat \<Rightarrow> timeval) \<Rightarrow> message_t \<Rightarrow> request_slot_t \<Rightarrow> message_category \<Rightarrow> db_conn \<Rightarrow>
   response_slot_t list outcome \<times> db_conn" where
  "handle_other_message cfg cj pg tv msg req INV_UPDATE c = on_inv_update cfg cj pg tv msg req c"
| "handle_other_message cfg cj pg tv msg req STOCK_REQ c = on_stock_req cfg cj pg tv msg req c"
| "handle_other_message cfg cj pg tv msg req RECEIPT_CONFIRM c = on_receipt_confirm cfg cj pg tv msg req c"
| "handle_other_message cfg cj pg tv msg req DISPATCH_CONFIRM c = on_dispatch_confirm cfg cj pg tv msg req c"
| "handle_other_message cfg cj pg tv msg req DISPATCH_NOTICE c = on_dispatch_notice cfg cj pg tv msg req c"
| "handle_other_message cfg cj pg tv msg req REPLENISH_REQ c = on_replenish_req cfg cj pg tv msg req c"
| "handle_other_message cfg cj pg tv msg req EMERGENCY_ALERT c = on_emergency_alert cfg cj pg tv msg req c"
| "handle_other_message cfg cj pg tv msg req CLI_COMMAND c = on_cli_command cfg cj pg tv msg req c"
| "handle_other_message cfg cj pg tv msg req GATEWAY_COMMAND c = on_gateway_command cfg cj pg tv msg req c"
| "handle_other_message cfg cj pg tv msg req _ c = (Returned [], c)"

lemmas other_defs = handle_other_message.simps on_inv_update_def on_stock_req_def on_receipt_confirm_def
  on_dispatch_confirm_def on_dispatch_notice_def on_replenish_req_def on_emergency_alert_def on_cli_command_def
  on_gateway_command_def

definition process_request ::
  "handler_config \<Rightarrow> 'j cjson \<Rightarrow> pg_env \<Rightarrow> (nat \<Rightarrow> timeval) \<Rightarrow> request_slot_t \<Rightarrow> mh_state \<Rightarrow>
   response_slot_t list outcome \<times> mh_state" where
  "process_request cfg cj pg tv req st =
     (let sid = rq_session_id req
      in if rq_is_disconnect req then
           (let c = (if rq_username req \<noteq> '''' then deactivate_client (rq_username req) (mh_conn st) else mh_conn st)
            in (Returned [], st\<lparr>mh_conn := c,
                 m_dead_sessions := (if sid \<noteq> '''' then List.insert sid (m_dead_sessions st) else m_dead_sessions st)\<rparr>))
         else if sid \<noteq> '''' \<and> sid \<in> set (m_dead_sessions st) then (Returned [], st)
         else if rq_is_blacklisted req then (Returned [], st)
         else case deserialize_message_from_json cj (rq_raw_json req) of
                Inl _ \<Rightarrow> (Returned [], st)
              | Inr msg \<Rightarrow>
                  (let category = categorize_message (msg_type msg)
                   in if category \<noteq> AUTH_REQUEST \<and> \<not> rq_is_authenticated req then (Returned [], st)
                      else case category of
                             AUTH_REQUEST \<Rightarrow>
                               (case handle_auth_request cfg cj pg tv msg req (mh_conn st) of (rs, c) \<Rightarrow>
                                  (Returned rs, st\<lparr>mh_conn := c\<rparr>))
                           | ACK_MESSAGE \<Rightarrow> (Returned (handle_ack_message msg req), st)
                           | KEEPALIVE_MSG \<Rightarrow> (Returned [make_reset_keepalive_timer sid], st)
                           | _ \<Rightarrow> (case handle_other_message cfg cj pg tv msg req category (mh_conn st) of (rs, c) \<Rightarrow>
                                  (rs, st\<lparr>mh_conn := c\<rparr>))))"

declare handle_other_message.simps [simp del]

definition live_request :: "request_slot_t \<Rightarrow> mh_state \<Rightarrow> bool" where
  "live_request req st \<longleftrightarrow> \<not> rq_is_disconnect req \<and> \<not> (rq_session_id req \<noteq> '''' \<and> rq_session_id req \<in> set (m_dead_sessions st))
     \<and> \<not> rq_is_blacklisted req"

lemma process_request_cases:
  assumes "process_request cfg cj pg tv req st = (out, st')"
  obtains (disconnect) "rq_is_disconnect req" "out = Returned []"
    | (ignored) "\<not> rq_is_disconnect req" "out = Returned []" "st' = st"
    | (login) msg rs c where "live_request req st" "deserialize_message_from_json cj (rq_raw_json req) = Inr msg"
        "categorize_message (msg_type msg) = AUTH_REQUEST" "handle_auth_request cfg cj pg tv msg req (mh_conn st) = (rs, c)"
        "out = Returned rs" "st' = st\<lparr>mh_conn := c\<rparr>"
    | (ack) msg where "live_request req st" "rq_is_authenticated req" "deserialize_message_from_json cj (rq_raw_json req) = Inr msg"
        "categorize_message (msg_type msg) = ACK_MESSAGE" "out = Returned (handle_ack_message msg req)" "st' = st"
    | (keepalive) msg where "live_request req st" "rq_is_authenticated req" "deserialize_message_from_json cj (rq_raw_json req) = Inr msg"
        "categorize_message (msg_type msg) = KEEPALIVE_MSG" "out = Returned [make_reset_keepalive_timer (rq_session_id req)]" "st' = st"
    | (other) msg c where "live_request req st" "rq_is_authenticated req" "deserialize_message_from_json cj (rq_raw_json req) = Inr msg"
        "categorize_message (msg_type msg) \<notin> {AUTH_REQUEST, ACK_MESSAGE, KEEPALIVE_MSG}"
        "handle_other_message cfg cj pg tv msg req (categorize_message (msg_type msg)) (mh_conn st) = (out, c)" "st' = st\<lparr>mh_conn := c\<rparr>"
proof (cases "live_request req st")
  case False
  then show thesis using assms that(1,2)
    by (auto simp: process_request_def live_request_def Let_def split: if_splits)
next
  case True
  show thesis
  proof (cases "deserialize_message_from_json cj (rq_raw_json req)")
    case (Inl a)
    then show thesis using True assms that(2) by (auto simp: process_request_def live_request_def Let_def)
  next
    case (Inr msg)
    let ?cat = "categorize_message (msg_type msg)"
    show thesis
    proof (cases "?cat \<noteq> AUTH_REQUEST \<and> \<not> rq_is_authenticated req")
      case True
      then show thesis using \<open>live_request req st\<close> Inr assms that(2) by (auto simp: process_request_def live_request_def Let_def)
    next
      case False
      then show thesis using \<open>live_request req st\<close> Inr assms that(3) [OF _ Inr] that(4) [OF _ _ Inr] that(5) [OF _ _ Inr] that(6) [OF _ _ Inr]
        by (cases ?cat) (auto simp: process_request_def live_request_def Let_def split: prod.splits)
    qed
  qed
qed

section \<open>Which member of the payload a handler reads\<close>

fun category_kind :: "message_category \<Rightarrow> payload_kind option" where
  "category_kind AUTH_REQUEST = Some K_auth_request"
| "category_kind ACK_MESSAGE = Some K_ack"
| "category_kind KEEPALIVE_MSG = Some K_keepalive"
| "category_kind EMERGENCY_ALERT = Some K_client_emergency"
| "category_kind CLI_COMMAND = None"
| "category_kind GATEWAY_COMMAND = None"
| "category_kind OTHER = None"
| "category_kind _ = Some K_items"

definition routed_types :: "string list" where
  "routed_types = [''HUB_TO_SERVER__AUTH_REQUEST'', ''WAREHOUSE_TO_SERVER__AUTH_REQUEST'', ''CLI_TO_SERVER__AUTH_REQUEST'',
     ''GATEWAY_TO_SERVER__AUTH_REQUEST'', ''HUB_TO_SERVER__ACK'', ''WAREHOUSE_TO_SERVER__ACK'', ''GATEWAY_TO_SERVER__ACK'',
     ''HUB_TO_SERVER__KEEPALIVE'', ''WAREHOUSE_TO_SERVER__KEEPALIVE'', ''GATEWAY_TO_SERVER__KEEPALIVE'',
     ''HUB_TO_SERVER__INVENTORY_UPDATE'', ''WAREHOUSE_TO_SERVER__INVENTORY_UPDATE'', ''HUB_TO_SERVER__STOCK_REQUEST'',
     ''HUB_TO_SERVER__STOCK_RECEIPT_CONFIRMATION'', ''WAREHOUSE_TO_SERVER__STOCK_RECEIPT_CONFIRMATION'',
     ''HUB_TO_SERVER__DISPATCH_CONFIRMATION'', ''WAREHOUSE_TO_SERVER__SHIPMENT_NOTICE'',
     ''WAREHOUSE_TO_SERVER__REPLENISH_REQUEST'', ''HUB_TO_SERVER__EMERGENCY_ALERT'', ''WAREHOUSE_TO_SERVER__EMERGENCY_ALERT'']"

lemma routed_kinds: "list_all (\<lambda>mt. find_handler mt = category_kind (categorize_message mt)) routed_types"
  by code_simp

lemma routed_mem:
  assumes "category_kind (categorize_message mt) \<noteq> None"
  shows "mt \<in> set routed_types"
proof (rule ccontr)
  assume "mt \<notin> set routed_types"
  then have "categorize_message mt \<in> {CLI_COMMAND, GATEWAY_COMMAND, OTHER}"
    unfolding routed_types_def categorize_message_def by simp
  with assms show False by auto
qed



section \<open>Access control\<close>

text \<open>C16: A request from a session that is not authenticated has no effect unless it is a login: no response, no
  acknowledgment, and the handler's state and the database stay as they are.\<close>

theorem unauthenticated_request_rejected:
  assumes "\<not> rq_is_authenticated req" "\<not> rq_is_disconnect req"
    and "\<And>msg. deserialize_message_from_json cj (rq_raw_json req) = Inr msg \<Longrightarrow> categorize_message (msg_type msg) \<noteq> AUTH_REQUEST"
  shows "process_request cfg cj pg tv req st = (Returned [], st) \<and> generate_ack cj tv req = None"
  using assms by (auto simp: process_request_def generate_ack_def Let_def split: sum.splits)

definition demo_config :: handler_config where
  "demo_config = \<lparr>m_ack_timeout_seconds = 5, m_max_retries = 3, m_keepalive_timeout_seconds = 30,
     m_admin_handle = None, m_gateway_handle = None\<rparr>"

definition demo_tv :: "nat \<Rightarrow> timeval" where
  "demo_tv n = \<lparr>tm_sec = int n, tm_usec = 0\<rparr>"

definition demo_state :: mh_state where
  "demo_state = \<lparr>m_dead_sessions = [], mh_conn = demo_conn\<rparr>"

definition demo_text :: "string \<Rightarrow> demo_json cjson" where
  "demo_text mt = demo_cjson (DO [(''msg_type'', DS mt), (''source_role'', DS ''HUB''), (''source_id'', DS ''hub1''), (''timestamp'', DS ''now'')])"

definition demo_slot :: request_slot_t where
  "demo_slot = zero_request\<lparr>rq_session_id := ''tcp_session_1'', rq_raw_json := ''x''\<rparr>"

lemma demo_text_parsed:
  "deserialize_message_from_json (demo_text mt) (rq_raw_json demo_slot) = Inr m \<Longrightarrow> msg_type m = strncpy_field MESSAGE_TYPE_SIZE mt"
  by (auto simp: deserialize_message_from_json_def demo_text_def demo_cjson_def demo_nodes_def demo_slot_def
      message_from_tree_def field_of_def get_string_def Let_def)

theorem unauthenticated_request_rejected_witness:
  "process_request demo_config (demo_text ''HUB_TO_SERVER__STOCK_REQUEST'') demo_pg demo_tv demo_slot demo_state = (Returned [], demo_state)"
proof -
  have "categorize_message (strncpy_field MESSAGE_TYPE_SIZE ''HUB_TO_SERVER__STOCK_REQUEST'') \<noteq> AUTH_REQUEST" by code_simp
  then show ?thesis
    by (intro conjunct1 [OF unauthenticated_request_rejected])
       (auto simp: demo_text_parsed, simp_all add: demo_slot_def zero_request_def)
qed

lemma no_mark [simp]:
  "rs_command (with_json cj msg slot) = rs_command slot"
  "rs_command (make_send_response cj sid msg) = SEND" "rs_command (make_send_to_username cfg cj user msg) = SEND"
  "rs_command (make_start_timer cfg cj sid msg) = START_ACK_TIMER" "rs_command (make_start_keepalive_timer cfg sid) = START_KEEPALIVE_TIMER"
  "rs_command (make_cancel_timer sid ts) = CANCEL_ACK_TIMER" "rs_command (make_reset_keepalive_timer sid) = RESET_KEEPALIVE_TIMER"
  "rs_command (make_mark_authenticated sid ct user) = MARK_AUTHENTICATED"
  by (simp_all add: with_json_def make_send_response_def make_send_to_username_def make_start_timer_def
      make_start_keepalive_timer_def make_cancel_timer_def make_reset_keepalive_timer_def make_mark_authenticated_def split: sum.splits)

lemma dispatch_orders_send: "r \<in> set (dispatch_orders cfg cj tv mt target k rs) \<Longrightarrow> rs_command r = SEND"
  by (induction rs arbitrary: k) (auto split: sum.splits)

lemma gateway_dispatches_send: "gateway_dispatches cfg cj pg tv msg k c = (rs, c') \<Longrightarrow> r \<in> set rs \<Longrightarrow> rs_command r = SEND"
  by (auto simp: gateway_dispatches_def dest: dispatch_orders_send split: if_splits prod.splits)

lemma plugin_slot_command: "plugin_slot t s = Some r \<Longrightarrow> rs_command r = rs_command s"
  by (auto simp: plugin_slot_def split: if_splits)

lemma other_no_mark:
  assumes "handle_other_message cfg cj pg tv msg req cat c = (Returned rs, c')" "r \<in> set rs"
  shows "rs_command r \<noteq> MARK_AUTHENTICATED"
  using assms
  by (cases cat)
     (auto simp: other_defs zero_response_def Let_def
       dest!: dispatch_orders_send gateway_dispatches_send plugin_slot_command
       split: prod.splits option.splits sum.splits if_splits)

lemma auth_request_mark:
  assumes "handle_auth_request cfg cj pg tv msg req c = (rs, c')" "r \<in> set rs" "rs_command r = MARK_AUTHENTICATED"
  shows "\<exists>res c1. authenticate (username (load_auth_request (payload msg))) (password (load_auth_request (payload msg))) c = (res, c1)
     \<and> au_status_code res = SUCCESS \<and> r = make_mark_authenticated (rq_session_id req) (au_client_type res) (au_username res)"
  using assms
  by (auto simp: handle_auth_request_def Let_def split: prod.splits option.splits sum.splits if_splits)

text \<open>C17: A session is marked as authenticated only after a login whose user name and password are those of a
  stored credential, and it gets the stored client type and user name, not the ones the client claims.\<close>

theorem marked_only_with_credentials:
  assumes "process_request cfg cj pg tv req st = (Returned rs, st')" "r \<in> set rs" "rs_command r = MARK_AUTHENTICATED"
  shows "\<exists>msg cred. deserialize_message_from_json cj (rq_raw_json req) = Inr msg
     \<and> cred \<in> set (db_credentials (c_db (mh_conn st)))
     \<and> cred_username cred = username (load_auth_request (payload msg)) \<and> password_hash cred = password (load_auth_request (payload msg))
     \<and> r = make_mark_authenticated (rq_session_id req) (cred_client_type cred) (cred_username cred)"
proof -
  from assms obtain msg c' where m: "deserialize_message_from_json cj (rq_raw_json req) = Inr msg"
    and h: "handle_auth_request cfg cj pg tv msg req (mh_conn st) = (rs, c')"
    by (cases rule: process_request_cases) (auto simp: handle_ack_message_def dest: other_no_mark)
  from auth_request_mark [OF h assms(2,3)] obtain res c1 where a:
    "authenticate (username (load_auth_request (payload msg))) (password (load_auth_request (payload msg))) (mh_conn st) = (res, c1)"
    "au_status_code res = SUCCESS" "r = make_mark_authenticated (rq_session_id req) (au_client_type res) (au_username res)"
    by blast
  from authenticate_success [OF a(1,2)] a(3) m show ?thesis by metis
qed

definition demo_auth_text :: "demo_json cjson" where
  "demo_auth_text = demo_cjson (DO [(''msg_type'', DS ''CLI_TO_SERVER__AUTH_REQUEST''), (''source_role'', DS ''CLI''),
     (''source_id'', DS ''admin''), (''payload'', DO [(''username'', DS ''root''), (''password'', DS ''pw'')])])"

definition demo_auth_state :: mh_state where
  "demo_auth_state = \<lparr>m_dead_sessions = [], mh_conn = demo_conn\<lparr>c_db := (c_db demo_conn)\<lparr>db_credentials :=
     [\<lparr>cred_id = 1, cred_username = ''root'', password_hash = ''pw'', cred_client_type = ''CLI'', is_active = False\<rparr>]\<rparr>\<rparr>\<rparr>"

definition demo_auth_msg :: message_t where
  "demo_auth_msg = message_from_tree demo_auth_text (DO [(''msg_type'', DS ''CLI_TO_SERVER__AUTH_REQUEST''), (''source_role'', DS ''CLI''),
     (''source_id'', DS ''admin''), (''payload'', DO [(''username'', DS ''root''), (''password'', DS ''pw'')])])"

lemma demo_auth_parsed: "deserialize_message_from_json demo_auth_text (rq_raw_json demo_slot) = Inr demo_auth_msg"
  by (simp add: deserialize_message_from_json_def demo_auth_msg_def demo_auth_text_def demo_cjson_def demo_nodes_def demo_slot_def)

lemma demo_auth_run:
  "\<exists>rs st'. process_request demo_config demo_auth_text demo_pg demo_tv demo_slot demo_auth_state = (Returned rs, st')
     \<and> make_mark_authenticated ''tcp_session_1'' ''CLI'' ''root'' \<in> set rs"
proof -
  have a: "categorize_message (msg_type demo_auth_msg) = AUTH_REQUEST" "source_role demo_auth_msg = ''CLI''" by code_simp+
  have l: "username (load_auth_request (payload demo_auth_msg)) = ''root''" "password (load_auth_request (payload demo_auth_msg)) = ''pw''"
    by code_simp+
  have s: "fst (authenticate ''root'' ''pw'' (mh_conn demo_auth_state)) =
      \<lparr>au_status_code = SUCCESS, au_client_type = ''CLI'', au_username = ''root'', au_error_message = ''''\<rparr>"
    by code_simp
  then obtain c1 where c1: "authenticate ''root'' ''pw'' (mh_conn demo_auth_state) =
      (\<lparr>au_status_code = SUCCESS, au_client_type = ''CLI'', au_username = ''root'', au_error_message = ''''\<rparr>, c1)"
    by (metis prod.collapse)
  have n: "\<not> rq_is_disconnect demo_slot" "\<not> rq_is_blacklisted demo_slot" "rq_session_id demo_slot = ''tcp_session_1''"
      "m_dead_sessions demo_auth_state = []"
    by (simp_all add: demo_slot_def zero_request_def demo_auth_state_def)
  show ?thesis
    by (simp add: process_request_def n demo_auth_parsed a handle_auth_request_def l c1 get_auth_response_type_def
        create_auth_response_message_def Let_def)
qed

theorem marked_only_with_credentials_witness:
  "\<exists>rs st' r. process_request demo_config demo_auth_text demo_pg demo_tv demo_slot demo_auth_state = (Returned rs, st') \<and> r \<in> set rs
     \<and> (\<exists>cred. cred \<in> set (db_credentials (c_db (mh_conn demo_auth_state)))
          \<and> r = make_mark_authenticated (rq_session_id demo_slot) (cred_client_type cred) (cred_username cred))"
proof -
  obtain rs st' where p: "process_request demo_config demo_auth_text demo_pg demo_tv demo_slot demo_auth_state = (Returned rs, st')"
    "make_mark_authenticated ''tcp_session_1'' ''CLI'' ''root'' \<in> set rs"
    using demo_auth_run by blast
  show ?thesis using marked_only_with_credentials [OF p no_mark(8)] p by blast
qed

section \<open>Disconnected sessions\<close>

definition run_requests ::
  "handler_config \<Rightarrow> 'j cjson \<Rightarrow> pg_env \<Rightarrow> (nat \<Rightarrow> timeval) \<Rightarrow> request_slot_t list \<Rightarrow> mh_state \<Rightarrow> mh_state" where
  "run_requests cfg cj pg tv reqs st = foldl (\<lambda>st req. snd (process_request cfg cj pg tv req st)) st reqs"

lemma process_dead: "sid \<in> set (m_dead_sessions st) \<Longrightarrow> sid \<in> set (m_dead_sessions (snd (process_request cfg cj pg tv req st)))"
proof -
  assume d: "sid \<in> set (m_dead_sessions st)"
  obtain out st' where e: "process_request cfg cj pg tv req st = (out, st')" by fastforce
  then show ?thesis
  proof (cases rule: process_request_cases)
    case disconnect
    then show ?thesis using d by (simp add: process_request_def Let_def)
  qed (use d e in simp_all)
qed

lemma run_dead: "sid \<in> set (m_dead_sessions st) \<Longrightarrow> sid \<in> set (m_dead_sessions (run_requests cfg cj pg tv reqs st))"
  unfolding run_requests_def by (induction reqs arbitrary: st) (auto intro: process_dead)

text \<open>Once the disconnection of a session has been handled, no later request of that session has any effect,
  whatever other requests are handled in between: no response and no change of the database.\<close>

theorem disconnected_session_ignored:
  assumes "rq_is_disconnect d" "rq_session_id d \<noteq> ''''" "rq_session_id req = rq_session_id d" "\<not> rq_is_disconnect req"
    and "st1 = run_requests cfg cj pg tv (d # reqs) st"
  shows "process_request cfg cj pg tv' req st1 = (Returned [], st1)"
proof -
  have "rq_session_id d \<in> set (m_dead_sessions (snd (process_request cfg cj pg tv d st)))"
    using assms(1,2) by (simp add: process_request_def Let_def)
  from run_dead [OF this, of cfg cj pg tv reqs] have "rq_session_id req \<in> set (m_dead_sessions st1)"
    using assms(3,5) by (simp add: run_requests_def)
  then show ?thesis using assms(2,3,4) by (simp add: process_request_def Let_def)
qed

theorem disconnected_session_ignored_witness:
  "process_request demo_config demo_auth_text demo_pg demo_tv demo_slot
       (run_requests demo_config demo_auth_text demo_pg demo_tv [demo_slot\<lparr>rq_is_disconnect := True\<rparr>] demo_auth_state)
     = (Returned [], run_requests demo_config demo_auth_text demo_pg demo_tv [demo_slot\<lparr>rq_is_disconnect := True\<rparr>] demo_auth_state)"
  by (rule disconnected_session_ignored [of "demo_slot\<lparr>rq_is_disconnect := True\<rparr>" demo_slot _ _ _ _ _ "[]", OF _ _ _ _ refl])
    (auto simp: demo_slot_def zero_request_def)

section \<open>Slots\<close>

definition slot_ok :: "response_slot_t \<Rightarrow> bool" where
  "slot_ok r \<longleftrightarrow> fits SESSION_ID_SIZE (rs_session_id r) \<and> length (rs_payload r) \<le> BUFFER_SIZE
     \<and> unat (rs_payload_len r) = length (rs_payload r) \<and> fits TIMESTAMP_SIZE (rs_timer_key r)
     \<and> fits ROLE_SIZE (rs_client_type r) \<and> fits CREDENTIALS_SIZE (rs_username r) \<and> fits CREDENTIALS_SIZE (rs_target_username r)"

lemmas slot_sizes = SESSION_ID_SIZE_def BUFFER_SIZE_def TIMESTAMP_SIZE_def ROLE_SIZE_def CREDENTIALS_SIZE_def

lemma field_fits [simp]:
  "fits SESSION_ID_SIZE (strncpy_field SESSION_ID_SIZE s)" "fits TIMESTAMP_SIZE (strncpy_field TIMESTAMP_SIZE s)"
  "fits ROLE_SIZE (strncpy_field ROLE_SIZE s)" "fits CREDENTIALS_SIZE (strncpy_field CREDENTIALS_SIZE s)"
  "fits SESSION_ID_SIZE ''''" "fits TIMESTAMP_SIZE ''''" "fits ROLE_SIZE ''''" "fits CREDENTIALS_SIZE ''''"
  by (simp_all add: strncpy_field_fits slot_sizes) (simp_all add: fits_def)

lemma unat_len: "n \<le> BUFFER_SIZE \<Longrightarrow> unat (of_nat n :: u32) = n"
  by (simp add: unsigned_of_nat take_bit_nat_eq_self BUFFER_SIZE_def)

lemma serialize_short: "cjson_ok cj \<Longrightarrow> serialize_message_to_json cj msg = Inr json \<Longrightarrow> length json \<le> BUFFER_SIZE"
  by (auto simp: serialize_message_to_json_def cjson_ok_def split: option.splits) (meson less_imp_le)

lemma slot_ok_json: "cjson_ok cj \<Longrightarrow> slot_ok slot \<Longrightarrow> slot_ok (with_json cj msg slot)"
  by (auto simp: with_json_def slot_ok_def unat_len dest: serialize_short split: sum.splits)

lemma slot_ok_zero [simp]: "slot_ok (zero_response\<lparr>rs_command := cmd, rs_mqtt_transaction_id := n\<rparr>)" "slot_ok (zero_response\<lparr>rs_command := cmd\<rparr>)"
  by (simp_all add: slot_ok_def zero_response_def)

lemma slot_ok_make:
  assumes "cjson_ok cj"
  shows "slot_ok (make_send_response cj sid msg)" "slot_ok (make_send_to_username cfg cj user msg)" "slot_ok (make_start_timer cfg cj sid msg)"
  using slot_ok_json [OF assms, of "zero_response\<lparr>rs_command := SEND, rs_target_username := strncpy_field CREDENTIALS_SIZE user\<rparr>" msg]
  by (auto simp: make_send_response_def make_start_timer_def make_send_to_username_def intro!: slot_ok_json [OF assms])
     (auto simp: slot_ok_def zero_response_def)

lemma slot_ok_plain:
  "slot_ok (make_cancel_timer sid ts)" "slot_ok (make_mark_authenticated sid ct user)" "slot_ok (make_start_keepalive_timer cfg sid)"
  "slot_ok (make_reset_keepalive_timer sid)"
  by (simp_all add: make_cancel_timer_def make_mark_authenticated_def make_start_keepalive_timer_def make_reset_keepalive_timer_def
      slot_ok_def zero_response_def)

lemma slot_ok_plugin: "plugin_slot t s = Some r \<Longrightarrow> slot_ok s \<Longrightarrow> slot_ok r"
  by (auto simp: plugin_slot_def slot_ok_def unat_len split: if_splits)

lemma slot_ok_dispatch: "cjson_ok cj \<Longrightarrow> r \<in> set (dispatch_orders cfg cj tv mt target k rs) \<Longrightarrow> slot_ok r"
  by (induction rs arbitrary: k) (auto simp: slot_ok_make split: sum.splits)

lemma slot_ok_gateway: "gateway_dispatches cfg cj pg tv msg k c = (rs, c') \<Longrightarrow> cjson_ok cj \<Longrightarrow> r \<in> set rs \<Longrightarrow> slot_ok r"
  by (auto simp: gateway_dispatches_def dest: slot_ok_dispatch split: if_splits prod.splits)

lemma slot_ok_other:
  assumes "cjson_ok cj" "handle_other_message cfg cj pg tv msg req cat c = (Returned rs, c')" "r \<in> set rs"
  shows "slot_ok r"
proof -
  note ok = slot_ok_make [OF assms(1)] slot_ok_dispatch [OF assms(1)] slot_ok_gateway [OF _ assms(1)] serialize_short [OF assms(1)]
  have send: "slot_ok (zero_response\<lparr>rs_command := SEND, rs_session_id := strncpy_field SESSION_ID_SIZE s\<rparr>)" for s
    by (simp add: slot_ok_def zero_response_def)
  have fwd: "slot_ok (zero_response\<lparr>rs_command := SEND, rs_target_username := strncpy_field CREDENTIALS_SIZE u,
      rs_start_ack_timer := True, rs_timer_timeout := a, rs_max_retries := b, rs_timer_key := k\<rparr>)"
    if "fits TIMESTAMP_SIZE k" for u a b k
    using that by (simp add: slot_ok_def zero_response_def)
  have bcast: "slot_ok (zero_response\<lparr>rs_command := BROADCAST, rs_payload := json, rs_payload_len := word_of_nat (length json)\<rparr>)"
    if "length json \<le> BUFFER_SIZE" for json
    using that by (simp add: slot_ok_def zero_response_def unat_len)
  show ?thesis
    using assms(2,3) ok
    by (cases cat)
       (auto simp: other_defs Let_def bcast
         dest!: slot_ok_plugin [OF _ send] slot_ok_plugin [OF _ fwd] split: prod.splits option.splits sum.splits if_splits)
qed

lemma slot_ok_auth:
  assumes "cjson_ok cj" "handle_auth_request cfg cj pg tv msg req c = (rs, c')" "r \<in> set rs"
  shows "slot_ok r"
  using assms(2,3) slot_ok_make [OF assms(1)] slot_ok_plain
  by (auto simp: handle_auth_request_def Let_def split: prod.splits option.splits sum.splits if_splits)



text \<open>The handler trusts what a message says about its sender. For a session that is not disconnecting, the
  outcome does not depend on the user name and client type the session was authenticated with: any
  authenticated client can speak for any other and can issue administrator and gateway commands.\<close>

theorem sender_identity_unchecked:
  assumes "\<not> rq_is_disconnect req"
  shows "process_request cfg cj pg tv (req\<lparr>rq_username := u, rq_client_type := t\<rparr>) st = process_request cfg cj pg tv req st"
proof -
  let ?req = "req\<lparr>rq_username := u, rq_client_type := t\<rparr>"
  have "handle_other_message cfg cj pg tv msg ?req cat c = handle_other_message cfg cj pg tv msg req cat c" for msg cat c
    by (cases cat) (simp_all add: other_defs split: prod.split option.split sum.split)
  moreover have "handle_auth_request cfg cj pg tv msg ?req c = handle_auth_request cfg cj pg tv msg req c" for msg c
    by (simp add: handle_auth_request_def Let_def split: prod.split option.split sum.split)
  ultimately show ?thesis using assms
    by (simp add: process_request_def Let_def handle_ack_message_def split: sum.split message_category.split)
qed

theorem sender_identity_unchecked_witness:
  "process_request demo_config (demo_text ''CLI_TO_SERVER__ADMIN_COMMAND'') demo_pg demo_tv
     (demo_slot\<lparr>rq_is_authenticated := True, rq_username := ''hub1'', rq_client_type := ''HUB''\<rparr>) demo_state
   = process_request demo_config (demo_text ''CLI_TO_SERVER__ADMIN_COMMAND'') demo_pg demo_tv
     (demo_slot\<lparr>rq_is_authenticated := True, rq_username := ''root'', rq_client_type := ''CLI''\<rparr>) demo_state"
proof -
  have "\<not> rq_is_disconnect (demo_slot\<lparr>rq_is_authenticated := True, rq_username := ''root'', rq_client_type := ''CLI''\<rparr>)"
    by (simp add: demo_slot_def zero_request_def)
  from sender_identity_unchecked [OF this, of demo_config "demo_text ''CLI_TO_SERVER__ADMIN_COMMAND''" demo_pg demo_tv "''HUB''" "''hub1''" demo_state]
  show ?thesis by simp
qed

text \<open>A plug-in text of more than 1024 bytes (the buffers given to the plug-ins have 4096) is copied past the end
  of the payload array of the response slot.\<close>

theorem long_plugin_text_overruns_slot:
  assumes "live_request req st" "rq_is_authenticated req" "deserialize_message_from_json cj (rq_raw_json req) = Inr msg"
    and "msg_type msg = ''CLI_TO_SERVER__ADMIN_COMMAND''" "m_admin_handle cfg = Some handle"
    and "handle (rq_raw_json req) (mh_conn st) = (Some text, c)" "length text > 1024"
  shows "fst (process_request cfg cj pg tv req st) = Overrun"
proof -
  have "categorize_message (msg_type msg) = CLI_COMMAND" unfolding assms(4) by code_simp
  then show ?thesis
    using assms by (auto simp: process_request_def live_request_def Let_def other_defs plugin_slot_def BUFFER_SIZE_def)
qed

theorem long_plugin_text_overruns_slot_witness:
  "fst (process_request (demo_config\<lparr>m_admin_handle := Some (\<lambda>_ c. (Some (replicate 1100 (CHR ''a'')), c))\<rparr>)
     (demo_text ''CLI_TO_SERVER__ADMIN_COMMAND'') demo_pg demo_tv (demo_slot\<lparr>rq_is_authenticated := True\<rparr>) demo_state) = Overrun"
proof -
  let ?req = "demo_slot\<lparr>rq_is_authenticated := True\<rparr>"
  obtain msg where m: "deserialize_message_from_json (demo_text ''CLI_TO_SERVER__ADMIN_COMMAND'') (rq_raw_json demo_slot) = Inr msg"
    by (simp add: deserialize_message_from_json_def demo_text_def demo_cjson_def demo_slot_def)
  have "msg_type msg = ''CLI_TO_SERVER__ADMIN_COMMAND''" unfolding demo_text_parsed [OF m] by code_simp
  moreover have "live_request ?req demo_state" by (simp add: live_request_def demo_slot_def zero_request_def demo_state_def)
  ultimately show ?thesis
    by (intro long_plugin_text_overruns_slot [of ?req demo_state _ msg _ "\<lambda>_ c. (Some (replicate 1100 (CHR ''a'')), c)"
        "replicate 1100 (CHR ''a'')" "mh_conn demo_state"]) (simp_all add: m)
qed

text \<open>An authenticated inventory update with a timestamp the database cannot read makes the request handler
  throw; nothing on the way catches the exception, and the database is as before.\<close>

theorem bad_timestamp_escapes_handler:
  assumes "live_request req st" "rq_is_authenticated req" "deserialize_message_from_json cj (rq_raw_json req) = Inr msg"
    and "msg_type msg = ''HUB_TO_SERVER__INVENTORY_UPDATE''" "source_id msg \<noteq> ''''" "source_role msg \<noteq> ''''"
    and "pg_timestamp pg (timestamp msg) = None"
  shows "fst (process_request cfg cj pg tv req st) = Thrown
     \<and> same_tables (c_db (mh_conn st)) (c_db (mh_conn (snd (process_request cfg cj pg tv req st))))"
proof -
  let ?q = "extract_quantities_from_payload (load_items_list (payload msg))"
  have c: "categorize_message (msg_type msg) = INV_UPDATE" unfolding assms(4) by code_simp
  have "exec (sql_upsert_inventory pg (source_id msg) (source_role msg) ?q (timestamp msg)) w = (None, w\<lparr>w_faults := tl (w_faults w)\<rparr>)" for w
    using assms(7) by (simp add: exec_def sql_upsert_inventory_def Let_def)
  then have "bnd (update_client_inventory pg (source_id msg) (source_role msg) ?q (timestamp msg)) (\<lambda>_. commit) w
      = (None, w\<lparr>w_faults := tl (w_faults w)\<rparr>)" for w
    using assms(5,6) by (simp add: update_client_inventory_def bnd_def)
  then obtain c1 where t: "with_work (bnd (update_client_inventory pg (source_id msg) (source_role msg) ?q (timestamp msg)) (\<lambda>_. commit)) (mh_conn st) = (None, c1)"
      and same: "same_tables (c_db (mh_conn st)) (c_db c1)"
    by (simp add: with_work_def)
  have "process_request cfg cj pg tv req st = (Thrown, st\<lparr>mh_conn := c1\<rparr>)"
    using assms(1-3) c t
    by (auto simp: process_request_def live_request_def Let_def other_defs handle_inventory_update_def)
  with same show ?thesis by simp
qed

theorem bad_timestamp_escapes_handler_witness:
  "fst (process_request demo_config (demo_text ''HUB_TO_SERVER__INVENTORY_UPDATE'') (demo_pg\<lparr>pg_timestamp := \<lambda>_. None\<rparr>) demo_tv
     (demo_slot\<lparr>rq_is_authenticated := True\<rparr>) demo_state) = Thrown"
proof -
  let ?req = "demo_slot\<lparr>rq_is_authenticated := True\<rparr>"
  obtain msg where m: "deserialize_message_from_json (demo_text ''HUB_TO_SERVER__INVENTORY_UPDATE'') (rq_raw_json demo_slot) = Inr msg"
      "source_id msg = strncpy_field ID_SIZE ''hub1''" "source_role msg = strncpy_field ROLE_SIZE ''HUB''"
    by (simp add: deserialize_message_from_json_def demo_text_def demo_cjson_def demo_nodes_def demo_slot_def message_from_tree_def
        field_of_def get_string_def Let_def)
  have "msg_type msg = ''HUB_TO_SERVER__INVENTORY_UPDATE''" unfolding demo_text_parsed [OF m(1)] by code_simp
  moreover have "source_id msg \<noteq> ''''" "source_role msg \<noteq> ''''" unfolding m(2,3) by code_simp+
  moreover have "live_request ?req demo_state" by (simp add: live_request_def demo_slot_def zero_request_def demo_state_def)
  ultimately show ?thesis
    by (intro conjunct1 [OF bad_timestamp_escapes_handler, of ?req demo_state _ msg]) (simp_all add: m(1))
qed

text \<open>The immediate acknowledgment is sent exactly for the parsed messages of authenticated sessions in good
  standing that are neither logins nor acknowledgments and whose sender role can be acknowledged.\<close>

theorem acknowledged_exactly:
  "generate_ack cj tv req \<noteq> None \<longleftrightarrow>
     \<not> rq_is_disconnect req \<and> \<not> rq_is_blacklisted req \<and> rq_is_authenticated req
     \<and> (\<exists>msg. deserialize_message_from_json cj (rq_raw_json req) = Inr msg
          \<and> categorize_message (msg_type msg) \<notin> {AUTH_REQUEST, ACK_MESSAGE}
          \<and> source_role msg \<in> {''HUB'', ''WAREHOUSE'', ''GATEWAY''})"
  by (auto simp: generate_ack_def generate_ack_if_needed_def create_acknowledgment_message_def ack_message_type_def Let_def
      split: sum.splits)

end
