(* ===== verification/Worker.thy ===== *)
theory Worker
  imports Message_Handler
begin

text \<open>
  A worker thread (\<^verbatim>\<open>src/server/worker.cpp\<close>, \<^verbatim>\<open>worker_thread_func\<close>): take a request from the shared queue,
  push its acknowledgment, handle it, push the responses, until the queue is shut down. No handler for
  exceptions surrounds the loop, so an exception out of the request handler ends the process. The
  semaphores are taken when they are available; a thread that would have to wait is \<open>Blocked\<close>. Logging
  and the set-up of the process are not modelled.
\<close>

datatype worker_status = Running | Blocked | Exited | Crashed

type_synonym worker = "shared_queue \<times> mh_state"

fun push_all :: "response_slot_t list \<Rightarrow> shared_queue \<Rightarrow> shared_queue option" where
  "push_all [] q = Some q"
| "push_all (r # rs) q = (if sem_free_resp_slots q = 0 then None else push_all rs (snd (push_response [Sem_ok] r q)))"

definition worker_iteration ::
  "handler_config \<Rightarrow> 'j cjson \<Rightarrow> pg_env \<Rightarrow> (nat \<Rightarrow> timeval) \<Rightarrow> worker \<Rightarrow> worker_status \<times> worker" where
  "worker_iteration cfg cj pg tv w =
     (case w of (q, st) \<Rightarrow>
      (case wait_request [Sem_ok] q of
         (None, q1) \<Rightarrow> (Blocked, (q1, st))
       | (Some None, q1) \<Rightarrow> (Exited, (q1, st))
       | (Some (Some req), q1) \<Rightarrow>
           (case push_all (case generate_ack cj tv req of None \<Rightarrow> [] | Some ack \<Rightarrow> [ack]) q1 of
              None \<Rightarrow> (Blocked, (q1, st))
            | Some q2 \<Rightarrow>
                (case process_request cfg cj pg tv req st of
                   (Returned rs, st') \<Rightarrow>
                     (case push_all rs q2 of None \<Rightarrow> (Blocked, (q2, st')) | Some q3 \<Rightarrow> (Running, (q3, st')))
                 | (_, st') \<Rightarrow> (Crashed, (q2, st'))))))"

text \<open>At most \<open>n\<close> iterations; the clock readings of iteration \<open>k\<close> are \<open>tv k\<close>.\<close>

fun worker_thread_func ::
  "handler_config \<Rightarrow> 'j cjson \<Rightarrow> pg_env \<Rightarrow> (nat \<Rightarrow> nat \<Rightarrow> timeval) \<Rightarrow> nat \<Rightarrow> nat \<Rightarrow> worker \<Rightarrow> worker_status \<times> worker" where
  "worker_thread_func cfg cj pg tv k 0 w = (Running, w)"
| "worker_thread_func cfg cj pg tv k (Suc n) w =
     (case worker_iteration cfg cj pg (tv k) w of
        (Running, w') \<Rightarrow> worker_thread_func cfg cj pg tv (Suc k) n w'
      | (s, w') \<Rightarrow> (s, w'))"

section \<open>What a worker owes the reactor\<close>

fun worker_outputs ::
  "handler_config \<Rightarrow> 'j cjson \<Rightarrow> pg_env \<Rightarrow> (nat \<Rightarrow> nat \<Rightarrow> timeval) \<Rightarrow> nat \<Rightarrow> request_slot_t list \<Rightarrow> mh_state \<Rightarrow>
   (response_slot_t list \<times> mh_state) option" where
  "worker_outputs cfg cj pg tv k [] st = Some ([], st)"
| "worker_outputs cfg cj pg tv k (req # reqs) st =
     (case process_request cfg cj pg (tv k) req st of
        (Returned rs, st') \<Rightarrow>
          map_option (\<lambda>(out, st''). ((case generate_ack cj (tv k) req of None \<Rightarrow> [] | Some ack \<Rightarrow> [ack]) @ rs @ out, st''))
            (worker_outputs cfg cj pg tv (Suc k) reqs st')
      | _ \<Rightarrow> None)"

lemma push_response_req: "push_response s r q = (b, q') \<Longrightarrow> req_contents q' = req_contents q \<and> (req_ok n q' \<longleftrightarrow> req_ok n q)"
  by (auto simp: push_response_def req_contents_def req_ok_def Let_def split: option.splits bool.splits prod.splits if_splits)

lemma wait_request_resp: "wait_request s q = (r, q') \<Longrightarrow> resp_contents q' = resp_contents q \<and> (resp_ok n q' \<longleftrightarrow> resp_ok n q)"
  by (auto simp: wait_request_def wait_request_claim_def wait_request_copy_def resp_contents_def resp_ok_def Let_def
      split: option.splits bool.splits prod.splits if_splits wait_claim.splits)

lemma wait_first:
  assumes "req_ok b q" "req_contents q = x # xs"
  obtains q' where "wait_request [Sem_ok] q = (Some (Some x), q')" "req_contents q' = xs" "req_ok b q'"
  using req_pop_first [OF assms] that
  by (auto simp: take_request_def split: prod.splits option.splits)

lemma push_all_room:
  assumes "resp_ok (length rs + b) q" "length (resp_contents q) + length rs \<le> RESPONSE_QUEUE_SIZE"
  obtains q' where "push_all rs q = Some q'" "resp_contents q' = resp_contents q @ rs" "resp_ok b q'"
    "req_contents q' = req_contents q" "\<And>n. req_ok n q' \<longleftrightarrow> req_ok n q"
proof -
  from assms have "\<exists>q'. push_all rs q = Some q' \<and> resp_contents q' = resp_contents q @ rs \<and> resp_ok b q'
      \<and> req_contents q' = req_contents q \<and> (\<forall>n. req_ok n q' \<longleftrightarrow> req_ok n q)"
  proof (induction rs arbitrary: q)
    case (Cons r rs)
    have ok: "resp_ok (Suc (length rs + b)) q" using Cons.prems(1) by simp
    then obtain q1 where q1: "push_response [Sem_ok] r q = (True, q1)" "resp_contents q1 = resp_contents q @ [r]" "resp_ok (length rs + b) q1"
      using resp_push_room [OF ok] Cons.prems(2) by auto
    have "sem_free_resp_slots q \<noteq> 0"
      using Cons.prems by (auto simp: resp_ok_def resp_contents_def)
    then have p: "push_all (r # rs) q = push_all rs q1" using q1(1) by simp
    have len: "length (resp_contents q1) + length rs \<le> RESPONSE_QUEUE_SIZE" using q1(2) Cons.prems(2) by simp
    show ?case unfolding p using Cons.IH [OF q1(3) len] q1(2) push_response_req [OF q1(1)] by simp
  qed simp
  then show thesis using that by blast
qed

text \<open>C20: A single worker thread serves its queue: when no handler throws and the response ring has room, after as
  many iterations as there were requests the request ring is empty, the handler's state is that of
  handling the requests in order, and for each request in order the response ring has received its
  acknowledgment followed by its responses.\<close>

theorem worker_serves_queue:
  assumes "req_ok b q" "req_contents q = reqs" "worker_outputs cfg cj pg tv k reqs st = Some (out, st')"
    and "resp_ok (length out) q" "length (resp_contents q) + length out \<le> RESPONSE_QUEUE_SIZE"
  shows "\<exists>q'. worker_thread_func cfg cj pg tv k (length reqs) (q, st) = (Running, (q', st'))
     \<and> req_contents q' = [] \<and> resp_contents q' = resp_contents q @ out"
  using assms
proof (induction reqs arbitrary: q st k out)
  case (Cons req reqs)
  let ?ack = "case generate_ack cj (tv k) req of None \<Rightarrow> [] | Some ack \<Rightarrow> [ack]"
  obtain rs st1 out1 where p: "process_request cfg cj pg (tv k) req st = (Returned rs, st1)"
    and o: "worker_outputs cfg cj pg tv (Suc k) reqs st1 = Some (out1, st')" "out = ?ack @ rs @ out1"
    using Cons.prems(3) by (auto split: prod.splits outcome.splits)
  obtain q1 where q1: "wait_request [Sem_ok] q = (Some (Some req), q1)" "req_contents q1 = reqs" "req_ok b q1"
    using wait_first [OF Cons.prems(1,2)] .
  note w = wait_request_resp [OF q1(1)]
  obtain q2 where q2: "push_all ?ack q1 = Some q2" "resp_contents q2 = resp_contents q1 @ ?ack"
    "resp_ok (length rs + length out1) q2" "req_contents q2 = req_contents q1" "\<And>n. req_ok n q2 \<longleftrightarrow> req_ok n q1"
    by (rule push_all_room [of ?ack "length rs + length out1" q1]) (use w Cons.prems(4,5) o(2) in \<open>simp_all add: add.assoc\<close>)
  obtain q3 where q3: "push_all rs q2 = Some q3" "resp_contents q3 = resp_contents q2 @ rs" "resp_ok (length out1) q3"
    "req_contents q3 = req_contents q2" "\<And>n. req_ok n q3 \<longleftrightarrow> req_ok n q2"
    by (rule push_all_room [OF q2(3)]) (use w q2(2) Cons.prems(5) o(2) in \<open>simp_all\<close>)
  have it: "worker_iteration cfg cj pg (tv k) (q, st) = (Running, (q3, st1))"
    by (simp add: worker_iteration_def q1(1) q2(1) p q3(1))
  have "\<exists>q'. worker_thread_func cfg cj pg tv (Suc k) (length reqs) (q3, st1) = (Running, (q', st'))
      \<and> req_contents q' = [] \<and> resp_contents q' = resp_contents q3 @ out1"
    by (rule Cons.IH [OF _ _ o(1) q3(3)]) (use q1 q2 q3 w Cons.prems(5) o(2) in simp_all)
  then show ?case using it q2(2) q3(2) w o(2) by simp
qed simp

definition demo_queue :: "request_slot_t \<Rightarrow> shared_queue" where
  "demo_queue req = snd (push_request req create_queue)"

lemma demo_queue_ok: "req_ok 0 (demo_queue req)" "req_contents (demo_queue req) = [req]" "resp_contents (demo_queue req) = []"
    "n < 2 ^ 64 \<Longrightarrow> resp_ok n (demo_queue req)"
proof -
  obtain q where q: "push_request req create_queue = (True, q)" "req_contents q = [req]" "req_ok 0 q"
    using req_push_room [OF create_queue_ok(1) [of 0], of req 0] by (auto simp: create_queue_ok(3) REQUEST_QUEUE_SIZE_def)
  then show "req_ok 0 (demo_queue req)" "req_contents (demo_queue req) = [req]" by (simp_all add: demo_queue_def)
  show "resp_contents (demo_queue req) = []" "n < 2 ^ 64 \<Longrightarrow> resp_ok n (demo_queue req)"
    using create_queue_ok(2) [of n] create_queue_ok(4)
    by (auto simp: demo_queue_def push_request_def resp_contents_def resp_ok_def Let_def split: option.splits)
qed

theorem worker_serves_queue_witness:
  "\<exists>q'. worker_thread_func demo_config (demo_text ''HUB_TO_SERVER__STOCK_REQUEST'') demo_pg (\<lambda>_. demo_tv) 0 1
       (demo_queue demo_slot, demo_state) = (Running, (q', demo_state)) \<and> req_contents q' = []"
proof -
  let ?cj = "demo_text ''HUB_TO_SERVER__STOCK_REQUEST''"
  have "process_request demo_config ?cj demo_pg demo_tv demo_slot demo_state = (Returned [], demo_state)" "generate_ack ?cj demo_tv demo_slot = None"
    by code_simp+
  then have "worker_outputs demo_config ?cj demo_pg (\<lambda>_. demo_tv) 0 [demo_slot] demo_state = Some ([], demo_state)" by simp
  from worker_serves_queue [OF demo_queue_ok(1,2) this] show ?thesis
    by (auto simp: demo_queue_ok(3) demo_queue_ok(4) [of 0])
qed

text \<open>A request whose handling throws ends the worker for good: the requests behind it stay in the queue,
  however long the process is given.\<close>

theorem exception_kills_worker:
  assumes "req_ok b q" "req_contents q = req # reqs" "fst (process_request cfg cj pg (tv k) req st) = Thrown"
    and "resp_ok 1 q" "length (resp_contents q) < RESPONSE_QUEUE_SIZE"
  shows "\<exists>q' st'. worker_thread_func cfg cj pg tv k (Suc n) (q, st) = (Crashed, (q', st')) \<and> req_contents q' = reqs"
proof -
  let ?ack = "case generate_ack cj (tv k) req of None \<Rightarrow> [] | Some ack \<Rightarrow> [ack]"
  obtain st1 where p: "process_request cfg cj pg (tv k) req st = (Thrown, st1)" using assms(3) by (cases "process_request cfg cj pg (tv k) req st") simp
  obtain q1 where q1: "wait_request [Sem_ok] q = (Some (Some req), q1)" "req_contents q1 = reqs" "req_ok b q1"
    using wait_first [OF assms(1,2)] .
  note w = wait_request_resp [OF q1(1)]
  have "resp_ok (length ?ack + 0) q1" using w assms(4) by (auto simp: resp_ok_def split: option.splits)
  then obtain q2 where q2: "push_all ?ack q1 = Some q2" "req_contents q2 = req_contents q1"
    by (rule push_all_room) (use w assms(5) in \<open>auto split: option.splits\<close>)
  then show ?thesis by (simp add: worker_iteration_def q1 p)
qed

theorem exception_kills_worker_witness:
  "\<exists>q' st'. worker_thread_func demo_config (demo_text ''HUB_TO_SERVER__INVENTORY_UPDATE'') (demo_pg\<lparr>pg_timestamp := \<lambda>_. None\<rparr>)
       (\<lambda>_. demo_tv) 0 1000 (demo_queue (demo_slot\<lparr>rq_is_authenticated := True\<rparr>), demo_state) = (Crashed, (q', st'))"
proof -
  let ?cj = "demo_text ''HUB_TO_SERVER__INVENTORY_UPDATE''"
  let ?req = "demo_slot\<lparr>rq_is_authenticated := True\<rparr>"
  have "fst (process_request demo_config ?cj (demo_pg\<lparr>pg_timestamp := \<lambda>_. None\<rparr>) demo_tv ?req demo_state) = Thrown"
    by code_simp
  then have t: "fst (process_request demo_config ?cj (demo_pg\<lparr>pg_timestamp := \<lambda>_. None\<rparr>) ((\<lambda>_. demo_tv) 0) ?req demo_state) = Thrown" .
  have "resp_ok 1 (demo_queue ?req)" by (rule demo_queue_ok(4)) simp
  moreover have "length (resp_contents (demo_queue ?req)) < RESPONSE_QUEUE_SIZE" by (simp add: demo_queue_ok(3) RESPONSE_QUEUE_SIZE_def)
  ultimately have "\<exists>q' st'. worker_thread_func demo_config ?cj (demo_pg\<lparr>pg_timestamp := \<lambda>_. None\<rparr>) (\<lambda>_. demo_tv) 0 (Suc 999)
      (demo_queue ?req, demo_state) = (Crashed, (q', st')) \<and> req_contents q' = []"
    using exception_kills_worker [OF demo_queue_ok(1,2), where tv = "\<lambda>_. demo_tv" and k = 0 and n = 999] t by blast
  moreover have "Suc 999 = 1000" by simp
  ultimately show ?thesis by metis
qed

end
