(* ===== verification/Session_Manager.thy ===== *)
theory Session_Manager
  imports Posix_Address
begin

text \<open>
  The session table of the reactor (\<^verbatim>\<open>include/server/session_manager.hpp\<close>,
  \<^verbatim>\<open>src/server/session_manager.cpp\<close>): session records by identifier and a reverse index from user name
  to session. The hash maps are association lists whose order stands for the iteration order. The
  invariant \<open>sess_inv\<close> says that the index only names live sessions authenticated under that name; the
  interface \<open>session_store\<close> states what the server relies on.
\<close>

section \<open>Data\<close>

datatype connection_type = Conn_TCP | Conn_UDP

record session_info =
  si_session_id :: string
  si_is_authenticated :: bool
  si_is_blacklisted :: bool
  si_client_type :: string
  si_username :: string
  si_type :: connection_type
  si_udp_endpoint :: "posix_address option"
  si_tcp_session_ref :: "nat option"

record session_manager =
  m_sessions :: "(string, session_info) amap"
  m_username_to_session :: "(string, string) amap"
  m_session_counter :: u64

definition TCP_SESSION_PREFIX :: string where "TCP_SESSION_PREFIX = ''tcp_session_''"
definition UDP_SESSION_PREFIX :: string where "UDP_SESSION_PREFIX = ''udp_''"
definition UDP_SESSION_SEPARATOR :: char where "UDP_SESSION_SEPARATOR = CHR ''_''"

definition new_session_manager :: session_manager where
  "new_session_manager = \<lparr>m_sessions = [], m_username_to_session = [], m_session_counter = 0\<rparr>"

definition new_session_info :: "string \<Rightarrow> connection_type \<Rightarrow> posix_address option \<Rightarrow> session_info" where
  "new_session_info sid ct ep = \<lparr>si_session_id = sid, si_is_authenticated = False,
     si_is_blacklisted = False, si_client_type = '''', si_username = '''', si_type = ct,
     si_udp_endpoint = ep, si_tcp_session_ref = None\<rparr>"

section \<open>Operations\<close>

definition create_session :: "session_manager \<Rightarrow> string \<times> session_manager" where
  "create_session sm =
     (let num = m_session_counter sm + 1;
          sid = TCP_SESSION_PREFIX @ show_nat (unat num);
          info = new_session_info sid Conn_TCP None
      in (sid, sm\<lparr>m_session_counter := num, m_sessions := AList.update sid info (m_sessions sm)\<rparr>))"

definition make_udp_session_id :: "ntop \<Rightarrow> posix_address \<Rightarrow> string" where
  "make_udp_session_id inet_ntop ep =
     UDP_SESSION_PREFIX @ ip_string inet_ntop ep @ [UDP_SESSION_SEPARATOR] @ show_nat (unat (port_of ep))"

definition get_or_create_udp_session :: "ntop \<Rightarrow> posix_address \<Rightarrow> session_manager \<Rightarrow> string \<times> session_manager" where
  "get_or_create_udp_session inet_ntop ep sm =
     (let sid = make_udp_session_id inet_ntop ep in
      case alookup (m_sessions sm) sid of
        Some info \<Rightarrow>
          (sid, sm\<lparr>m_sessions := AList.update sid (info\<lparr>si_udp_endpoint := Some ep\<rparr>) (m_sessions sm)\<rparr>)
      | None \<Rightarrow>
          (sid, sm\<lparr>m_sessions := AList.update sid (new_session_info sid Conn_UDP (Some ep)) (m_sessions sm)\<rparr>))"

definition mark_authenticated :: "string \<Rightarrow> string \<Rightarrow> string \<Rightarrow> session_manager \<Rightarrow> session_manager" where
  "mark_authenticated sid ct u sm =
     (case alookup (m_sessions sm) sid of
        None \<Rightarrow> sm
      | Some info \<Rightarrow>
          (let idx = (if si_username info \<noteq> '''' then AList.delete (si_username info) (m_username_to_session sm)
                      else m_username_to_session sm);
               info = info\<lparr>si_is_authenticated := True, si_client_type := ct, si_username := u\<rparr>;
               idx = (if u \<noteq> '''' then AList.update u sid idx else idx)
           in sm\<lparr>m_sessions := AList.update sid info (m_sessions sm), m_username_to_session := idx\<rparr>))"

definition is_authenticated :: "session_manager \<Rightarrow> string \<Rightarrow> bool" where
  "is_authenticated sm sid = (case alookup (m_sessions sm) sid of
      Some info \<Rightarrow> si_is_authenticated info | None \<Rightarrow> False)"

definition is_blacklisted :: "session_manager \<Rightarrow> string \<Rightarrow> bool" where
  "is_blacklisted sm sid = (case alookup (m_sessions sm) sid of
      Some info \<Rightarrow> si_is_blacklisted info | None \<Rightarrow> False)"

definition blacklist_session :: "string \<Rightarrow> session_manager \<Rightarrow> session_manager" where
  "blacklist_session sid sm =
     (case alookup (m_sessions sm) sid of
        None \<Rightarrow> sm
      | Some info \<Rightarrow>
          sm\<lparr>m_sessions := AList.update sid (info\<lparr>si_is_blacklisted := True\<rparr>) (m_sessions sm),
             m_username_to_session :=
               (if si_username info \<noteq> '''' then AList.delete (si_username info) (m_username_to_session sm)
                else m_username_to_session sm)\<rparr>)"

definition get_session_info :: "session_manager \<Rightarrow> string \<Rightarrow> session_info option" where
  "get_session_info sm sid = alookup (m_sessions sm) sid"

definition remove_session :: "string \<Rightarrow> session_manager \<Rightarrow> session_manager" where
  "remove_session sid sm =
     (case alookup (m_sessions sm) sid of
        None \<Rightarrow> sm
      | Some info \<Rightarrow>
          sm\<lparr>m_username_to_session :=
               (if si_username info \<noteq> '''' then AList.delete (si_username info) (m_username_to_session sm)
                else m_username_to_session sm),
             m_sessions := AList.delete sid (m_sessions sm)\<rparr>)"

definition get_client_type :: "session_manager \<Rightarrow> string \<Rightarrow> string" where
  "get_client_type sm sid = (case alookup (m_sessions sm) sid of
      Some info \<Rightarrow> si_client_type info | None \<Rightarrow> '''')"

definition find_session_by_username :: "session_manager \<Rightarrow> string \<Rightarrow> string" where
  "find_session_by_username sm u =
     (case alookup (m_username_to_session sm) u of
        None \<Rightarrow> ''''
      | Some sid \<Rightarrow>
          (case alookup (m_sessions sm) sid of
             None \<Rightarrow> ''''
           | Some info \<Rightarrow> if si_is_authenticated info \<and> \<not> si_is_blacklisted info then sid else ''''))"

definition has_session :: "session_manager \<Rightarrow> string \<Rightarrow> bool" where
  "has_session sm sid \<longleftrightarrow> alookup (m_sessions sm) sid \<noteq> None"

definition get_authenticated_sessions :: "session_manager \<Rightarrow> string list" where
  "get_authenticated_sessions sm =
     map fst (filter (\<lambda>(sid, info). si_is_authenticated info \<and> \<not> si_is_blacklisted info) (m_sessions sm))"

definition get_udp_endpoint :: "session_manager \<Rightarrow> string \<Rightarrow> posix_address option" where
  "get_udp_endpoint sm sid = (case alookup (m_sessions sm) sid of
      Some info \<Rightarrow> si_udp_endpoint info | None \<Rightarrow> None)"

definition set_tcp_session :: "string \<Rightarrow> nat \<Rightarrow> session_manager \<Rightarrow> session_manager" where
  "set_tcp_session sid ref sm =
     (case alookup (m_sessions sm) sid of
        None \<Rightarrow> sm
      | Some info \<Rightarrow> sm\<lparr>m_sessions := AList.update sid (info\<lparr>si_tcp_session_ref := Some ref\<rparr>) (m_sessions sm)\<rparr>)"

text \<open>The calls that change the table, as one type, and their runs.\<close>

datatype session_op =
    Op_create
  | Op_udp posix_address
  | Op_mark string string string
  | Op_blacklist string
  | Op_remove string
  | Op_set_tcp string nat

fun session_step :: "ntop \<Rightarrow> session_op \<Rightarrow> session_manager \<Rightarrow> session_manager" where
  "session_step ntp Op_create sm = snd (create_session sm)"
| "session_step ntp (Op_udp ep) sm = snd (get_or_create_udp_session ntp ep sm)"
| "session_step ntp (Op_mark sid ct u) sm = mark_authenticated sid ct u sm"
| "session_step ntp (Op_blacklist sid) sm = blacklist_session sid sm"
| "session_step ntp (Op_remove sid) sm = remove_session sid sm"
| "session_step ntp (Op_set_tcp sid ref) sm = set_tcp_session sid ref sm"

definition session_run :: "ntop \<Rightarrow> session_op list \<Rightarrow> session_manager \<Rightarrow> session_manager" where
  "session_run ntp ops sm = fold (session_step ntp) ops sm"

section \<open>The table invariant\<close>

definition entry_ok :: "string \<Rightarrow> session_info \<Rightarrow> bool" where
  "entry_ok sid info \<longleftrightarrow> si_session_id info = sid \<and> sid \<noteq> ''''
     \<and> (si_username info \<noteq> '''' \<longrightarrow> si_is_authenticated info)"

definition index_ok :: "(string, session_info) amap \<Rightarrow> (string, string) amap \<Rightarrow> bool" where
  "index_ok ss idx \<longleftrightarrow> (\<forall>u sid. alookup idx u = Some sid \<longrightarrow>
      u \<noteq> '''' \<and> map_option si_username (alookup ss sid) = Some u)"

definition tcp_ids_ok :: "(string, session_info) amap \<Rightarrow> u64 \<Rightarrow> bool" where
  "tcp_ids_ok ss n \<longleftrightarrow> (\<forall>k. ahas ss (TCP_SESSION_PREFIX @ show_nat k) \<longrightarrow> k \<le> unat n)"

definition sess_inv :: "session_manager \<Rightarrow> bool" where
  "sess_inv sm \<longleftrightarrow>
     amap_wf (m_sessions sm) \<and> amap_wf (m_username_to_session sm)
     \<and> (\<forall>sid info. alookup (m_sessions sm) sid = Some info \<longrightarrow> entry_ok sid info)
     \<and> index_ok (m_sessions sm) (m_username_to_session sm)
     \<and> tcp_ids_ok (m_sessions sm) (m_session_counter sm)"

lemma sess_inv_entry: "sess_inv sm \<Longrightarrow> alookup (m_sessions sm) sid = Some info \<Longrightarrow> entry_ok sid info"
  by (simp add: sess_inv_def)

lemma sess_inv_index:
  "sess_inv sm \<Longrightarrow> alookup (m_username_to_session sm) u = Some sid \<Longrightarrow>
   u \<noteq> '''' \<and> map_option si_username (alookup (m_sessions sm) sid) = Some u"
  unfolding sess_inv_def index_ok_def by blast

lemma udp_not_tcp: "make_udp_session_id ntp ep \<noteq> TCP_SESSION_PREFIX @ s"
  by (simp add: make_udp_session_id_def UDP_SESSION_PREFIX_def TCP_SESSION_PREFIX_def)

lemma udp_id_not_Nil [simp]: "make_udp_session_id ntp ep \<noteq> ''''"
  by (simp add: make_udp_session_id_def UDP_SESSION_PREFIX_def)

lemma tcp_id_not_Nil [simp]: "TCP_SESSION_PREFIX @ s \<noteq> ''''"
  by (simp add: TCP_SESSION_PREFIX_def)

text \<open>Writing one record, with the index entries that may go with it, keeps the invariant.\<close>

lemma sess_inv_put:
  assumes inv: "sess_inv sm" and e: "entry_ok sid info" and w: "amap_wf idx"
    and idx: "\<And>u s. alookup idx u = Some s \<Longrightarrow> u \<noteq> '''' \<and>
       (s = sid \<and> si_username info = u \<or> s \<noteq> sid \<and> alookup (m_username_to_session sm) u = Some s)"
    and cnt: "unat (m_session_counter sm) \<le> unat n"
    and k: "\<And>k. sid = TCP_SESSION_PREFIX @ show_nat k \<Longrightarrow> k \<le> unat n"
  shows "sess_inv (sm\<lparr>m_sessions := AList.update sid info (m_sessions sm),
                      m_username_to_session := idx, m_session_counter := n\<rparr>)"
proof -
  have "index_ok (AList.update sid info (m_sessions sm)) idx"
    using idx sess_inv_index [OF inv] by (fastforce simp: index_ok_def)
  moreover have "tcp_ids_ok (AList.update sid info (m_sessions sm)) n"
    using inv cnt k unfolding sess_inv_def tcp_ids_ok_def ahas_def
    by (metis alookup_update order.trans)
  ultimately show ?thesis
    using inv e w by (simp add: sess_inv_def)
qed

lemma sess_inv_new: "sess_inv new_session_manager"
  by (simp add: sess_inv_def new_session_manager_def ahas_def index_ok_def tcp_ids_ok_def)

lemma fresh_not_indexed:
  assumes "sess_inv sm" "alookup (m_sessions sm) sid = None"
  shows "alookup (m_username_to_session sm) u \<noteq> Some sid"
  using sess_inv_index [OF assms(1), of u sid] assms(2) by auto

lemma session_counter_fresh:
  assumes inv: "sess_inv sm" and k: "unat (m_session_counter sm) < k"
  shows "alookup (m_sessions sm) (TCP_SESSION_PREFIX @ show_nat k) = None"
proof -
  have "\<not> ahas (m_sessions sm) (TCP_SESSION_PREFIX @ show_nat k)"
    using inv k by (auto simp: sess_inv_def tcp_ids_ok_def)
  then show ?thesis by (simp add: ahas_def)
qed

lemma counter_suc: "unat n < 2 ^ 64 - 1 \<Longrightarrow> unat (n + 1 :: u64) = Suc (unat n)"
  by (simp add: unat_word_ariths)

lemma sess_inv_create:
  assumes inv: "sess_inv sm" and nowrap: "unat (m_session_counter sm) < 2 ^ 64 - 1"
  shows "sess_inv (snd (create_session sm))"
proof -
  let ?n = "m_session_counter sm + 1"
  let ?sid = "TCP_SESSION_PREFIX @ show_nat (unat ?n)"
  have n: "unat ?n = Suc (unat (m_session_counter sm))" using nowrap by (rule counter_suc)
  have f: "alookup (m_sessions sm) ?sid = None"
    by (rule session_counter_fresh [OF inv]) (simp add: n)
  have "sess_inv (sm\<lparr>m_sessions := AList.update ?sid (new_session_info ?sid Conn_TCP None) (m_sessions sm),
      m_username_to_session := m_username_to_session sm, m_session_counter := ?n\<rparr>)"
  proof (rule sess_inv_put [OF inv])
    show "entry_ok ?sid (new_session_info ?sid Conn_TCP None)"
      by (simp add: entry_ok_def new_session_info_def)
    show "amap_wf (m_username_to_session sm)" using inv by (simp add: sess_inv_def)
  qed (use n sess_inv_index [OF inv] fresh_not_indexed [OF inv f] in auto)
  then show ?thesis by (simp add: create_session_def Let_def sess_inv_def)
qed

lemma sess_inv_put_same:
  assumes inv: "sess_inv sm" and l: "alookup (m_sessions sm) sid = Some i"
    and e: "si_session_id info = si_session_id i" "si_username info = si_username i"
      "si_is_authenticated info = si_is_authenticated i"
  shows "sess_inv (sm\<lparr>m_sessions := AList.update sid info (m_sessions sm)\<rparr>)"
proof -
  have "sess_inv (sm\<lparr>m_sessions := AList.update sid info (m_sessions sm),
      m_username_to_session := m_username_to_session sm, m_session_counter := m_session_counter sm\<rparr>)"
  proof (rule sess_inv_put [OF inv])
    show "entry_ok sid info" using sess_inv_entry [OF inv l] e by (simp add: entry_ok_def)
    show "amap_wf (m_username_to_session sm)" using inv by (simp add: sess_inv_def)
    show "u \<noteq> '''' \<and> (s = sid \<and> si_username info = u \<or> s \<noteq> sid \<and> alookup (m_username_to_session sm) u = Some s)"
      if "alookup (m_username_to_session sm) u = Some s" for u s
      using sess_inv_index [OF inv that] l e that by auto
    show "k \<le> unat (m_session_counter sm)" if "sid = TCP_SESSION_PREFIX @ show_nat k" for k
      using inv l that by (auto simp: sess_inv_def tcp_ids_ok_def ahas_def)
  qed simp
  then show ?thesis by simp
qed

lemma sess_inv_udp:
  assumes inv: "sess_inv sm"
  shows "sess_inv (snd (get_or_create_udp_session ntp ep sm))"
proof (cases "alookup (m_sessions sm) (make_udp_session_id ntp ep)")
  case None
  let ?sid = "make_udp_session_id ntp ep"
  have "sess_inv (sm\<lparr>m_sessions := AList.update ?sid (new_session_info ?sid Conn_UDP (Some ep)) (m_sessions sm),
      m_username_to_session := m_username_to_session sm, m_session_counter := m_session_counter sm\<rparr>)"
  proof (rule sess_inv_put [OF inv])
    show "entry_ok ?sid (new_session_info ?sid Conn_UDP (Some ep))"
      by (simp add: entry_ok_def new_session_info_def)
    show "amap_wf (m_username_to_session sm)" using inv by (simp add: sess_inv_def)
  qed (use udp_not_tcp sess_inv_index [OF inv] fresh_not_indexed [OF inv None] in auto)
  then show ?thesis using None by (simp add: get_or_create_udp_session_def Let_def)
next
  case (Some i)
  then show ?thesis
    using sess_inv_put_same [OF inv Some] by (simp add: get_or_create_udp_session_def Let_def)
qed

lemma sess_inv_mark:
  assumes inv: "sess_inv sm"
  shows "sess_inv (mark_authenticated sid ct u sm)"
proof (cases "alookup (m_sessions sm) sid")
  case None
  then show ?thesis using inv by (simp add: mark_authenticated_def)
next
  case (Some i)
  let ?info = "i\<lparr>si_is_authenticated := True, si_client_type := ct, si_username := u\<rparr>"
  let ?idx0 = "if si_username i \<noteq> '''' then AList.delete (si_username i) (m_username_to_session sm)
               else m_username_to_session sm"
  let ?idx = "if u \<noteq> '''' then AList.update u sid ?idx0 else ?idx0"
  have "sess_inv (sm\<lparr>m_sessions := AList.update sid ?info (m_sessions sm),
      m_username_to_session := ?idx, m_session_counter := m_session_counter sm\<rparr>)"
  proof (rule sess_inv_put [OF inv])
    show "entry_ok sid ?info" using sess_inv_entry [OF inv Some] by (simp add: entry_ok_def)
    show "amap_wf ?idx" using inv by (simp add: sess_inv_def)
    show "u' \<noteq> '''' \<and> (s = sid \<and> si_username ?info = u' \<or> s \<noteq> sid \<and> alookup (m_username_to_session sm) u' = Some s)"
      if "alookup ?idx u' = Some s" for u' s
      using that sess_inv_index [OF inv, of u' s] Some by (auto split: if_splits)
    show "k \<le> unat (m_session_counter sm)" if "sid = TCP_SESSION_PREFIX @ show_nat k" for k
      using inv Some that by (auto simp: sess_inv_def tcp_ids_ok_def ahas_def)
  qed simp
  then show ?thesis using Some by (simp add: mark_authenticated_def Let_def)
qed

lemma sess_inv_drop_index:
  "sess_inv sm \<Longrightarrow> sess_inv (sm\<lparr>m_username_to_session := AList.delete u (m_username_to_session sm)\<rparr>)"
  by (auto simp: sess_inv_def index_ok_def)

lemma sess_inv_blacklist:
  assumes inv: "sess_inv sm"
  shows "sess_inv (blacklist_session sid sm)"
proof (cases "alookup (m_sessions sm) sid")
  case None
  then show ?thesis using inv by (simp add: blacklist_session_def)
next
  case (Some i)
  have "sess_inv (sm\<lparr>m_sessions := AList.update sid (i\<lparr>si_is_blacklisted := True\<rparr>) (m_sessions sm)\<rparr>)"
    by (rule sess_inv_put_same [OF inv Some]) simp_all
  then show ?thesis
    using Some sess_inv_drop_index [of "sm\<lparr>m_sessions := AList.update sid (i\<lparr>si_is_blacklisted := True\<rparr>) (m_sessions sm)\<rparr>"]
    by (simp add: blacklist_session_def)
qed

lemma sess_inv_remove:
  assumes inv: "sess_inv sm"
  shows "sess_inv (remove_session sid sm)"
proof (cases "alookup (m_sessions sm) sid")
  case None
  then show ?thesis using inv by (simp add: remove_session_def)
next
  case (Some i)
  let ?idx = "if si_username i \<noteq> '''' then AList.delete (si_username i) (m_username_to_session sm)
              else m_username_to_session sm"
  have "index_ok (AList.delete sid (m_sessions sm)) ?idx"
    using sess_inv_index [OF inv] Some by (fastforce simp: index_ok_def split: if_splits)
  moreover have "tcp_ids_ok (AList.delete sid (m_sessions sm)) (m_session_counter sm)"
    using inv by (auto simp: sess_inv_def tcp_ids_ok_def ahas_def)
  ultimately show ?thesis
    using inv Some by (simp add: sess_inv_def remove_session_def)
qed

lemma sess_inv_set_tcp: "sess_inv sm \<Longrightarrow> sess_inv (set_tcp_session sid ref sm)"
  using sess_inv_put_same by (fastforce simp: set_tcp_session_def split: option.splits)

lemmas sess_inv_ops = sess_inv_udp sess_inv_mark sess_inv_blacklist sess_inv_remove sess_inv_set_tcp

section \<open>What the server relies on\<close>

text \<open>
  The contract the reactor uses: the record of a session after each call, and that a session found by
  user name is live, authenticated under that name and not blacklisted.
\<close>

locale session_store =
  fixes inv :: "'s \<Rightarrow> bool"
    and info_of :: "'s \<Rightarrow> string \<Rightarrow> session_info option"
    and find_user :: "'s \<Rightarrow> string \<Rightarrow> string"
    and mark :: "string \<Rightarrow> string \<Rightarrow> string \<Rightarrow> 's \<Rightarrow> 's"
    and blacklist :: "string \<Rightarrow> 's \<Rightarrow> 's"
    and remove :: "string \<Rightarrow> 's \<Rightarrow> 's"
  assumes inv_mark: "inv s \<Longrightarrow> inv (mark sid ct u s)"
    and inv_blacklist: "inv s \<Longrightarrow> inv (blacklist sid s)"
    and inv_remove: "inv s \<Longrightarrow> inv (remove sid s)"
    and info_mark: "info_of (mark sid ct u s) sid' =
        (if sid' = sid then map_option (\<lambda>i. i\<lparr>si_is_authenticated := True, si_client_type := ct, si_username := u\<rparr>) (info_of s sid)
         else info_of s sid')"
    and info_blacklist: "info_of (blacklist sid s) sid' =
        (if sid' = sid then map_option (\<lambda>i. i\<lparr>si_is_blacklisted := True\<rparr>) (info_of s sid) else info_of s sid')"
    and info_remove: "info_of (remove sid s) sid' = (if sid' = sid then None else info_of s sid')"
    and find_sound: "inv s \<Longrightarrow> find_user s u \<noteq> '''' \<Longrightarrow>
        \<exists>i. info_of s (find_user s u) = Some i \<and> si_is_authenticated i \<and> \<not> si_is_blacklisted i \<and> si_username i = u"
    and find_mark: "info_of s sid = Some i \<Longrightarrow> \<not> si_is_blacklisted i \<Longrightarrow> u \<noteq> '''' \<Longrightarrow> find_user (mark sid ct u s) u = sid"
begin

lemma blacklisted_not_found:
  assumes "inv s" "info_of s sid = Some i" "si_is_blacklisted i" "sid \<noteq> ''''"
  shows "find_user s u \<noteq> sid"
  using find_sound [OF assms(1), of u] assms(2-4) by auto

lemma removed_not_found:
  assumes "inv s" "sid \<noteq> ''''"
  shows "find_user (remove sid s) u \<noteq> sid"
  using find_sound [OF inv_remove [OF assms(1)], of sid u] assms(2) info_remove [of sid s sid] by auto

lemma blacklist_hides:
  assumes "inv s" "info_of s sid = Some i" "sid \<noteq> ''''"
  shows "find_user (blacklist sid s) u \<noteq> sid"
  by (rule blacklisted_not_found [OF inv_blacklist [OF assms(1)], where i = "i\<lparr>si_is_blacklisted := True\<rparr>"])
     (simp_all add: info_blacklist assms)

lemma login_found:
  assumes "info_of s sid = Some i" "\<not> si_is_blacklisted i" "u \<noteq> ''''"
  shows "find_user (mark sid ct u s) u = sid \<and>
         info_of (mark sid ct u s) sid = Some (i\<lparr>si_is_authenticated := True, si_client_type := ct, si_username := u\<rparr>)"
  using find_mark [OF assms] assms(1) by (simp add: info_mark)

end

lemma find_session_sound:
  assumes inv: "sess_inv sm" and f: "find_session_by_username sm u \<noteq> ''''"
  shows "\<exists>i. get_session_info sm (find_session_by_username sm u) = Some i
     \<and> si_is_authenticated i \<and> \<not> si_is_blacklisted i \<and> si_username i = u"
proof -
  obtain sid i where u: "alookup (m_username_to_session sm) u = Some sid"
    and i: "alookup (m_sessions sm) sid = Some i" "si_is_authenticated i" "\<not> si_is_blacklisted i"
    using f by (auto simp: find_session_by_username_def split: option.splits if_splits)
  then show ?thesis
    using sess_inv_index [OF inv u] by (simp add: find_session_by_username_def get_session_info_def)
qed

lemma get_session_info_mark:
  "get_session_info (mark_authenticated sid ct u sm) sid' =
     (if sid' = sid
      then map_option (\<lambda>i. i\<lparr>si_is_authenticated := True, si_client_type := ct, si_username := u\<rparr>) (get_session_info sm sid)
      else get_session_info sm sid')"
  by (auto simp: get_session_info_def mark_authenticated_def Let_def split: option.splits)

lemma get_session_info_blacklist:
  "get_session_info (blacklist_session sid sm) sid' =
     (if sid' = sid then map_option (\<lambda>i. i\<lparr>si_is_blacklisted := True\<rparr>) (get_session_info sm sid)
      else get_session_info sm sid')"
  by (auto simp: get_session_info_def blacklist_session_def split: option.splits)

lemma get_session_info_remove:
  "get_session_info (remove_session sid sm) sid' = (if sid' = sid then None else get_session_info sm sid')"
  by (auto simp: get_session_info_def remove_session_def split: option.splits)

lemma find_session_mark:
  "get_session_info sm sid = Some i \<Longrightarrow> \<not> si_is_blacklisted i \<Longrightarrow> u \<noteq> '''' \<Longrightarrow>
   find_session_by_username (mark_authenticated sid ct u sm) u = sid"
  by (simp add: get_session_info_def find_session_by_username_def mark_authenticated_def Let_def)

lemmas session_info_simps = get_session_info_mark get_session_info_blacklist get_session_info_remove

interpretation sess: session_store sess_inv get_session_info find_session_by_username
  mark_authenticated blacklist_session remove_session
  by unfold_locales
     (use find_session_sound find_session_mark in \<open>simp_all add: sess_inv_ops session_info_simps\<close>)

section \<open>Runs\<close>

lemma session_run_Nil [simp]: "session_run ntp [] sm = sm"
  by (simp add: session_run_def)

lemma session_run_Cons [simp]: "session_run ntp (op # ops) sm = session_run ntp ops (session_step ntp op sm)"
  by (simp add: session_run_def)

lemma session_counter_step:
  "unat (m_session_counter (session_step ntp op sm)) \<le> Suc (unat (m_session_counter sm))"
proof (cases op)
  case Op_create
  then show ?thesis by (simp add: create_session_def Let_def unat_word_ariths)
qed (auto simp: get_or_create_udp_session_def mark_authenticated_def blacklist_session_def
      remove_session_def set_tcp_session_def Let_def split: option.splits)

lemma sess_inv_step:
  "sess_inv sm \<Longrightarrow> unat (m_session_counter sm) < 2 ^ 64 - 1 \<Longrightarrow> sess_inv (session_step ntp op sm)"
  by (cases op) (simp_all add: sess_inv_ops sess_inv_create)

lemma sess_inv_run:
  "sess_inv sm \<Longrightarrow> unat (m_session_counter sm) + length ops < 2 ^ 64 \<Longrightarrow> sess_inv (session_run ntp ops sm)"
proof (induction ops arbitrary: sm)
  case (Cons op ops)
  then have "sess_inv (session_step ntp op sm)" by (intro sess_inv_step) auto
  moreover have "unat (m_session_counter (session_step ntp op sm)) + length ops < 2 ^ 64"
    using session_counter_step [of ntp op sm] Cons.prems(2) by simp
  ultimately show ?case using Cons.IH by simp
qed simp

lemma session_counter_run:
  "unat (m_session_counter (session_run ntp ops sm)) \<le> unat (m_session_counter sm) + length ops"
proof (induction ops arbitrary: sm)
  case (Cons op ops)
  show ?case
    using Cons [of "session_step ntp op sm"] session_counter_step [of ntp op sm] by simp
qed simp

lemma is_blacklisted_step:
  assumes "sess_inv sm" "unat (m_session_counter sm) < 2 ^ 64 - 1" "is_blacklisted sm sid" "op \<noteq> Op_remove sid"
  shows "is_blacklisted (session_step ntp op sm) sid"
proof (cases op)
  case Op_create
  have "alookup (m_sessions sm) (TCP_SESSION_PREFIX @ show_nat (unat (m_session_counter sm + 1))) = None"
    by (rule session_counter_fresh [OF assms(1)]) (simp only: counter_suc [OF assms(2)] lessI)
  then show ?thesis
    using assms(3) Op_create by (auto simp: create_session_def Let_def is_blacklisted_def)
qed (use assms in \<open>auto simp: get_or_create_udp_session_def mark_authenticated_def blacklist_session_def
      remove_session_def set_tcp_session_def is_blacklisted_def Let_def split: option.splits\<close>)

lemma is_blacklisted_run:
  "sess_inv sm \<Longrightarrow> unat (m_session_counter sm) + length ops < 2 ^ 64 \<Longrightarrow> is_blacklisted sm sid \<Longrightarrow>
   Op_remove sid \<notin> set ops \<Longrightarrow> is_blacklisted (session_run ntp ops sm) sid"
proof (induction ops arbitrary: sm)
  case (Cons op ops)
  have c: "unat (m_session_counter sm) < 2 ^ 64 - 1" using Cons.prems(2) by simp
  have "is_blacklisted (session_step ntp op sm) sid"
    by (rule is_blacklisted_step [OF Cons.prems(1) c]) (use Cons.prems in auto)
  moreover have "unat (m_session_counter (session_step ntp op sm)) + length ops < 2 ^ 64"
    using session_counter_step [of ntp op sm] Cons.prems(2) by simp
  ultimately show ?case using Cons.IH sess_inv_step [OF Cons.prems(1) c] Cons.prems(4) by simp
qed simp

lemma find_not_blacklisted:
  assumes "sess_inv sm" "is_blacklisted sm sid"
  shows "find_session_by_username sm u \<noteq> sid"
proof -
  obtain i where i: "get_session_info sm sid = Some i" "si_is_blacklisted i"
    using assms(2) by (auto simp: is_blacklisted_def get_session_info_def split: option.splits)
  then have "sid \<noteq> ''''" using sess_inv_entry [OF assms(1)] by (auto simp: get_session_info_def entry_ok_def)
  then show ?thesis by (rule sess.blacklisted_not_found [OF assms(1) i])
qed

section \<open>Properties\<close>

text \<open>
  C4: Routing by user name is sound in every reachable state. After any sequence of fewer than
  \<open>2 ^ 64\<close> calls on a fresh manager, a session that \<open>find_session_by_username\<close> returns exists, is
  authenticated, is not blacklisted and is the session of exactly that user; and the identifier that
  the next \<open>create_session\<close> hands out is not in use.
\<close>

theorem session_routing_sound:
  assumes "length ops < 2 ^ 64 - 1"
  shows "(find_session_by_username (session_run ntp ops new_session_manager) u \<noteq> '''' \<longrightarrow>
           (\<exists>i. get_session_info (session_run ntp ops new_session_manager)
                  (find_session_by_username (session_run ntp ops new_session_manager) u) = Some i
             \<and> si_is_authenticated i \<and> \<not> si_is_blacklisted i \<and> si_username i = u))
       \<and> \<not> has_session (session_run ntp ops new_session_manager)
             (fst (create_session (session_run ntp ops new_session_manager)))"
proof -
  let ?sm = "session_run ntp ops new_session_manager"
  have inv: "sess_inv ?sm"
    by (rule sess_inv_run [OF sess_inv_new]) (use assms in \<open>simp add: new_session_manager_def\<close>)
  have "unat (m_session_counter ?sm) < 2 ^ 64 - 1"
    using session_counter_run [of ntp ops new_session_manager] assms by (simp add: new_session_manager_def)
  then have "alookup (m_sessions ?sm) (TCP_SESSION_PREFIX @ show_nat (unat (m_session_counter ?sm + 1))) = None"
    by (intro session_counter_fresh [OF inv]) (simp only: counter_suc lessI)
  then show ?thesis
    using sess.find_sound [OF inv, of u] by (simp add: has_session_def create_session_def Let_def)
qed

definition demo_login :: "session_op list" where
  "demo_login = [Op_create, Op_create, Op_mark ''tcp_session_2'' ''HUB'' ''alice'']"

lemma demo_login_found:
  "find_session_by_username (session_run (\<lambda>_ _. '''') demo_login new_session_manager) ''alice'' = ''tcp_session_2''"
  by code_simp

theorem session_routing_sound_witness:
  "find_session_by_username (session_run (\<lambda>_ _. '''') demo_login new_session_manager) ''alice'' = ''tcp_session_2''
   \<and> (\<exists>i. get_session_info (session_run (\<lambda>_ _. '''') demo_login new_session_manager) ''tcp_session_2'' = Some i
        \<and> si_username i = ''alice'')"
  using session_routing_sound [of demo_login "\<lambda>_ _. ''''" "''alice''"] demo_login_found
  by (auto simp: demo_login_def)

text \<open>
  C5: A blacklisted session stays unreachable. Once a session is blacklisted in a reachable table, no
  sequence of calls short of removing that session makes \<open>find_session_by_username\<close> return it, nor lists
  it among the authenticated sessions (re-authenticating it included).
\<close>

theorem blacklist_is_final:
  assumes "sess_inv sm" "unat (m_session_counter sm) + length ops < 2 ^ 64"
    and "is_blacklisted sm sid" "Op_remove sid \<notin> set ops"
  shows "find_session_by_username (session_run ntp ops sm) u \<noteq> sid
       \<and> sid \<notin> set (get_authenticated_sessions (session_run ntp ops sm))"
proof -
  let ?s = "session_run ntp ops sm"
  have inv: "sess_inv ?s" by (rule sess_inv_run [OF assms(1,2)])
  have b: "is_blacklisted ?s sid" by (rule is_blacklisted_run [OF assms])
  have "amap_wf (m_sessions ?s)" using inv by (simp add: sess_inv_def)
  then have "sid \<notin> set (get_authenticated_sessions ?s)"
    using b by (auto simp: get_authenticated_sessions_def is_blacklisted_def)
  with find_not_blacklisted [OF inv b] show ?thesis by blast
qed

definition demo_blacklisted :: session_manager where
  "demo_blacklisted = blacklist_session ''tcp_session_2'' (session_run (\<lambda>_ _. '''') demo_login new_session_manager)"

theorem blacklist_is_final_witness:
  "find_session_by_username (session_run (\<lambda>_ _. '''') [Op_mark ''tcp_session_2'' ''HUB'' ''alice''] demo_blacklisted) ''alice''
     \<noteq> ''tcp_session_2''"
proof -
  have "sess_inv demo_blacklisted"
    unfolding demo_blacklisted_def
    by (intro sess_inv_blacklist sess_inv_run sess_inv_new) (simp add: demo_login_def new_session_manager_def)
  moreover have "is_blacklisted demo_blacklisted ''tcp_session_2''" by code_simp
  moreover have "unat (m_session_counter demo_blacklisted) = 2" by code_simp
  ultimately show ?thesis
    using blacklist_is_final [of demo_blacklisted "[Op_mark ''tcp_session_2'' ''HUB'' ''alice'']" "''tcp_session_2''"]
    by simp
qed

text \<open>
  C6: A second login makes the removal of the older session unmap the user. If session \<open>old\<close> is
  authenticated as \<open>u\<close> and another live session \<open>new\<close> then authenticates as the same user, removing
  \<open>old\<close> (its connection times out) leaves \<open>new\<close> authenticated and not blacklisted, yet
  \<open>find_session_by_username\<close> no longer finds any session of \<open>u\<close>: messages for that user are dropped.
\<close>

theorem stale_removal_unmaps_user:
  assumes "old \<noteq> new" "u \<noteq> ''''"
    and "get_session_info sm old = Some i" "si_username i = u"
    and "get_session_info sm new = Some j" "\<not> si_is_blacklisted j"
  shows "find_session_by_username (mark_authenticated new ct u sm) u = new
       \<and> find_session_by_username (remove_session old (mark_authenticated new ct u sm)) u = ''''
       \<and> is_authenticated (remove_session old (mark_authenticated new ct u sm)) new
       \<and> \<not> is_blacklisted (remove_session old (mark_authenticated new ct u sm)) new"
  using assms sess.login_found [OF assms(5,6,2)]
  by (auto simp: get_session_info_def find_session_by_username_def remove_session_def mark_authenticated_def
      is_authenticated_def is_blacklisted_def Let_def)

definition demo_two_logins :: session_manager where
  "demo_two_logins = session_run (\<lambda>_ _. '''')
     [Op_create, Op_create, Op_mark ''tcp_session_1'' ''HUB'' ''alice''] new_session_manager"

theorem stale_removal_unmaps_user_witness:
  "find_session_by_username
     (remove_session ''tcp_session_1'' (mark_authenticated ''tcp_session_2'' ''HUB'' ''alice'' demo_two_logins)) ''alice'' = ''''"
proof -
  have "map_option si_username (get_session_info demo_two_logins ''tcp_session_1'') = Some ''alice''" by code_simp
  then obtain i where i: "get_session_info demo_two_logins ''tcp_session_1'' = Some i" "si_username i = ''alice''"
    by auto
  have "map_option si_is_blacklisted (get_session_info demo_two_logins ''tcp_session_2'') = Some False" by code_simp
  then obtain j where j: "get_session_info demo_two_logins ''tcp_session_2'' = Some j" "\<not> si_is_blacklisted j"
    by auto
  show ?thesis
    using stale_removal_unmaps_user [OF _ _ i j, of "''HUB''"] by simp
qed

lemma append_sep_show_nat:
  assumes "a @ CHR ''_'' # show_nat m = b @ CHR ''_'' # show_nat n"
  shows "a = b \<and> m = n"
proof -
  have nm: "CHR ''_'' \<notin> set (show_nat k)" for k by (rule show_nat_not_mem) simp
  have tw: "takeWhile (\<lambda>c. c \<noteq> CHR ''_'') (rev (show_nat k) @ CHR ''_'' # s) = rev (show_nat k)" for k s
    by (subst takeWhile_append2) (use nm in auto)
  have "rev (show_nat m) @ CHR ''_'' # rev a = rev (show_nat n) @ CHR ''_'' # rev b"
    using arg_cong [OF assms, of rev] by simp
  then have "m = n" using tw by (metis rev_rev_ident show_nat_inject)
  with assms show ?thesis by simp
qed

text \<open>
  UDP peers are told apart exactly by printed address and port: two endpoints get the same UDP
  session identifier if and only if both their \<open>ip_string\<close> and their \<open>port\<close> agree, whatever
  \<open>inet_ntop\<close> prints; and no UDP identifier collides with a TCP one.
\<close>

theorem udp_session_id_exact:
  "(make_udp_session_id ntp a = make_udp_session_id ntp b \<longleftrightarrow>
      ip_string ntp a = ip_string ntp b \<and> port_of a = port_of b)
   \<and> make_udp_session_id ntp a \<noteq> fst (create_session sm)"
  using append_sep_show_nat [of "ip_string ntp a" "unat (port_of a)" "ip_string ntp b" "unat (port_of b)"]
    udp_not_tcp [of ntp a]
  by (auto simp: make_udp_session_id_def UDP_SESSION_SEPARATOR_def create_session_def Let_def word_unat_eq_iff)

end
