(* ===== verification/Timer_Manager.thy ===== *)
theory Timer_Manager
  imports Prelude
begin

text \<open>
  The timer queue of the reactor (\<^verbatim>\<open>include/server/timer_manager.hpp\<close>,
  \<^verbatim>\<open>src/server/timer_manager.cpp\<close>): a multimap from deadline to timer, an index from timer key to
  multimap iterator, and one timerfd armed for the earliest deadline. Times are nanoseconds of the
  monotonic clock; an iterator is the number of its node, so that it survives other insertions and
  erasures as a multimap iterator does. Every call takes \<open>clk\<close>, the values of its successive reads of
  the clock. The queue is shown to refine a map from timer key to deadline and callback, through the
  interface \<open>timer_queue\<close>.
\<close>

section \<open>Data\<close>

record timer_key =
  tk_type :: string
  tk_session :: string
  tk_sub_key :: string

record 'cb timer_entry =
  te_key :: timer_key
  te_callback :: 'cb

record 'cb heap_node =
  hn_node :: nat
  hn_deadline :: int
  hn_entry :: "'cb timer_entry"

text \<open>\<open>tm_timerfd\<close> is the last \<^verbatim>\<open>timerfd_settime\<close>: the clock at the call and the relative value, \<open>None\<close> when disarmed.\<close>

record itimerspec =
  tv_sec :: int
  tv_nsec :: int

record 'cb timer_manager =
  m_heap :: "'cb heap_node list"
  m_index :: "(timer_key, nat) amap"
  m_keepalive_timeouts :: "(string, int) amap"
  m_keepalive_callbacks :: "(string, 'cb) amap"
  m_next_node :: nat
  tm_timerfd :: "(int \<times> itimerspec) option"

definition new_timer_manager :: "'cb timer_manager" where
  "new_timer_manager = \<lparr>m_heap = [], m_index = [], m_keepalive_timeouts = [], m_keepalive_callbacks = [],
     m_next_node = 0, tm_timerfd = None\<rparr>"

definition NS_PER_SEC :: int where "NS_PER_SEC = 1000000000"

type_synonym clock_reads = "nat \<Rightarrow> int"

section \<open>Operations\<close>

definition rearm_spec :: "int \<Rightarrow> itimerspec" where
  "rearm_spec delta =
     (if delta \<le> 0 then \<lparr>tv_sec = 0, tv_nsec = 1\<rparr>
      else let secs = delta div NS_PER_SEC; nsecs = delta - secs * NS_PER_SEC
           in if secs = 0 \<and> nsecs = 0 then \<lparr>tv_sec = 0, tv_nsec = 1\<rparr>
              else \<lparr>tv_sec = secs, tv_nsec = nsecs\<rparr>)"

definition rearm_timerfd :: "int \<Rightarrow> 'cb timer_manager \<Rightarrow> 'cb timer_manager" where
  "rearm_timerfd now tm =
     (case m_heap tm of
        [] \<Rightarrow> tm\<lparr>tm_timerfd := None\<rparr>
      | x # _ \<Rightarrow> tm\<lparr>tm_timerfd := Some (now, rearm_spec (hn_deadline x - now))\<rparr>)"

text \<open>\<^verbatim>\<open>multimap::emplace\<close>: behind every node with the same or an earlier deadline.\<close>

fun heap_emplace :: "'cb heap_node \<Rightarrow> 'cb heap_node list \<Rightarrow> 'cb heap_node list" where
  "heap_emplace x [] = [x]"
| "heap_emplace x (y # ys) = (if hn_deadline x < hn_deadline y then x # y # ys else y # heap_emplace x ys)"

definition heap_erase :: "nat \<Rightarrow> 'cb heap_node list \<Rightarrow> 'cb heap_node list" where
  "heap_erase n h = filter (\<lambda>x. hn_node x \<noteq> n) h"

definition cancel_timer :: "clock_reads \<Rightarrow> timer_key \<Rightarrow> 'cb timer_manager \<Rightarrow> bool \<times> 'cb timer_manager" where
  "cancel_timer clk key tm =
     (case alookup (m_index tm) key of
        None \<Rightarrow> (False, tm)
      | Some n \<Rightarrow>
          (let was_earliest = (case m_heap tm of [] \<Rightarrow> False | x # _ \<Rightarrow> hn_node x = n);
               tm' = tm\<lparr>m_heap := heap_erase n (m_heap tm), m_index := AList.delete key (m_index tm)\<rparr>
           in (True, if was_earliest then rearm_timerfd (clk 0) tm' else tm')))"

definition insert_timer :: "clock_reads \<Rightarrow> timer_key \<Rightarrow> int \<Rightarrow> 'cb \<Rightarrow> 'cb timer_manager \<Rightarrow> 'cb timer_manager" where
  "insert_timer clk key timeout_seconds callback tm =
     (let tm1 = snd (cancel_timer clk key tm);
          deadline = clk 1 + timeout_seconds * NS_PER_SEC;
          n = m_next_node tm1;
          x = \<lparr>hn_node = n, hn_deadline = deadline, hn_entry = \<lparr>te_key = key, te_callback = callback\<rparr>\<rparr>
      in rearm_timerfd (clk 2)
           (tm1\<lparr>m_heap := heap_emplace x (m_heap tm1), m_index := AList.update key n (m_index tm1),
                m_next_node := n + 1\<rparr>))"

text \<open>The loop of \<open>on_timerfd_ready\<close>: expired timers leave heap and index, their callbacks are collected.\<close>

fun collect_expired :: "int \<Rightarrow> 'cb heap_node list \<Rightarrow> (timer_key, nat) amap
    \<Rightarrow> 'cb list \<times> 'cb heap_node list \<times> (timer_key, nat) amap" where
  "collect_expired now [] idx = ([], [], idx)"
| "collect_expired now (x # xs) idx =
     (if hn_deadline x > now then ([], x # xs, idx)
      else let (fs, h, idx') = collect_expired now xs (AList.delete (te_key (hn_entry x)) idx)
           in (te_callback (hn_entry x) # fs, h, idx'))"

text \<open>The callbacks to run, in order, and the queue they find.\<close>

definition on_timerfd_ready :: "clock_reads \<Rightarrow> 'cb timer_manager \<Rightarrow> 'cb list \<times> 'cb timer_manager" where
  "on_timerfd_ready clk tm =
     (let (to_fire, h, idx) = collect_expired (clk 0) (m_heap tm) (m_index tm)
      in (to_fire, rearm_timerfd (clk 1) (tm\<lparr>m_heap := h, m_index := idx\<rparr>)))"

definition ack_key :: "string \<Rightarrow> string \<Rightarrow> timer_key" where
  "ack_key sid ts = \<lparr>tk_type = ''ack'', tk_session = sid, tk_sub_key = ts\<rparr>"

definition keepalive_key :: "string \<Rightarrow> timer_key" where
  "keepalive_key sid = \<lparr>tk_type = ''keepalive'', tk_session = sid, tk_sub_key = ''''\<rparr>"

definition start_ack_timer :: "clock_reads \<Rightarrow> string \<Rightarrow> string \<Rightarrow> int \<Rightarrow> 'cb \<Rightarrow> 'cb timer_manager \<Rightarrow> 'cb timer_manager" where
  "start_ack_timer clk sid ts timeout_seconds on_timeout tm =
     insert_timer clk (ack_key sid ts) timeout_seconds on_timeout tm"

definition cancel_ack_timer :: "clock_reads \<Rightarrow> string \<Rightarrow> string \<Rightarrow> 'cb timer_manager \<Rightarrow> bool \<times> 'cb timer_manager" where
  "cancel_ack_timer clk sid ts tm = cancel_timer clk (ack_key sid ts) tm"

definition cancel_keepalive_timer :: "clock_reads \<Rightarrow> string \<Rightarrow> 'cb timer_manager \<Rightarrow> 'cb timer_manager" where
  "cancel_keepalive_timer clk sid tm =
     (let tm' = snd (cancel_timer clk (keepalive_key sid) tm)
      in tm'\<lparr>m_keepalive_timeouts := AList.delete sid (m_keepalive_timeouts tm'),
             m_keepalive_callbacks := AList.delete sid (m_keepalive_callbacks tm')\<rparr>)"

definition start_keepalive_timer :: "clock_reads \<Rightarrow> string \<Rightarrow> int \<Rightarrow> 'cb \<Rightarrow> 'cb timer_manager \<Rightarrow> 'cb timer_manager" where
  "start_keepalive_timer clk sid timeout_seconds on_timeout tm =
     (let tm' = cancel_keepalive_timer clk sid tm;
          tm' = tm'\<lparr>m_keepalive_timeouts := AList.update sid timeout_seconds (m_keepalive_timeouts tm'),
                    m_keepalive_callbacks := AList.update sid on_timeout (m_keepalive_callbacks tm')\<rparr>
      in insert_timer (\<lambda>i. clk (i + 1)) (keepalive_key sid) timeout_seconds on_timeout tm')"

definition reset_keepalive_timer :: "clock_reads \<Rightarrow> string \<Rightarrow> 'cb timer_manager \<Rightarrow> 'cb timer_manager" where
  "reset_keepalive_timer clk sid tm =
     (case alookup (m_keepalive_timeouts tm) sid of
        None \<Rightarrow> tm
      | Some timeout \<Rightarrow>
          (case alookup (m_keepalive_callbacks tm) sid of
             None \<Rightarrow> tm
           | Some cb \<Rightarrow> insert_timer clk (keepalive_key sid) timeout cb tm))"

fun cancel_all :: "clock_reads \<Rightarrow> timer_key list \<Rightarrow> 'cb timer_manager \<Rightarrow> 'cb timer_manager" where
  "cancel_all clk [] tm = tm"
| "cancel_all clk (k # ks) tm = cancel_all (\<lambda>i. clk (i + 1)) ks (snd (cancel_timer clk k tm))"

definition clear_session_timers :: "clock_reads \<Rightarrow> string \<Rightarrow> 'cb timer_manager \<Rightarrow> 'cb timer_manager" where
  "clear_session_timers clk sid tm =
     (let to_cancel = map fst (filter (\<lambda>(key, _). tk_session key = sid) (m_index tm));
          tm' = cancel_all clk to_cancel tm
      in tm'\<lparr>m_keepalive_timeouts := AList.delete sid (m_keepalive_timeouts tm'),
             m_keepalive_callbacks := AList.delete sid (m_keepalive_callbacks tm')\<rparr>)"

section \<open>The queue invariant\<close>

abbreviation hkey :: "'cb heap_node \<Rightarrow> timer_key" where "hkey x \<equiv> te_key (hn_entry x)"
abbreviation hcb :: "'cb heap_node \<Rightarrow> 'cb" where "hcb x \<equiv> te_callback (hn_entry x)"

definition before :: "'cb heap_node \<Rightarrow> 'cb heap_node \<Rightarrow> bool" where
  "before x y \<longleftrightarrow> hn_deadline x < hn_deadline y \<or> hn_deadline x = hn_deadline y \<and> hn_node x < hn_node y"

definition heap_inv :: "'cb heap_node list \<Rightarrow> (timer_key, nat) amap \<Rightarrow> nat \<Rightarrow> bool" where
  "heap_inv h idx n \<longleftrightarrow> sorted_wrt before h \<and> distinct (map hkey h) \<and> distinct (map hn_node h)
     \<and> (\<forall>x\<in>set h. hn_node x < n)
     \<and> alookup idx = map_of (map (\<lambda>x. (hkey x, hn_node x)) h) \<and> amap_wf idx"

definition armed :: "'cb heap_node list \<Rightarrow> (int \<times> itimerspec) option \<Rightarrow> int \<Rightarrow> bool" where
  "armed h fd t \<longleftrightarrow> (case h of
      [] \<Rightarrow> fd = None
    | x # _ \<Rightarrow> (\<exists>r\<le>t. fd = Some (r, rearm_spec (hn_deadline x - r))))"

definition keepalive_inv :: "(string, int) amap \<Rightarrow> (string, 'cb) amap \<Rightarrow> bool" where
  "keepalive_inv ts cs \<longleftrightarrow> (\<forall>sid. alookup ts sid = None \<longleftrightarrow> alookup cs sid = None)"

definition timer_inv :: "'cb timer_manager \<Rightarrow> bool" where
  "timer_inv tm \<longleftrightarrow> heap_inv (m_heap tm) (m_index tm) (m_next_node tm)
     \<and> keepalive_inv (m_keepalive_timeouts tm) (m_keepalive_callbacks tm)"

text \<open>The abstract view: deadline and callback of every pending timer.\<close>

definition pending :: "'cb timer_manager \<Rightarrow> timer_key \<Rightarrow> (int \<times> 'cb) option" where
  "pending tm = map_of (map (\<lambda>x. (hkey x, (hn_deadline x, hcb x))) (m_heap tm))"

definition keepalives :: "'cb timer_manager \<Rightarrow> string \<Rightarrow> (int \<times> 'cb) option" where
  "keepalives tm sid = (case (alookup (m_keepalive_timeouts tm) sid, alookup (m_keepalive_callbacks tm) sid) of
      (Some t, Some cb) \<Rightarrow> Some (t, cb) | _ \<Rightarrow> None)"

lemma map_of_filter_key:
  "map_of (map (\<lambda>x. (f x, g x)) (filter (\<lambda>x. f x \<noteq> k) h)) = (map_of (map (\<lambda>x. (f x, g x)) h))(k := None)"
  by (induction h) (auto simp: fun_eq_iff)

lemma set_heap_emplace [simp]: "set (heap_emplace x h) = insert x (set h)"
  by (induction h) auto

lemma map_of_heap_emplace:
  "f x \<notin> f ` set h \<Longrightarrow>
   map_of (map (\<lambda>x. (f x, g x)) (heap_emplace x h)) = (map_of (map (\<lambda>x. (f x, g x)) h))(f x \<mapsto> g x)"
  by (induction h) (auto simp: fun_eq_iff)

lemma distinct_heap_emplace:
  "distinct (map f h) \<Longrightarrow> f x \<notin> f ` set h \<Longrightarrow> distinct (map f (heap_emplace x h))"
  by (induction h) auto

lemma before_trans: "before x y \<Longrightarrow> before y z \<Longrightarrow> before x z"
  by (auto simp: before_def)

lemma sorted_heap_emplace:
  "sorted_wrt before h \<Longrightarrow> (\<And>y. y \<in> set h \<Longrightarrow> hn_node y < hn_node x) \<Longrightarrow> sorted_wrt before (heap_emplace x h)"
  by (induction h) (fastforce simp: before_def)+

lemma takeWhile_due:
  "sorted_wrt before h \<Longrightarrow> takeWhile (\<lambda>x. hn_deadline x \<le> t) h = filter (\<lambda>x. hn_deadline x \<le> t) h"
  by (induction h) (auto simp: before_def intro!: filter_False [symmetric])

lemma collect_expired_eq:
  "sorted_wrt before h \<Longrightarrow> collect_expired t h idx =
     (map hcb (filter (\<lambda>x. hn_deadline x \<le> t) h), filter (\<lambda>x. t < hn_deadline x) h,
      fold AList.delete (map hkey (filter (\<lambda>x. hn_deadline x \<le> t) h)) idx)"
proof (induction h arbitrary: idx)
  case (Cons x h)
  show ?case
  proof (cases "t < hn_deadline x")
    case True
    have "t < hn_deadline y" if "y \<in> set h" for y
      using Cons.prems that True by (auto simp: before_def)
    then have "filter (\<lambda>y. hn_deadline y \<le> t) h = []" "filter (\<lambda>y. t < hn_deadline y) h = h"
      by (auto simp: filter_empty_conv filter_id_conv not_le)
    then show ?thesis using True by simp
  next
    case False
    then show ?thesis using Cons by simp
  qed
qed simp

lemma alookup_fold_delete:
  "alookup (fold AList.delete ks m) k = (if k \<in> set ks then None else alookup m k)"
  by (induction ks arbitrary: m) auto

lemma amap_wf_fold_delete: "amap_wf m \<Longrightarrow> amap_wf (fold AList.delete ks m)"
  by (induction ks arbitrary: m) auto

lemma map_of_filter_distinct:
  "distinct (map f h) \<Longrightarrow> map_of (map (\<lambda>x. (f x, g x)) (filter P h)) k =
     (if k \<in> f ` set (filter (\<lambda>x. \<not> P x) h) then None else map_of (map (\<lambda>x. (f x, g x)) h) k)"
proof (induction h)
  case (Cons a h)
  then show ?case
    by (cases "k = f a") (auto simp: map_of_eq_None_iff image_iff distinct_map inj_on_def)
qed simp

lemma heap_inv_erase:
  assumes inv: "heap_inv h idx n" and k: "alookup idx k = Some i"
  shows "heap_erase i h = filter (\<lambda>x. hkey x \<noteq> k) h"
    and "heap_inv (heap_erase i h) (AList.delete k idx) n"
proof -
  have l: "map_of (map (\<lambda>x. (hkey x, hn_node x)) h) k = Some i" and d: "distinct (map hkey h)" "distinct (map hn_node h)"
    using inv k by (auto simp: heap_inv_def)
  then obtain x where x: "x \<in> set h" "hkey x = k" "hn_node x = i"
    using map_of_SomeD [OF l] by auto
  have "hn_node y = i \<longleftrightarrow> hkey y = k" if "y \<in> set h" for y
    using d x that by (auto simp: distinct_map inj_on_def)
  then show e: "heap_erase i h = filter (\<lambda>x. hkey x \<noteq> k) h"
    unfolding heap_erase_def by (intro filter_cong) auto
  show "heap_inv (heap_erase i h) (AList.delete k idx) n"
    using inv unfolding e heap_inv_def
    by (simp add: sorted_wrt_filter distinct_map_filter map_of_filter_key delete_conv')
qed

lemma heap_inv_emplace:
  assumes inv: "heap_inv h idx n" and k: "alookup idx (hkey x) = None" and n: "hn_node x = n"
  shows "heap_inv (heap_emplace x h) (AList.update (hkey x) n idx) (n + 1)"
proof -
  have f: "hkey x \<notin> hkey ` set h"
    using inv k by (auto simp: heap_inv_def map_of_eq_None_iff image_image)
  have f': "hn_node x \<notin> hn_node ` set h" using inv n by (auto simp: heap_inv_def)
  show ?thesis
    using inv n f f'
    by (auto simp: heap_inv_def sorted_heap_emplace distinct_heap_emplace map_of_heap_emplace update_conv'
        intro: less_SucI)
qed

lemma heap_inv_expire:
  assumes inv: "heap_inv h idx n"
  shows "heap_inv (filter (\<lambda>x. t < hn_deadline x) h)
           (fold AList.delete (map hkey (filter (\<lambda>x. hn_deadline x \<le> t) h)) idx) n"
proof -
  have d: "distinct (map hkey h)" and l: "alookup idx = map_of (map (\<lambda>x. (hkey x, hn_node x)) h)"
    using inv by (auto simp: heap_inv_def)
  have "alookup (fold AList.delete (map hkey (filter (\<lambda>x. hn_deadline x \<le> t) h)) idx)
      = map_of (map (\<lambda>x. (hkey x, hn_node x)) (filter (\<lambda>x. t < hn_deadline x) h))"
    by (rule ext) (simp add: alookup_fold_delete map_of_filter_distinct [OF d] l not_less)
  then show ?thesis
    using inv by (auto simp: heap_inv_def sorted_wrt_filter distinct_map_filter amap_wf_fold_delete)
qed

section \<open>Each operation on the abstract view\<close>

lemma rearm_simps [simp]:
  "m_heap (rearm_timerfd t tm) = m_heap tm" "m_index (rearm_timerfd t tm) = m_index tm"
  "m_next_node (rearm_timerfd t tm) = m_next_node tm"
  "m_keepalive_timeouts (rearm_timerfd t tm) = m_keepalive_timeouts tm"
  "m_keepalive_callbacks (rearm_timerfd t tm) = m_keepalive_callbacks tm"
  by (simp_all add: rearm_timerfd_def split: list.splits)

lemma timer_inv_rearm [simp]: "timer_inv (rearm_timerfd t tm) = timer_inv tm"
  by (simp add: timer_inv_def)

lemma pending_rearm [simp]: "pending (rearm_timerfd t tm) = pending tm"
  by (simp add: pending_def)

lemma keepalives_cong:
  "m_keepalive_timeouts a = m_keepalive_timeouts b \<Longrightarrow> m_keepalive_callbacks a = m_keepalive_callbacks b \<Longrightarrow>
   keepalives a = keepalives b"
  by (simp add: keepalives_def fun_eq_iff)

lemma index_None_iff: "timer_inv tm \<Longrightarrow> alookup (m_index tm) k = None \<longleftrightarrow> pending tm k = None"
  by (simp add: timer_inv_def heap_inv_def pending_def map_of_eq_None_iff image_image)

lemma cancel_timer_keepalive [simp]:
  "m_keepalive_timeouts (snd (cancel_timer clk k tm)) = m_keepalive_timeouts tm"
  "m_keepalive_callbacks (snd (cancel_timer clk k tm)) = m_keepalive_callbacks tm"
  by (simp_all add: cancel_timer_def Let_def split: option.splits)

lemma cancel_timer_ok:
  assumes inv: "timer_inv tm"
  shows "timer_inv (snd (cancel_timer clk k tm)) \<and> pending (snd (cancel_timer clk k tm)) = (pending tm)(k := None)
     \<and> (fst (cancel_timer clk k tm) \<longleftrightarrow> pending tm k \<noteq> None)
     \<and> alookup (m_index (snd (cancel_timer clk k tm))) k = None"
proof (cases "alookup (m_index tm) k")
  case None
  with inv show ?thesis
    using index_None_iff [OF inv, of k] by (auto simp: cancel_timer_def)
next
  case (Some i)
  have h: "heap_inv (m_heap tm) (m_index tm) (m_next_node tm)" using inv by (simp add: timer_inv_def)
  have "pending tm k \<noteq> None" using index_None_iff [OF inv, of k] Some by auto
  with Some inv heap_inv_erase [OF h Some] show ?thesis
    by (auto simp: cancel_timer_def Let_def timer_inv_def pending_def map_of_filter_key)
qed

lemma insert_timer_keepalive [simp]:
  "m_keepalive_timeouts (insert_timer clk k s cb tm) = m_keepalive_timeouts tm"
  "m_keepalive_callbacks (insert_timer clk k s cb tm) = m_keepalive_callbacks tm"
  by (simp_all add: insert_timer_def Let_def)

lemma insert_timer_ok:
  assumes inv: "timer_inv tm"
  shows "timer_inv (insert_timer clk k s cb tm)"
    and "pending (insert_timer clk k s cb tm) = (pending tm)(k \<mapsto> (clk 1 + s * NS_PER_SEC, cb))"
proof -
  let ?tm1 = "snd (cancel_timer clk k tm)"
  let ?x = "\<lparr>hn_node = m_next_node ?tm1, hn_deadline = clk 1 + s * NS_PER_SEC,
             hn_entry = \<lparr>te_key = k, te_callback = cb\<rparr>\<rparr>"
  have c: "timer_inv ?tm1" "alookup (m_index ?tm1) k = None" "pending ?tm1 = (pending tm)(k := None)"
    using cancel_timer_ok [OF inv, where k = k and clk = clk] by blast+
  then have h: "heap_inv (m_heap ?tm1) (m_index ?tm1) (m_next_node ?tm1)" by (simp add: timer_inv_def)
  have "heap_inv (heap_emplace ?x (m_heap ?tm1)) (AList.update k (m_next_node ?tm1) (m_index ?tm1)) (m_next_node ?tm1 + 1)"
    using heap_inv_emplace [OF h, of ?x] c(2) by simp
  then show "timer_inv (insert_timer clk k s cb tm)"
    using c(1) by (simp add: insert_timer_def Let_def timer_inv_def)
  have f: "hkey ?x \<notin> hkey ` set (m_heap ?tm1)"
    using h c(2) by (auto simp: heap_inv_def map_of_eq_None_iff image_image)
  have "pending (insert_timer clk k s cb tm) = (pending ?tm1)(k \<mapsto> (clk 1 + s * NS_PER_SEC, cb))"
    using map_of_heap_emplace [of hkey, OF f, of "\<lambda>x. (hn_deadline x, hcb x)"]
    by (simp add: pending_def insert_timer_def Let_def)
  then show "pending (insert_timer clk k s cb tm) = (pending tm)(k \<mapsto> (clk 1 + s * NS_PER_SEC, cb))"
    using c(3) by simp
qed

definition not_due :: "int \<Rightarrow> (timer_key \<Rightarrow> (int \<times> 'cb) option) \<Rightarrow> timer_key \<Rightarrow> (int \<times> 'cb) option" where
  "not_due t p k = (case p k of Some (d, cb) \<Rightarrow> if t < d then Some (d, cb) else None | None \<Rightarrow> None)"

lemma map_of_key_iff:
  "distinct (map f h) \<Longrightarrow> map_of (map (\<lambda>x. (f x, g x)) h) k = Some v \<longleftrightarrow> (\<exists>x\<in>set h. f x = k \<and> g x = v)"
  by (subst map_of_eq_Some_iff) (auto simp: comp_def)

lemma pending_Some_iff:
  "timer_inv tm \<Longrightarrow> pending tm k = Some (d, cb) \<longleftrightarrow>
     (\<exists>x\<in>set (m_heap tm). hkey x = k \<and> hn_deadline x = d \<and> hcb x = cb)"
  by (simp add: timer_inv_def heap_inv_def pending_def map_of_key_iff)

lemma on_timerfd_ready_ok:
  assumes inv: "timer_inv tm"
  shows "timer_inv (snd (on_timerfd_ready clk tm))"
    and "pending (snd (on_timerfd_ready clk tm)) = not_due (clk 0) (pending tm)"
    and "fst (on_timerfd_ready clk tm) = map hcb (filter (\<lambda>x. hn_deadline x \<le> clk 0) (m_heap tm))"
    and "keepalives (snd (on_timerfd_ready clk tm)) = keepalives tm"
proof -
  have h: "heap_inv (m_heap tm) (m_index tm) (m_next_node tm)" using inv by (simp add: timer_inv_def)
  then have s: "sorted_wrt before (m_heap tm)" by (simp add: heap_inv_def)
  note e = collect_expired_eq [OF s]
  show i: "timer_inv (snd (on_timerfd_ready clk tm))"
    using inv heap_inv_expire [OF h] by (simp add: on_timerfd_ready_def e timer_inv_def)
  show "fst (on_timerfd_ready clk tm) = map hcb (filter (\<lambda>x. hn_deadline x \<le> clk 0) (m_heap tm))"
    by (simp add: on_timerfd_ready_def e)
  show "keepalives (snd (on_timerfd_ready clk tm)) = keepalives tm"
    by (rule keepalives_cong) (simp_all add: on_timerfd_ready_def e)
  have m: "m_heap (snd (on_timerfd_ready clk tm)) = filter (\<lambda>x. clk 0 < hn_deadline x) (m_heap tm)"
    by (simp add: on_timerfd_ready_def e)
  have "pending (snd (on_timerfd_ready clk tm)) k = Some v \<longleftrightarrow> not_due (clk 0) (pending tm) k = Some v" for k v
    using pending_Some_iff [OF i, of k "fst v" "snd v"] pending_Some_iff [OF inv, of k "fst v" "snd v"] m
    by (cases v) (auto simp: not_due_def split: option.splits if_splits)
  then show "pending (snd (on_timerfd_ready clk tm)) = not_due (clk 0) (pending tm)"
    by (metis ext option.exhaust)
qed

section \<open>The interface the reactor relies on\<close>

locale timer_queue =
  fixes inv :: "'s \<Rightarrow> bool"
    and view :: "'s \<Rightarrow> timer_key \<Rightarrow> (int \<times> 'cb) option"
    and insert_t :: "clock_reads \<Rightarrow> timer_key \<Rightarrow> int \<Rightarrow> 'cb \<Rightarrow> 's \<Rightarrow> 's"
    and cancel_t :: "clock_reads \<Rightarrow> timer_key \<Rightarrow> 's \<Rightarrow> bool \<times> 's"
    and fire_t :: "clock_reads \<Rightarrow> 's \<Rightarrow> 'cb list \<times> 's"
  assumes inv_insert: "inv s \<Longrightarrow> inv (insert_t clk k secs cb s)"
    and inv_cancel: "inv s \<Longrightarrow> inv (snd (cancel_t clk k s))"
    and inv_fire: "inv s \<Longrightarrow> inv (snd (fire_t clk s))"
    and view_insert: "inv s \<Longrightarrow> view (insert_t clk k secs cb s) = (view s)(k \<mapsto> (clk 1 + secs * NS_PER_SEC, cb))"
    and view_cancel: "inv s \<Longrightarrow> view (snd (cancel_t clk k s)) = (view s)(k := None)"
    and view_fire: "inv s \<Longrightarrow> view (snd (fire_t clk s)) = not_due (clk 0) (view s)"
    and fired: "inv s \<Longrightarrow> cb \<in> set (fst (fire_t clk s)) \<longleftrightarrow> (\<exists>k d. view s k = Some (d, cb) \<and> d \<le> clk 0)"
begin

text \<open>A cancelled timer whose callback is its own does not run; a restarted one runs no earlier than its new deadline.\<close>

lemma cancelled_does_not_fire:
  assumes "inv s" and own: "\<And>k' d. view s k' = Some (d, cb) \<Longrightarrow> k' = k"
  shows "cb \<notin> set (fst (fire_t clk' (snd (cancel_t clk k s))))"
proof
  assume "cb \<in> set (fst (fire_t clk' (snd (cancel_t clk k s))))"
  then obtain k' d where v: "view (snd (cancel_t clk k s)) k' = Some (d, cb)"
    using fired [OF inv_cancel [OF assms(1)]] by blast
  then have "k' \<noteq> k" "view s k' = Some (d, cb)"
    using view_cancel [OF assms(1)] by (auto split: if_splits)
  with own show False by blast
qed

lemma restart_postpones:
  assumes "inv s" and own: "\<And>k' d. view s k' = Some (d, cb) \<Longrightarrow> k' = k"
    and early: "clk' 0 < clk 1 + secs * NS_PER_SEC"
  shows "cb \<notin> set (fst (fire_t clk' (insert_t clk k secs cb s)))"
proof
  assume "cb \<in> set (fst (fire_t clk' (insert_t clk k secs cb s)))"
  then obtain k' d where v: "view (insert_t clk k secs cb s) k' = Some (d, cb)" "d \<le> clk' 0"
    using fired [OF inv_insert [OF assms(1)]] by blast
  then have "k' \<noteq> k" "view s k' = Some (d, cb)"
    using view_insert [OF assms(1)] early by (auto split: if_splits)
  with own show False by blast
qed

lemma fires_once:
  assumes "inv s" and own: "\<And>k' d. view s k' = Some (d, cb) \<Longrightarrow> k' = k"
    and f: "cb \<in> set (fst (fire_t clk s))"
  shows "cb \<notin> set (fst (fire_t clk' (snd (fire_t clk s))))"
proof
  assume "cb \<in> set (fst (fire_t clk' (snd (fire_t clk s))))"
  then obtain k2 d2 where v2: "view (snd (fire_t clk s)) k2 = Some (d2, cb)"
    using fired [OF inv_fire [OF assms(1)]] by blast
  obtain k1 d1 where v1: "view s k1 = Some (d1, cb)" "d1 \<le> clk 0" using f fired [OF assms(1)] by blast
  from v2 have "view s k2 = Some (d2, cb)" "clk 0 < d2"
    using view_fire [OF assms(1)] by (auto simp: not_due_def split: option.splits prod.splits if_splits)
  moreover have "k1 = k" using own v1(1) by blast
  moreover have "k2 = k" using own calculation(1) by blast
  ultimately show False using v1 by simp
qed

end

lemma fired_iff:
  "timer_inv tm \<Longrightarrow> cb \<in> set (fst (on_timerfd_ready clk tm)) \<longleftrightarrow> (\<exists>k d. pending tm k = Some (d, cb) \<and> d \<le> clk 0)"
  by (auto simp: on_timerfd_ready_ok pending_Some_iff)

interpretation tq: timer_queue timer_inv pending insert_timer cancel_timer on_timerfd_ready
  by unfold_locales
     (simp_all add: insert_timer_ok cancel_timer_ok on_timerfd_ready_ok(1,2) fired_iff)

section \<open>Runs\<close>

datatype 'cb timer_op =
    T_start_ack clock_reads string string int 'cb
  | T_cancel_ack clock_reads string string
  | T_start_keepalive clock_reads string int 'cb
  | T_reset_keepalive clock_reads string
  | T_cancel_keepalive clock_reads string
  | T_clear clock_reads string
  | T_ready clock_reads

fun timer_step :: "'cb timer_op \<Rightarrow> 'cb timer_manager \<Rightarrow> 'cb timer_manager" where
  "timer_step (T_start_ack clk sid ts secs cb) tm = start_ack_timer clk sid ts secs cb tm"
| "timer_step (T_cancel_ack clk sid ts) tm = snd (cancel_ack_timer clk sid ts tm)"
| "timer_step (T_start_keepalive clk sid secs cb) tm = start_keepalive_timer clk sid secs cb tm"
| "timer_step (T_reset_keepalive clk sid) tm = reset_keepalive_timer clk sid tm"
| "timer_step (T_cancel_keepalive clk sid) tm = cancel_keepalive_timer clk sid tm"
| "timer_step (T_clear clk sid) tm = clear_session_timers clk sid tm"
| "timer_step (T_ready clk) tm = snd (on_timerfd_ready clk tm)"

definition timer_run :: "'cb timer_op list \<Rightarrow> 'cb timer_manager \<Rightarrow> 'cb timer_manager" where
  "timer_run ops tm = fold timer_step ops tm"

text \<open>The specification: a map of pending timers and a map of remembered keepalive settings.\<close>

type_synonym 'cb timer_spec = "(timer_key \<Rightarrow> (int \<times> 'cb) option) \<times> (string \<Rightarrow> (int \<times> 'cb) option)"

fun spec_step :: "'cb timer_op \<Rightarrow> 'cb timer_spec \<Rightarrow> 'cb timer_spec" where
  "spec_step (T_start_ack clk sid ts secs cb) (p, ka) = (p(ack_key sid ts \<mapsto> (clk 1 + secs * NS_PER_SEC, cb)), ka)"
| "spec_step (T_cancel_ack clk sid ts) (p, ka) = (p(ack_key sid ts := None), ka)"
| "spec_step (T_start_keepalive clk sid secs cb) (p, ka) =
     (p(keepalive_key sid \<mapsto> (clk 2 + secs * NS_PER_SEC, cb)), ka(sid \<mapsto> (secs, cb)))"
| "spec_step (T_reset_keepalive clk sid) (p, ka) =
     (case ka sid of None \<Rightarrow> (p, ka)
      | Some (secs, cb) \<Rightarrow> (p(keepalive_key sid \<mapsto> (clk 1 + secs * NS_PER_SEC, cb)), ka))"
| "spec_step (T_cancel_keepalive clk sid) (p, ka) = (p(keepalive_key sid := None), ka(sid := None))"
| "spec_step (T_clear clk sid) (p, ka) = (\<lambda>k. if tk_session k = sid then None else p k, ka(sid := None))"
| "spec_step (T_ready clk) (p, ka) = (not_due (clk 0) p, ka)"

lemma timer_run_simps [simp]:
  "timer_run [] tm = tm" "timer_run (op # ops) tm = timer_run ops (timer_step op tm)"
  by (simp_all add: timer_run_def)

lemma cancel_all_keepalive [simp]:
  "m_keepalive_timeouts (cancel_all clk ks tm) = m_keepalive_timeouts tm"
  "m_keepalive_callbacks (cancel_all clk ks tm) = m_keepalive_callbacks tm"
  by (induction ks arbitrary: clk tm) simp_all

lemma cancel_all_ok:
  "timer_inv tm \<Longrightarrow> timer_inv (cancel_all clk ks tm)
     \<and> pending (cancel_all clk ks tm) = (\<lambda>k. if k \<in> set ks then None else pending tm k)"
proof (induction ks arbitrary: clk tm)
  case (Cons k ks)
  have c: "timer_inv (snd (cancel_timer clk k tm))" "pending (snd (cancel_timer clk k tm)) = (pending tm)(k := None)"
    using cancel_timer_ok [OF Cons.prems, of clk k] by blast+
  show ?case using Cons.IH [OF c(1), of "\<lambda>i. clk (i + 1)"] by (auto simp: c(2) fun_eq_iff)
qed simp

lemma keepalive_fields [simp]:
  "timer_inv (tm\<lparr>m_keepalive_timeouts := a, m_keepalive_callbacks := b\<rparr>) \<longleftrightarrow>
     heap_inv (m_heap tm) (m_index tm) (m_next_node tm) \<and> keepalive_inv a b"
  "pending (tm\<lparr>m_keepalive_timeouts := a, m_keepalive_callbacks := b\<rparr>) = pending tm"
  by (simp_all add: timer_inv_def pending_def)

lemma clear_session_timers_ok:
  assumes inv: "timer_inv tm"
  shows "timer_inv (clear_session_timers clk sid tm)
     \<and> pending (clear_session_timers clk sid tm) = (\<lambda>k. if tk_session k = sid then None else pending tm k)"
proof -
  let ?ks = "map fst (filter (\<lambda>(key, _). tk_session key = sid) (m_index tm))"
  have ks: "k \<in> set ?ks \<longleftrightarrow> tk_session k = sid \<and> pending tm k \<noteq> None" for k
    using index_None_iff [OF inv, of k] map_of_eq_None_iff [of "m_index tm" k] by (force simp: image_iff)
  have "pending (cancel_all clk ?ks tm) = (\<lambda>k. if tk_session k = sid then None else pending tm k)"
    unfolding cancel_all_ok [OF inv, THEN conjunct2] ks by (auto simp: fun_eq_iff simp del: not_None_eq)
  moreover have "timer_inv (cancel_all clk ?ks tm)" using cancel_all_ok [OF inv] by blast
  ultimately show ?thesis
    by (simp add: clear_session_timers_def Let_def) (simp add: timer_inv_def keepalive_inv_def)
qed

lemma keepalives_clear: "keepalives (clear_session_timers clk sid tm) = (keepalives tm)(sid := None)"
  by (auto simp: keepalives_def clear_session_timers_def Let_def fun_eq_iff)

lemma cancel_keepalive_ok:
  assumes inv: "timer_inv tm"
  shows "timer_inv (cancel_keepalive_timer clk sid tm)
     \<and> pending (cancel_keepalive_timer clk sid tm) = (pending tm)(keepalive_key sid := None)
     \<and> keepalives (cancel_keepalive_timer clk sid tm) = (keepalives tm)(sid := None)"
  using cancel_timer_ok [OF inv, of clk "keepalive_key sid"]
  by (auto simp: cancel_keepalive_timer_def Let_def timer_inv_def keepalive_inv_def keepalives_def fun_eq_iff)

lemma start_keepalive_ok:
  assumes inv: "timer_inv tm"
  shows "timer_inv (start_keepalive_timer clk sid secs cb tm)
     \<and> pending (start_keepalive_timer clk sid secs cb tm) =
         (pending tm)(keepalive_key sid \<mapsto> (clk 2 + secs * NS_PER_SEC, cb))
     \<and> keepalives (start_keepalive_timer clk sid secs cb tm) = (keepalives tm)(sid \<mapsto> (secs, cb))"
proof -
  let ?tm1 = "cancel_keepalive_timer clk sid tm"
  let ?tm2 = "?tm1\<lparr>m_keepalive_timeouts := AList.update sid secs (m_keepalive_timeouts ?tm1),
                    m_keepalive_callbacks := AList.update sid cb (m_keepalive_callbacks ?tm1)\<rparr>"
  note c = cancel_keepalive_ok [OF inv, of clk sid]
  have i: "timer_inv ?tm2" using c by (simp add: timer_inv_def keepalive_inv_def)
  have k: "keepalives ?tm2 = (keepalives tm)(sid \<mapsto> (secs, cb))"
    using c by (auto simp: keepalives_def fun_eq_iff)
  have e: "start_keepalive_timer clk sid secs cb tm = insert_timer (\<lambda>i. clk (i + 1)) (keepalive_key sid) secs cb ?tm2"
    by (simp add: start_keepalive_timer_def Let_def)
  have "keepalives (insert_timer (\<lambda>i. clk (i + 1)) (keepalive_key sid) secs cb ?tm2) = keepalives ?tm2"
    by (rule keepalives_cong) simp_all
  then show ?thesis
    using insert_timer_ok [OF i, of "\<lambda>i. clk (i + 1)" "keepalive_key sid" secs cb] c k unfolding e
    by (simp add: eval_nat_numeral)
qed

lemma reset_keepalive_ok:
  assumes inv: "timer_inv tm"
  shows "timer_inv (reset_keepalive_timer clk sid tm)
     \<and> (pending (reset_keepalive_timer clk sid tm), keepalives (reset_keepalive_timer clk sid tm)) =
        spec_step (T_reset_keepalive clk sid) (pending tm, keepalives tm)"
proof (cases "keepalives tm sid")
  case None
  then have "alookup (m_keepalive_timeouts tm) sid = None \<or> alookup (m_keepalive_callbacks tm) sid = None"
    by (auto simp: keepalives_def split: option.splits)
  with None inv show ?thesis by (auto simp: reset_keepalive_timer_def split: option.splits)
next
  case (Some v)
  obtain secs cb where v: "v = (secs, cb)" by (cases v)
  then have "alookup (m_keepalive_timeouts tm) sid = Some secs" "alookup (m_keepalive_callbacks tm) sid = Some cb"
    using Some by (auto simp: keepalives_def split: option.splits)
  then have e: "reset_keepalive_timer clk sid tm = insert_timer clk (keepalive_key sid) secs cb tm"
    by (simp add: reset_keepalive_timer_def)
  have "keepalives (insert_timer clk (keepalive_key sid) secs cb tm) = keepalives tm"
    by (rule keepalives_cong) simp_all
  then show ?thesis using insert_timer_ok [OF inv] Some v by (simp add: e)
qed

lemma keepalives_of_ack [simp]:
  "keepalives (insert_timer clk k secs cb tm) = keepalives tm"
  "keepalives (snd (cancel_timer clk k tm)) = keepalives tm"
  by (rule keepalives_cong; simp)+

lemma timer_step_ok:
  assumes inv: "timer_inv tm"
  shows "timer_inv (timer_step op tm) \<and>
    (pending (timer_step op tm), keepalives (timer_step op tm)) = spec_step op (pending tm, keepalives tm)"
proof (cases op)
  case (T_start_ack clk sid ts secs cb)
  then show ?thesis using insert_timer_ok [OF inv] by (simp add: start_ack_timer_def)
next
  case (T_cancel_ack clk sid ts)
  then show ?thesis using cancel_timer_ok [OF inv] by (simp add: cancel_ack_timer_def)
next
  case (T_reset_keepalive clk sid)
  then show ?thesis using reset_keepalive_ok [OF inv] by simp
next
  case (T_clear clk sid)
  then show ?thesis using clear_session_timers_ok [OF inv] by (simp add: keepalives_clear)
qed (use start_keepalive_ok [OF inv] cancel_keepalive_ok [OF inv] on_timerfd_ready_ok [OF inv] in auto)

lemma timer_inv_new: "timer_inv new_timer_manager"
  by (simp add: timer_inv_def heap_inv_def keepalive_inv_def new_timer_manager_def)

lemma timer_new_view: "pending new_timer_manager = (\<lambda>_. None)" "keepalives new_timer_manager = (\<lambda>_. None)"
  by (simp_all add: pending_def keepalives_def new_timer_manager_def fun_eq_iff)

lemma timer_run_ok:
  "timer_inv tm \<Longrightarrow> timer_inv (timer_run ops tm) \<and>
    (pending (timer_run ops tm), keepalives (timer_run ops tm)) = fold spec_step ops (pending tm, keepalives tm)"
proof (induction ops arbitrary: tm)
  case (Cons op ops)
  show ?case using timer_step_ok [OF Cons.prems, of op] Cons.IH [of "timer_step op tm"] by simp
qed simp

text \<open>When the armed timerfd expires.\<close>

definition fd_expiry :: "int \<times> itimerspec \<Rightarrow> int" where
  "fd_expiry a = fst a + tv_sec (snd a) * NS_PER_SEC + tv_nsec (snd a)"

lemma fd_expiry_rearm: "fd_expiry (r, rearm_spec (d - r)) = max d (r + 1)"
  by (auto simp: fd_expiry_def rearm_spec_def Let_def NS_PER_SEC_def max_def)

lemma armed_rearm: "t \<le> T \<Longrightarrow> armed (m_heap tm) (tm_timerfd (rearm_timerfd t tm)) T"
  by (auto simp: armed_def rearm_timerfd_def split: list.splits)

fun op_reads :: "'cb timer_op \<Rightarrow> clock_reads" where
  "op_reads (T_start_ack clk sid ts secs cb) = clk"
| "op_reads (T_cancel_ack clk sid ts) = clk"
| "op_reads (T_start_keepalive clk sid secs cb) = clk"
| "op_reads (T_reset_keepalive clk sid) = clk"
| "op_reads (T_cancel_keepalive clk sid) = clk"
| "op_reads (T_clear clk sid) = clk"
| "op_reads (T_ready clk) = clk"

lemma armed_cancel:
  assumes a: "armed (m_heap tm) (tm_timerfd tm) T" and t: "clk 0 \<le> T"
  shows "armed (m_heap (snd (cancel_timer clk k tm))) (tm_timerfd (snd (cancel_timer clk k tm))) T"
proof (cases "alookup (m_index tm) k")
  case None
  then show ?thesis using a by (simp add: cancel_timer_def)
next
  case (Some n)
  let ?tm = "tm\<lparr>m_heap := heap_erase n (m_heap tm), m_index := AList.delete k (m_index tm)\<rparr>"
  show ?thesis
  proof (cases "case m_heap tm of [] \<Rightarrow> False | x # _ \<Rightarrow> hn_node x = n")
    case True
    then show ?thesis using Some armed_rearm [OF t, of ?tm] by (simp add: cancel_timer_def Let_def)
  next
    case False
    then show ?thesis
      using a Some by (auto simp: cancel_timer_def Let_def armed_def heap_erase_def split: list.splits)
  qed
qed

lemma armed_insert:
  "\<forall>i. clk i \<le> T \<Longrightarrow> armed (m_heap (insert_timer clk k s cb tm)) (tm_timerfd (insert_timer clk k s cb tm)) T"
  unfolding insert_timer_def Let_def rearm_simps by (rule armed_rearm) simp

lemma armed_cancel_all:
  "armed (m_heap tm) (tm_timerfd tm) T \<Longrightarrow> \<forall>i. clk i \<le> T \<Longrightarrow>
   armed (m_heap (cancel_all clk ks tm)) (tm_timerfd (cancel_all clk ks tm)) T"
  by (induction ks arbitrary: clk tm) (simp_all add: armed_cancel)

lemma armed_step:
  assumes "armed (m_heap tm) (tm_timerfd tm) T" "\<forall>i. op_reads op i \<le> T"
  shows "armed (m_heap (timer_step op tm)) (tm_timerfd (timer_step op tm)) T"
proof (cases op)
  case (T_ready clk)
  then show ?thesis
    using assms armed_rearm [of "clk 1" T "tm\<lparr>m_heap := fst (snd (collect_expired (clk 0) (m_heap tm) (m_index tm))),
        m_index := snd (snd (collect_expired (clk 0) (m_heap tm) (m_index tm)))\<rparr>"]
    by (simp add: on_timerfd_ready_def case_prod_beta)
qed (use assms in \<open>simp_all add: start_ack_timer_def cancel_ack_timer_def start_keepalive_timer_def
      reset_keepalive_timer_def cancel_keepalive_timer_def clear_session_timers_def Let_def
      armed_insert armed_cancel armed_cancel_all split: option.splits\<close>)

lemma armed_run:
  "armed (m_heap tm) (tm_timerfd tm) T \<Longrightarrow> \<forall>op\<in>set ops. \<forall>i. op_reads op i \<le> T \<Longrightarrow>
   armed (m_heap (timer_run ops tm)) (tm_timerfd (timer_run ops tm)) T"
  by (induction ops arbitrary: tm) (simp_all add: armed_step)

section \<open>Properties\<close>

text \<open>
  C7: The heap with its iterator index refines a plain map of timers. After any sequence of timer
  calls from the empty queue, the pending timers (key, deadline, callback) and the remembered
  keepalive settings are those of the specification that replaces, removes and expires map entries.
\<close>

theorem timer_queue_refines_map:
  "pending (timer_run ops new_timer_manager) = fst (fold spec_step ops (\<lambda>_. None, \<lambda>_. None))
   \<and> keepalives (timer_run ops new_timer_manager) = snd (fold spec_step ops (\<lambda>_. None, \<lambda>_. None))"
proof -
  have e: "(pending (timer_run ops new_timer_manager), keepalives (timer_run ops new_timer_manager))
      = fold spec_step ops (\<lambda>_. None, \<lambda>_. None)"
    using timer_run_ok [OF timer_inv_new, of ops] by (simp add: timer_new_view)
  show ?thesis by (simp flip: e)
qed

text \<open>
  C8: When the timerfd fires at time \<open>clk 0\<close> after any sequence of calls, exactly the timers whose
  deadline has passed run: each once, in order of deadline, with its own callback; afterwards only the
  timers with a later deadline are pending.
\<close>

theorem timer_fires_exactly_due:
  "\<exists>ks. distinct ks
     \<and> (\<forall>k. k \<in> set ks \<longleftrightarrow> (\<exists>d cb. pending (timer_run ops new_timer_manager) k = Some (d, cb) \<and> d \<le> clk 0))
     \<and> sorted (map (\<lambda>k. fst (the (pending (timer_run ops new_timer_manager) k))) ks)
     \<and> fst (on_timerfd_ready clk (timer_run ops new_timer_manager))
         = map (\<lambda>k. snd (the (pending (timer_run ops new_timer_manager) k))) ks
     \<and> pending (snd (on_timerfd_ready clk (timer_run ops new_timer_manager)))
         = not_due (clk 0) (pending (timer_run ops new_timer_manager))"
proof -
  let ?tm = "timer_run ops new_timer_manager"
  let ?due = "filter (\<lambda>x. hn_deadline x \<le> clk 0) (m_heap ?tm)"
  have inv: "timer_inv ?tm" using timer_run_ok [OF timer_inv_new] by blast
  then have s: "sorted_wrt before (m_heap ?tm)" and d: "distinct (map hkey (m_heap ?tm))"
    by (simp_all add: timer_inv_def heap_inv_def)
  have p: "the (pending ?tm (hkey x)) = (hn_deadline x, hcb x)" if "x \<in> set ?due" for x
    using that pending_Some_iff [OF inv, of "hkey x" "hn_deadline x" "hcb x"] by auto
  have "sorted (map hn_deadline ?due)"
    unfolding sorted_map
    by (rule sorted_wrt_mono_rel [OF _ sorted_wrt_filter [OF s]]) (auto simp: before_def)
  then have "sorted (map (\<lambda>k. fst (the (pending ?tm k))) (map hkey ?due))"
    using p by (simp only: map_map comp_def fst_conv cong: map_cong)
  moreover have "fst (on_timerfd_ready clk ?tm) = map (\<lambda>k. snd (the (pending ?tm k))) (map hkey ?due)"
    using p by (simp add: on_timerfd_ready_ok(3) [OF inv] comp_def)
  moreover have "k \<in> set (map hkey ?due) \<longleftrightarrow> (\<exists>d cb. pending ?tm k = Some (d, cb) \<and> d \<le> clk 0)" for k
    by (auto simp: pending_Some_iff [OF inv])
  ultimately show ?thesis
    using on_timerfd_ready_ok(2) [OF inv, of clk] distinct_map_filter [OF d]
    by (intro exI [of _ "map hkey ?due"] conjI allI)
qed

text \<open>
  C9: No wake-up is lost. After any sequence of calls whose clock readings are at most \<open>T\<close>, the
  timerfd is disarmed exactly when no timer is pending, and otherwise expires no earlier than the
  earliest deadline and no later than that deadline or one nanosecond after \<open>T\<close>.
\<close>

theorem timerfd_armed_for_earliest:
  assumes "\<forall>op\<in>set ops. \<forall>i. op_reads op i \<le> T"
  shows "case m_heap (timer_run ops new_timer_manager) of
      [] \<Rightarrow> tm_timerfd (timer_run ops new_timer_manager) = None \<and> pending (timer_run ops new_timer_manager) = (\<lambda>_. None)
    | x # _ \<Rightarrow> (\<exists>fd. tm_timerfd (timer_run ops new_timer_manager) = Some fd
         \<and> hn_deadline x \<le> fd_expiry fd \<and> fd_expiry fd \<le> max (hn_deadline x) (T + 1)
         \<and> (\<forall>k d cb. pending (timer_run ops new_timer_manager) k = Some (d, cb) \<longrightarrow> hn_deadline x \<le> d))"
proof -
  let ?tm = "timer_run ops new_timer_manager"
  have inv: "timer_inv ?tm" using timer_run_ok [OF timer_inv_new] by blast
  then have s: "sorted_wrt before (m_heap ?tm)" by (simp add: timer_inv_def heap_inv_def)
  have a: "armed (m_heap ?tm) (tm_timerfd ?tm) T"
    by (rule armed_run) (use assms in \<open>simp_all add: armed_def new_timer_manager_def\<close>)
  show ?thesis
  proof (cases "m_heap ?tm")
    case Nil
    then show ?thesis using a by (simp add: armed_def pending_def fun_eq_iff)
  next
    case (Cons x xs)
    then obtain r where "r \<le> T" "tm_timerfd ?tm = Some (r, rearm_spec (hn_deadline x - r))"
      using a by (auto simp: armed_def)
    then have "\<exists>fd. tm_timerfd ?tm = Some fd \<and> hn_deadline x \<le> fd_expiry fd \<and> fd_expiry fd \<le> max (hn_deadline x) (T + 1)"
      by (simp add: fd_expiry_rearm)
    moreover have "hn_deadline x \<le> d" if "pending ?tm k = Some (d, cb)" for k d cb
      using that s Cons by (auto simp: pending_Some_iff [OF inv] before_def)
    ultimately show ?thesis using Cons by simp
  qed
qed

definition demo_timers :: "nat timer_op list" where
  "demo_timers = [T_start_ack (\<lambda>_. 0) ''s'' ''t'' 5 1, T_start_ack (\<lambda>_. 1) ''s'' ''u'' 2 2, T_cancel_ack (\<lambda>_. 2) ''s'' ''u'']"

theorem timerfd_armed_for_earliest_witness:
  "m_heap (timer_run demo_timers new_timer_manager) \<noteq> [] \<and>
   (\<exists>fd. tm_timerfd (timer_run demo_timers new_timer_manager) = Some fd \<and> fd_expiry fd = 5000000000)"
proof -
  have h: "map hn_deadline (m_heap (timer_run demo_timers new_timer_manager)) = [5000000000]" by code_simp
  then obtain x where x: "m_heap (timer_run demo_timers new_timer_manager) = [x]" "hn_deadline x = 5000000000"
    by (auto simp: map_eq_Cons_conv)
  have r: "\<forall>op\<in>set demo_timers. \<forall>i. op_reads op i \<le> 2" by (simp add: demo_timers_def)
  obtain fd where "tm_timerfd (timer_run demo_timers new_timer_manager) = Some fd"
      "5000000000 \<le> fd_expiry fd" "fd_expiry fd \<le> max 5000000000 (2 + 1)"
    using timerfd_armed_for_earliest [OF r] x by auto
  then show ?thesis using x by simp
qed

end
