(* ===== verification/Server.thy ===== *)
theory Server
  imports Ipc Session_Manager Timer_Manager Payload
begin

text \<open>
  The reactor (\<^verbatim>\<open>include/server/server.hpp\<close>, \<^verbatim>\<open>src/server/server.cpp\<close>): TCP and UDP input, output queues,
  dispatch of the workers' responses and the expiry of timers, over the session manager, the timer
  manager and the shared queue. System calls are lists of the results they deliver, in order; an
  exhausted list stands for \<^verbatim>\<open>EAGAIN\<close>. What leaves the process is recorded: the bytes the kernel took from
  a connection, the datagrams sent, the routes handed to the MQTT client. Creating and binding sockets
  is not modelled.
\<close>

section \<open>State\<close>

datatype recv_result = Received string | Peer_closed | Recv_again | Recv_error

datatype send_result = Sent nat | Send_again | Send_error

text \<open>The callbacks the reactor registers with the timer manager.\<close>

datatype reactor_callback =
    Ack_timeout string string string u32 u32
  | Keepalive_timeout string

text \<open>A connection; \<open>tc_slot\<close> is its key in \<^verbatim>\<open>m_tcp_sessions\<close>, \<open>tc_wire\<close> what the kernel has taken so far.\<close>

record tcp_session =
  tc_slot :: int
  m_session_id :: string
  m_read_buf :: string
  m_write_queue :: "string list"
  m_writing :: bool
  m_closed :: bool
  tc_wire :: string

text \<open>Connections by the number of their object: a weak reference is such a number. \<open>sv_posted\<close> are the
  deferred batches of broadcasts, \<open>sv_routes\<close> the routes handed to the MQTT client, which is there when \<open>m_mqtt\<close> holds.\<close>

record server =
  m_session_manager :: session_manager
  m_timer_manager :: "reactor_callback timer_manager"
  m_shm :: shared_queue
  m_tcp_sessions :: "(nat, tcp_session) amap"
  sv_next :: nat
  sv_datagrams :: "(posix_address \<times> string) list"
  sv_posted :: "(string list \<times> response_slot_t) list"
  sv_routes :: "int list"
  m_ack_timeout :: u32
  m_mqtt :: bool

section \<open>TCP sessions\<close>

definition disconnect_request :: "string \<Rightarrow> session_info \<Rightarrow> request_slot_t" where
  "disconnect_request sid info = zero_request\<lparr>rq_session_id := strncpy_field SESSION_ID_SIZE sid, rq_is_disconnect := True,
     rq_is_authenticated := True, rq_username := strncpy_field CREDENTIALS_SIZE (si_username info),
     rq_client_type := strncpy_field ROLE_SIZE (si_client_type info)\<rparr>"

definition notify_disconnect :: "string \<Rightarrow> server \<Rightarrow> server" where
  "notify_disconnect sid s =
     (if \<not> is_authenticated (m_session_manager s) sid then s
      else case get_session_info (m_session_manager s) sid of
             None \<Rightarrow> s
           | Some info \<Rightarrow>
               if si_username info = '''' then s
               else s\<lparr>m_shm := snd (push_request (disconnect_request sid info) (m_shm s))\<rparr>)"

definition close_conn :: "nat \<Rightarrow> server \<Rightarrow> server" where
  "close_conn k s =
     (case alookup (m_tcp_sessions s) k of
        None \<Rightarrow> s
      | Some c \<Rightarrow> if m_closed c then s else s\<lparr>m_tcp_sessions := AList.update k (c\<lparr>m_closed := True\<rparr>) (m_tcp_sessions s)\<rparr>)"

text \<open>The common reaction to a hang-up, an end of file or a failing \<^verbatim>\<open>recv\<close>.\<close>

definition drop_conn :: "nat \<Rightarrow> string \<Rightarrow> server \<Rightarrow> server" where
  "drop_conn k sid s =
     (let s = notify_disconnect sid s
      in close_conn k (s\<lparr>m_session_manager := remove_session sid (m_session_manager s)\<rparr>))"

definition frame :: "string \<Rightarrow> string" where
  "frame data = (if length data \<ge> BUFFER_SIZE then take (BUFFER_SIZE - 1) data @ [NUL]
                 else data @ replicate (BUFFER_SIZE - length data) NUL)"

datatype send_status = Frame_sent | Frame_stalled | Frame_failed

text \<open>The loop around \<^verbatim>\<open>send\<close> for the rest of one buffer: the status, the bytes taken, the results left.\<close>

fun send_loop :: "send_result list \<Rightarrow> string \<Rightarrow> send_status \<times> string \<times> send_result list" where
  "send_loop rs [] = (Frame_sent, [], rs)"
| "send_loop [] buf = (Frame_stalled, [], [])"
| "send_loop (Send_again # rs) buf = (Frame_stalled, [], rs)"
| "send_loop (Send_error # rs) buf = (Frame_failed, [], rs)"
| "send_loop (Sent n # rs) buf =
     (case send_loop rs (drop n buf) of (st, out, rs') \<Rightarrow> (st, take n buf @ out, rs'))"

text \<open>\<open>do_write_next\<close> on the output queue: the bytes taken, the queue and the writing flag afterwards.\<close>

fun do_write_next :: "send_result list \<Rightarrow> string list \<Rightarrow> string \<times> string list \<times> bool" where
  "do_write_next rs [] = ('''', [], False)"
| "do_write_next rs (data # queue) =
     (case send_loop rs (frame data) of
        (Frame_sent, out, rs') \<Rightarrow> (case do_write_next rs' queue of (out', q', w) \<Rightarrow> (out @ out', q', w))
      | (Frame_stalled, out, rs') \<Rightarrow> (out, queue, True)
      | (Frame_failed, out, rs') \<Rightarrow> (out, queue, False))"

definition write_conn :: "send_result list \<Rightarrow> tcp_session \<Rightarrow> tcp_session" where
  "write_conn rs c = (case do_write_next rs (m_write_queue c) of (out, q, w) \<Rightarrow>
     c\<lparr>tc_wire := tc_wire c @ out, m_write_queue := q, m_writing := w\<rparr>)"

definition tcp_send :: "send_result list \<Rightarrow> string \<Rightarrow> tcp_session \<Rightarrow> tcp_session" where
  "tcp_send rs data c =
     (let c = c\<lparr>m_write_queue := m_write_queue c @ [data]\<rparr>
      in if m_writing c then c else write_conn rs (c\<lparr>m_writing := True\<rparr>))"

definition on_writable :: "send_result list \<Rightarrow> tcp_session \<Rightarrow> tcp_session" where
  "on_writable rs c = (if m_writing c then write_conn rs c else c)"

text \<open>The request slot the reactor fills for a message of a session.\<close>

definition message_request :: "protocol_type \<Rightarrow> session_manager \<Rightarrow> string \<Rightarrow> string \<Rightarrow> u32 \<Rightarrow> request_slot_t" where
  "message_request proto sm sid json len =
     zero_request\<lparr>rq_session_id := strncpy_field SESSION_ID_SIZE sid, rq_protocol := proto, rq_raw_json := json,
       rq_payload_len := len, rq_is_authenticated := is_authenticated sm sid, rq_is_blacklisted := is_blacklisted sm sid,
       rq_client_type := strncpy_field ROLE_SIZE (get_client_type sm sid),
       rq_username := (case get_session_info sm sid of
          None \<Rightarrow> '''' | Some info \<Rightarrow> strncpy_field CREDENTIALS_SIZE (si_username info))\<rparr>"

text \<open>The body of the loop of \<open>on_readable\<close> when the buffer is full; its last byte is overwritten by a terminator.\<close>

definition flush_frame :: "nat \<Rightarrow> server \<Rightarrow> server" where
  "flush_frame k s =
     (case alookup (m_tcp_sessions s) k of
        None \<Rightarrow> s
      | Some c \<Rightarrow>
          if length (m_read_buf c) < BUFFER_SIZE then s
          else s\<lparr>m_shm := snd (push_request (message_request TCP (m_session_manager s) (m_session_id c)
                   (c_str (take (BUFFER_SIZE - 1) (m_read_buf c))) (of_nat BUFFER_SIZE)) (m_shm s)),
                 m_tcp_sessions := AList.update k (c\<lparr>m_read_buf := ''''\<rparr>) (m_tcp_sessions s)\<rparr>)"

definition conn_session :: "nat \<Rightarrow> server \<Rightarrow> string" where
  "conn_session k s = (case alookup (m_tcp_sessions s) k of None \<Rightarrow> '''' | Some c \<Rightarrow> m_session_id c)"

definition add_input :: "nat \<Rightarrow> string \<Rightarrow> server \<Rightarrow> server" where
  "add_input k bs s =
     (case alookup (m_tcp_sessions s) k of
        None \<Rightarrow> s
      | Some c \<Rightarrow> s\<lparr>m_tcp_sessions := AList.update k (c\<lparr>m_read_buf := m_read_buf c @ bs\<rparr>) (m_tcp_sessions s)\<rparr>)"

fun tcp_on_readable :: "recv_result list \<Rightarrow> nat \<Rightarrow> server \<Rightarrow> server" where
  "tcp_on_readable [] k s = flush_frame k s"
| "tcp_on_readable (Received bs # rs) k s = tcp_on_readable rs k (add_input k bs (flush_frame k s))"
| "tcp_on_readable (Recv_again # rs) k s = flush_frame k s"
| "tcp_on_readable (Peer_closed # rs) k s = (let s = flush_frame k s in drop_conn k (conn_session k s) s)"
| "tcp_on_readable (Recv_error # rs) k s = (let s = flush_frame k s in drop_conn k (conn_session k s) s)"

text \<open>The epoll callback registered by \<open>start\<close>. A closed connection's descriptor is not in the epoll set.\<close>

definition tcp_event :: "bool \<Rightarrow> bool \<Rightarrow> bool \<Rightarrow> recv_result list \<Rightarrow> send_result list \<Rightarrow> nat \<Rightarrow> server \<Rightarrow> server" where
  "tcp_event hangup readable writable ins outs k s =
     (if hangup then drop_conn k (conn_session k s) s
      else let s = (if readable then tcp_on_readable ins k s else s)
           in if writable then
                (case alookup (m_tcp_sessions s) k of
                   None \<Rightarrow> s
                 | Some c \<Rightarrow> s\<lparr>m_tcp_sessions := AList.update k (on_writable outs c) (m_tcp_sessions s)\<rparr>)
              else s)"

definition new_conn :: "int \<Rightarrow> string \<Rightarrow> tcp_session" where
  "new_conn fd sid = \<lparr>tc_slot = fd, m_session_id = sid, m_read_buf = '''', m_write_queue = [], m_writing = False,
     m_closed = False, tc_wire = ''''\<rparr>"

text \<open>One accepted descriptor: the entry of an earlier connection with the same descriptor is replaced.\<close>

definition on_accept :: "int \<Rightarrow> server \<Rightarrow> server" where
  "on_accept client_fd s =
     (case create_session (m_session_manager s) of (sid, sm) \<Rightarrow>
        (let k = sv_next s;
             others = filter (\<lambda>(_, c). tc_slot c \<noteq> client_fd) (m_tcp_sessions s)
         in s\<lparr>m_session_manager := set_tcp_session sid k sm, m_tcp_sessions := AList.update k (new_conn client_fd sid) others,
              sv_next := Suc k\<rparr>))"

section \<open>UDP\<close>

text \<open>One datagram; \<open>json\<close> are its bytes, of which \<^verbatim>\<open>recvfrom\<close> keeps at most \<^verbatim>\<open>BUFFER_SIZE - 1\<close>.\<close>

definition udp_on_datagram :: "ntop \<Rightarrow> posix_address \<Rightarrow> string \<Rightarrow> server \<Rightarrow> server" where
  "udp_on_datagram ntp sender bytes s =
     (let bytes = take (BUFFER_SIZE - 1) bytes
      in if bytes = '''' then s
         else case get_or_create_udp_session ntp sender (m_session_manager s) of (sid, sm) \<Rightarrow>
              s\<lparr>m_session_manager := sm,
                m_shm := snd (push_request (message_request UDP sm sid (c_str bytes) (of_nat (length bytes))) (m_shm s))\<rparr>)"

definition udp_send_to_session :: "string \<Rightarrow> string \<Rightarrow> server \<Rightarrow> server" where
  "udp_send_to_session sid data s =
     (case get_udp_endpoint (m_session_manager s) sid of
        None \<Rightarrow> s
      | Some ep \<Rightarrow> s\<lparr>sv_datagrams := sv_datagrams s @
          [(ep, let d = take (BUFFER_SIZE - 1) data in d @ replicate (BUFFER_SIZE - length d) NUL)]\<rparr>)"

section \<open>Sending and timeouts\<close>

definition send_to_session :: "send_result list \<Rightarrow> string \<Rightarrow> string \<Rightarrow> server \<Rightarrow> server" where
  "send_to_session outs sid data s =
     (case get_session_info (m_session_manager s) sid of
        None \<Rightarrow> s
      | Some info \<Rightarrow>
          if si_type info = Conn_UDP then udp_send_to_session sid data s
          else case Option.bind (si_tcp_session_ref info) (\<lambda>k. map_option (Pair k) (alookup (m_tcp_sessions s) k)) of
                 None \<Rightarrow> s
               | Some (k, c) \<Rightarrow> s\<lparr>m_tcp_sessions := AList.update k (tcp_send outs data c) (m_tcp_sessions s)\<rparr>)"

text \<open>The live TCP connection of a session, if its weak reference can be locked.\<close>

definition lock_tcp :: "session_info \<Rightarrow> server \<Rightarrow> nat option" where
  "lock_tcp info s = Option.bind (si_tcp_session_ref info) (\<lambda>k. if alookup (m_tcp_sessions s) k = None then None else Some k)"

definition disconnect_tcp :: "session_info \<Rightarrow> string \<Rightarrow> server \<Rightarrow> server" where
  "disconnect_tcp info sid s =
     (case lock_tcp info s of None \<Rightarrow> s | Some k \<Rightarrow> close_conn k (notify_disconnect (conn_session k s) s))"

definition handle_keepalive_timeout :: "clock_reads \<Rightarrow> string \<Rightarrow> server \<Rightarrow> server" where
  "handle_keepalive_timeout clk sid s =
     (let s = s\<lparr>m_timer_manager := clear_session_timers clk sid (m_timer_manager s)\<rparr>
      in case get_session_info (m_session_manager s) sid of
           None \<Rightarrow> s
         | Some info \<Rightarrow>
             (let s = (if si_type info = Conn_TCP then disconnect_tcp info sid s
                       else if si_username info \<noteq> '''' then s\<lparr>m_shm := snd (push_request (disconnect_request sid info) (m_shm s))\<rparr>
                       else s)
              in s\<lparr>m_session_manager := remove_session sid (m_session_manager s)\<rparr>))"

definition handle_ack_timeout ::
  "clock_reads \<Rightarrow> send_result list \<Rightarrow> string \<Rightarrow> string \<Rightarrow> string \<Rightarrow> u32 \<Rightarrow> u32 \<Rightarrow> server \<Rightarrow> server" where
  "handle_ack_timeout clk outs sid key payload retry_count max_retries s =
     (if \<not> has_session (m_session_manager s) sid then s
      else if retry_count \<ge> max_retries - 1 then
        (let s = s\<lparr>m_timer_manager := clear_session_timers clk sid (m_timer_manager s)\<rparr>
         in case get_session_info (m_session_manager s) sid of
              None \<Rightarrow> s\<lparr>m_session_manager := blacklist_session sid (m_session_manager s)\<rparr>
            | Some info \<Rightarrow>
                if si_type info = Conn_TCP then
                  (let s = disconnect_tcp info sid s
                   in s\<lparr>m_session_manager := remove_session sid (m_session_manager s)\<rparr>)
                else
                  (let s = (if si_username info \<noteq> '''' then s\<lparr>m_shm := snd (push_request (disconnect_request sid info) (m_shm s))\<rparr> else s)
                   in s\<lparr>m_session_manager := blacklist_session sid (m_session_manager s)\<rparr>))
      else
        (let s = send_to_session outs sid payload s
         in s\<lparr>m_timer_manager := start_ack_timer clk sid key (sint (m_ack_timeout s))
               (Ack_timeout sid key payload (retry_count + 1) max_retries) (m_timer_manager s)\<rparr>))"

fun run_callback :: "clock_reads \<Rightarrow> send_result list \<Rightarrow> reactor_callback \<Rightarrow> server \<Rightarrow> server" where
  "run_callback clk outs (Ack_timeout sid key payload r m) s = handle_ack_timeout clk outs sid key payload r m s"
| "run_callback clk outs (Keepalive_timeout sid) s = handle_keepalive_timeout clk sid s"

text \<open>The timer descriptor is readable: due timers leave the queue, then their callbacks run, the \<open>i\<close>-th with the
  clock \<open>clk i\<close> and the results \<open>outs i\<close>.\<close>

fun run_callbacks :: "(nat \<Rightarrow> clock_reads) \<Rightarrow> (nat \<Rightarrow> send_result list) \<Rightarrow> nat \<Rightarrow> reactor_callback list \<Rightarrow> server \<Rightarrow> server" where
  "run_callbacks clk outs i [] s = s"
| "run_callbacks clk outs i (cb # cbs) s = run_callbacks clk outs (Suc i) cbs (run_callback (clk i) (outs i) cb s)"

definition on_timer :: "(nat \<Rightarrow> clock_reads) \<Rightarrow> (nat \<Rightarrow> send_result list) \<Rightarrow> server \<Rightarrow> server" where
  "on_timer clk outs s =
     (case on_timerfd_ready (clk 0) (m_timer_manager s) of (cbs, tm) \<Rightarrow>
        run_callbacks (\<lambda>i. clk (Suc i)) outs 0 cbs (s\<lparr>m_timer_manager := tm\<rparr>))"

section \<open>Responses of the workers\<close>

definition BROADCAST_BATCH_SIZE :: nat where "BROADCAST_BATCH_SIZE = 100"

definition resp_data :: "response_slot_t \<Rightarrow> string" where
  "resp_data r = take (unat (rs_payload_len r)) (rs_payload r)"

definition start_resp_timer :: "clock_reads \<Rightarrow> string \<Rightarrow> response_slot_t \<Rightarrow> server \<Rightarrow> server" where
  "start_resp_timer clk sid r s = s\<lparr>m_timer_manager := start_ack_timer clk sid (rs_timer_key r) (sint (rs_timer_timeout r))
     (Ack_timeout sid (rs_timer_key r) (resp_data r) (rs_retry_count r) (rs_max_retries r)) (m_timer_manager s)\<rparr>"

fun send_batch :: "(nat \<Rightarrow> clock_reads) \<Rightarrow> (nat \<Rightarrow> send_result list) \<Rightarrow> nat \<Rightarrow> response_slot_t \<Rightarrow> string list \<Rightarrow> server \<Rightarrow> server" where
  "send_batch clk outs i r [] s = s"
| "send_batch clk outs i r (sid # sids) s =
     send_batch clk outs (Suc i) r sids
       (if \<not> has_session (m_session_manager s) sid then s
        else let s = send_to_session (outs i) sid (resp_data r) s
             in if rs_start_ack_timer r \<and> rs_timer_timeout r > 0 \<and> get_client_type (m_session_manager s) sid \<noteq> ''CLI''
                then start_resp_timer (clk i) sid r s else s)"

fun batches :: "nat \<Rightarrow> 'a list \<Rightarrow> 'a list list" where
  "batches 0 xs = [xs]"
| "batches n [] = []"
| "batches (Suc n) (x # xs) = take (Suc n) (x # xs) # batches (Suc n) (drop n xs)"

fun dispatch_command :: "(nat \<Rightarrow> clock_reads) \<Rightarrow> (nat \<Rightarrow> send_result list) \<Rightarrow> response_command \<Rightarrow> response_slot_t \<Rightarrow> server \<Rightarrow> server" where
  "dispatch_command clk outs SEND r s =
     (let sid = rs_session_id r;
          target = (if sid = '''' \<and> rs_target_username r \<noteq> '''' then find_session_by_username (m_session_manager s) (rs_target_username r) else sid)
      in if sid = '''' \<and> rs_target_username r \<noteq> '''' \<and> target = '''' then s
         else let s = send_to_session (outs 0) target (resp_data r) s
              in if rs_start_ack_timer r \<and> rs_timer_timeout r > 0 then start_resp_timer (clk 0) target r s else s)"
| "dispatch_command clk outs START_ACK_TIMER r s = start_resp_timer (clk 0) (rs_session_id r) r s"
| "dispatch_command clk outs CANCEL_ACK_TIMER r s =
     s\<lparr>m_timer_manager := snd (cancel_ack_timer (clk 0) (rs_session_id r) (rs_timer_key r) (m_timer_manager s))\<rparr>"
| "dispatch_command clk outs CLEAR_TIMERS r s = s\<lparr>m_timer_manager := clear_session_timers (clk 0) (rs_session_id r) (m_timer_manager s)\<rparr>"
| "dispatch_command clk outs BLACKLIST r s = s\<lparr>m_session_manager := blacklist_session (rs_session_id r) (m_session_manager s)\<rparr>"
| "dispatch_command clk outs MARK_AUTHENTICATED r s =
     s\<lparr>m_session_manager := mark_authenticated (rs_session_id r) (rs_client_type r) (rs_username r) (m_session_manager s)\<rparr>"
| "dispatch_command clk outs START_KEEPALIVE_TIMER r s =
     s\<lparr>m_timer_manager := start_keepalive_timer (clk 0) (rs_session_id r) (sint (rs_timer_timeout r))
         (Keepalive_timeout (rs_session_id r)) (m_timer_manager s)\<rparr>"
| "dispatch_command clk outs RESET_KEEPALIVE_TIMER r s =
     s\<lparr>m_timer_manager := reset_keepalive_timer (clk 0) (rs_session_id r) (m_timer_manager s)\<rparr>"
| "dispatch_command clk outs DISCONNECT r s = handle_keepalive_timeout (clk 0) (rs_session_id r) s"
| "dispatch_command clk outs BROADCAST r s =
     (case batches BROADCAST_BATCH_SIZE (get_authenticated_sessions (m_session_manager s)) of
        [] \<Rightarrow> s
      | b # bs \<Rightarrow> (let s = send_batch clk outs 0 r b s in s\<lparr>sv_posted := sv_posted s @ map (\<lambda>b. (b, r)) bs\<rparr>))"
| "dispatch_command clk outs MQTT_PUBLISH_ROUTE r s =
     (if m_mqtt s then s\<lparr>sv_routes := sv_routes s @ [rs_mqtt_transaction_id r]\<rparr> else s)"

definition dispatch_response :: "(nat \<Rightarrow> clock_reads) \<Rightarrow> (nat \<Rightarrow> send_result list) \<Rightarrow> response_slot_t \<Rightarrow> server \<Rightarrow> server" where
  "dispatch_response clk outs r s =
     (if rs_session_id r \<noteq> '''' \<and> rs_command r \<noteq> MARK_AUTHENTICATED \<and> \<not> has_session (m_session_manager s) (rs_session_id r) then s
      else dispatch_command clk outs (rs_command r) r s)"

text \<open>A task posted to the event loop runs: the next batch of a broadcast.\<close>

definition run_posted :: "(nat \<Rightarrow> clock_reads) \<Rightarrow> (nat \<Rightarrow> send_result list) \<Rightarrow> server \<Rightarrow> server" where
  "run_posted clk outs s =
     (case sv_posted s of [] \<Rightarrow> s | (b, r) # ps \<Rightarrow> send_batch clk outs 0 r b (s\<lparr>sv_posted := ps\<rparr>))"

end
