(* ===== verification/Server_Proofs.thy ===== *)
theory Server_Proofs
  imports Server "HOL-Library.Sublist"
begin

text \<open>
  What the reactor guarantees: framing of the TCP streams in both directions, the retry discipline for
  unacknowledged messages, draining of the response ring, and the invariants of the session table and
  the timer queue under every reactor step.
\<close>

section \<open>Input framing\<close>

text \<open>The reference: a stream cut into frames of \<^verbatim>\<open>BUFFER_SIZE\<close> bytes, and what is left of it.\<close>

function (sequential) frames_of :: "string \<Rightarrow> string list" where
  "frames_of bs = (if length bs < BUFFER_SIZE then [] else take BUFFER_SIZE bs # frames_of (drop BUFFER_SIZE bs))"
  by auto
termination by (relation "measure length") (auto simp: BUFFER_SIZE_def)

declare frames_of.simps [simp del]

definition rest_of :: "string \<Rightarrow> string" where
  "rest_of bs = drop (BUFFER_SIZE * (length bs div BUFFER_SIZE)) bs"

lemma frames_short: "length bs < BUFFER_SIZE \<Longrightarrow> frames_of bs = [] \<and> rest_of bs = bs"
  by (simp add: frames_of.simps rest_of_def)

lemma frames_append:
  assumes "length b = BUFFER_SIZE"
  shows "frames_of (b @ bs) = b # frames_of bs" "rest_of (b @ bs) = rest_of bs"
proof -
  show "frames_of (b @ bs) = b # frames_of bs" using assms by (subst frames_of.simps) simp
  have "(BUFFER_SIZE + length bs) div BUFFER_SIZE = Suc (length bs div BUFFER_SIZE)" by (simp add: BUFFER_SIZE_def)
  then show "rest_of (b @ bs) = rest_of bs" using assms by (simp add: rest_of_def)
qed

text \<open>What a run of \<^verbatim>\<open>recv\<close> calls can deliver, given the bytes already in the buffer: never more than fits.\<close>

fun chunks_ok :: "nat \<Rightarrow> string list \<Rightarrow> bool" where
  "chunks_ok n [] = True"
| "chunks_ok n (c # cs) =
     (let m = (if n = BUFFER_SIZE then 0 else n) in m + length c \<le> BUFFER_SIZE \<and> chunks_ok (m + length c) cs)"

definition frame_request :: "session_manager \<Rightarrow> string \<Rightarrow> string \<Rightarrow> request_slot_t" where
  "frame_request sm sid f = message_request TCP sm sid (c_str (take (BUFFER_SIZE - 1) f)) (of_nat BUFFER_SIZE)"

definition with_input :: "server \<Rightarrow> nat \<Rightarrow> tcp_session \<Rightarrow> shared_queue \<Rightarrow> string \<Rightarrow> server" where
  "with_input s k c q b = s\<lparr>m_shm := q, m_tcp_sessions := AList.update k (c\<lparr>m_read_buf := b\<rparr>) (m_tcp_sessions s)\<rparr>"

lemma flush_with_input:
  "flush_frame k (with_input s k c q b) =
     (if length b < BUFFER_SIZE then with_input s k c q b
      else with_input s k c (snd (push_request (frame_request (m_session_manager s) (m_session_id c) b) q)) '''')"
  by (simp add: flush_frame_def with_input_def frame_request_def)

lemma add_with_input: "add_input k x (with_input s k c q b) = with_input s k c q (b @ x)"
  by (simp add: add_input_def with_input_def)

lemma readable_frames:
  assumes "length b \<le> BUFFER_SIZE" "chunks_ok (length b) cs"
  shows "tcp_on_readable (map Received cs) k (with_input s k c q b) =
     with_input s k c (fold (\<lambda>f q. snd (push_request (frame_request (m_session_manager s) (m_session_id c) f) q))
       (frames_of (b @ concat cs)) q) (rest_of (b @ concat cs))"
  using assms
proof (induction cs arbitrary: b q)
  case Nil
  show ?case
  proof (cases "length b = BUFFER_SIZE")
    case True
    then show ?thesis using frames_append [OF True, of "[]"] frames_short [of "[]"]
      by (simp add: flush_with_input BUFFER_SIZE_def)
  next
    case False
    then show ?thesis using Nil frames_short [of b] by (simp add: flush_with_input)
  qed
next
  case (Cons x cs)
  show ?case
  proof (cases "length b = BUFFER_SIZE")
    case True
    then show ?thesis using Cons.prems Cons.IH [of x] frames_append [OF True, of "x @ concat cs"]
      by (simp add: flush_with_input add_with_input Let_def)
  next
    case False
    then show ?thesis using Cons.prems Cons.IH [of "b @ x"] by (simp add: flush_with_input add_with_input Let_def)
  qed
qed

lemma update_same: "alookup m k = Some v \<Longrightarrow> AList.update k v m = m"
  by (induction m) auto

text \<open>C22: The requests cut out of a TCP stream depend on its bytes only, not on how the network splits them: for
  every sequence of \<^verbatim>\<open>recv\<close> results, one request is queued per 1024 bytes, in order, each holding its
  frame as a C string of at most 1023 bytes, and the bytes of an incomplete frame stay in the buffer.\<close>

theorem tcp_input_framing:
  assumes "alookup (m_tcp_sessions s) k = Some c" "length (m_read_buf c) \<le> BUFFER_SIZE" "chunks_ok (length (m_read_buf c)) cs"
  shows "tcp_on_readable (map Received cs) k s =
     s\<lparr>m_shm := fold (\<lambda>f q. snd (push_request (message_request TCP (m_session_manager s) (m_session_id c)
            (c_str (take (BUFFER_SIZE - 1) f)) (of_nat BUFFER_SIZE)) q)) (frames_of (m_read_buf c @ concat cs)) (m_shm s),
       m_tcp_sessions := AList.update k (c\<lparr>m_read_buf := rest_of (m_read_buf c @ concat cs)\<rparr>) (m_tcp_sessions s)\<rparr>"
proof -
  have "with_input s k c (m_shm s) (m_read_buf c) = s" using update_same [OF assms(1)] by (simp add: with_input_def)
  with readable_frames [OF assms(2,3), of k s c "m_shm s"] show ?thesis by (simp add: with_input_def frame_request_def)
qed

section \<open>Output framing\<close>

lemma frame_length [simp]: "length (frame d) = BUFFER_SIZE"
  by (auto simp: frame_def BUFFER_SIZE_def)

lemma send_loop_cases:
  assumes "send_loop rs buf = (st, out, rs')"
  shows "st = Frame_sent \<and> out = buf \<or> st \<noteq> Frame_sent \<and> strict_prefix out buf"
  using assms
proof (induction rs buf arbitrary: out rs' rule: send_loop.induct)
  case (5 n rs b buf)
  obtain st1 out1 rs1 where r: "send_loop rs (drop n (b # buf)) = (st1, out1, rs1)" by (cases "send_loop rs (drop n (b # buf))") auto
  have e: "st = st1" "out = take n (b # buf) @ out1" using 5(2) r by (auto split: prod.splits)
  from 5(1) [OF r [unfolded e(1) [symmetric]]] show ?case
  proof (elim disjE conjE)
    assume "st \<noteq> Frame_sent" and p: "strict_prefix out1 (drop n (b # buf))"
    from p obtain z zs where "drop n (b # buf) = out1 @ z # zs" by (rule strict_prefixE')
    then have "b # buf = out @ z # zs" using append_take_drop_id [of n "b # buf"] e(2) by simp
    then show ?thesis using \<open>st \<noteq> Frame_sent\<close> by (intro disjI2 conjI strict_prefixI')
  qed (use e in simp)
qed auto

text \<open>What the kernel takes from a connection while its output queue is written: whole frames of 1024 bytes for
  the messages in order, and at most one incomplete frame at the end. Either every queued message went
  out whole and the connection stops writing, or writing stopped within the frame of one message, which
  has left the queue; the messages behind it are still queued.\<close>

theorem tcp_output_shape:
  "do_write_next rs queue = (out, queue', writing) \<longrightarrow>
     (queue' = [] \<and> \<not> writing \<and> out = concat (map frame queue)) \<or>
     (\<exists>sent d part. queue = sent @ d # queue' \<and> out = concat (map frame sent) @ part \<and> strict_prefix part (frame d))"
proof (induction queue arbitrary: rs out)
  case (Cons data queue)
  obtain st out1 rs1 where s: "send_loop rs (frame data) = (st, out1, rs1)" by (cases "send_loop rs (frame data)") auto
  note c = send_loop_cases [OF s]
  show ?case
  proof (cases st)
    case Frame_sent
    obtain out2 q2 w2 where d: "do_write_next rs1 queue = (out2, q2, w2)" by (cases "do_write_next rs1 queue") auto
    show ?thesis
    proof
      assume "do_write_next rs (data # queue) = (out, queue', writing)"
      then have e: "out = frame data @ out2" "queue' = q2" "writing = w2" using s d Frame_sent c by auto
      from Cons.IH [of rs1 out2] d e(2,3)
      consider "queue' = []" "\<not> writing" "out2 = concat (map frame queue)"
        | sent x part where "queue = sent @ x # queue'" "out2 = concat (map frame sent) @ part" "strict_prefix part (frame x)"
        by auto
      then show "(queue' = [] \<and> \<not> writing \<and> out = concat (map frame (data # queue))) \<or>
          (\<exists>sent d part. data # queue = sent @ d # queue' \<and> out = concat (map frame sent) @ part \<and> strict_prefix part (frame d))"
      proof cases
        case 1
        then show ?thesis using e by simp
      next
        case (2 sent x part)
        then show ?thesis using e by (intro disjI2 exI [of _ "data # sent"] exI [of _ x] exI [of _ part]) simp
      qed
    qed
  next
    case Frame_stalled
    then show ?thesis using s c by (auto intro!: exI [of _ "[]"])
  next
    case Frame_failed
    then show ?thesis using s c by (auto intro!: exI [of _ "[]"])
  qed
qed simp

theorem tcp_output_shape_witness:
  "\<exists>sent d part. [''a'', ''b''] = sent @ d # [''b''] \<and> take 1 (frame ''a'') = concat (map frame sent) @ part \<and>
     strict_prefix part (frame d)"
proof -
  obtain x y xs where f: "frame ''a'' = x # y # xs"
    using frame_length [of "''a''"] by (cases "frame ''a''"; cases "tl (frame ''a'')") (auto simp: BUFFER_SIZE_def)
  obtain w where "do_write_next [Sent 1, Send_again] [''a'', ''b''] = (take 1 (frame ''a''), [''b''], w)" by (simp add: f)
  with tcp_output_shape [of "[Sent 1, Send_again]" "[''a'', ''b'']"] show ?thesis by blast
qed

text \<open>A frame that the kernel takes only in part is never completed: once the rest would be writable the
  connection goes on with the next message, so that the peer receives a truncated frame and loses the
  alignment of all frames behind it.\<close>

theorem stalled_frame_is_lost:
  assumes "m_write_queue c = []" "\<not> m_writing c" "0 < n" "n < BUFFER_SIZE"
  shows "on_writable outs (tcp_send [Sent n, Send_again] data c) =
     c\<lparr>tc_wire := tc_wire c @ take n (frame data), m_write_queue := [], m_writing := False\<rparr>"
proof -
  have "drop n (frame data) \<noteq> []" using assms(4) by simp
  then obtain x xs where "drop n (frame data) = x # xs" by (cases "drop n (frame data)") auto
  moreover obtain y ys where "frame data = y # ys" using frame_length [of data] by (cases "frame data") (auto simp: BUFFER_SIZE_def)
  ultimately have "send_loop [Sent n, Send_again] (frame data) = (Frame_stalled, take n (frame data), [])" by simp
  then show ?thesis using assms(1,2) by (simp add: tcp_send_def write_conn_def on_writable_def)
qed

theorem stalled_frame_is_lost_witness:
  "tc_wire (on_writable [Sent 1024] (tcp_send [Sent 1, Send_again] ''hello'' (new_conn 5 ''tcp_session_1''))) = ''h''"
proof -
  have "take 1 (frame ''hello'') = ''h''" by (simp add: frame_def BUFFER_SIZE_def)
  then show ?thesis
    using stalled_frame_is_lost [of "new_conn 5 ''tcp_session_1''" 1 "[Sent 1024]" "''hello''"]
    by (simp add: new_conn_def BUFFER_SIZE_def)
qed

section \<open>Retries\<close>

lemma send_to_session_fields [simp]:
  "m_session_manager (send_to_session outs sid data s) = m_session_manager s"
  "m_timer_manager (send_to_session outs sid data s) = m_timer_manager s"
  "m_shm (send_to_session outs sid data s) = m_shm s" "m_ack_timeout (send_to_session outs sid data s) = m_ack_timeout s"
  by (simp_all add: send_to_session_def udp_send_to_session_def Let_def split: option.splits prod.splits)

lemma close_conn_fields [simp]:
  "m_session_manager (close_conn k s) = m_session_manager s" "m_timer_manager (close_conn k s) = m_timer_manager s"
  "m_shm (close_conn k s) = m_shm s"
  by (simp_all add: close_conn_def split: option.splits)

lemma notify_disconnect_fields [simp]:
  "m_session_manager (notify_disconnect sid s) = m_session_manager s" "m_timer_manager (notify_disconnect sid s) = m_timer_manager s"
  "m_tcp_sessions (notify_disconnect sid s) = m_tcp_sessions s"
  by (simp_all add: notify_disconnect_def split: option.splits)

lemma disconnect_tcp_fields [simp]:
  "m_session_manager (disconnect_tcp info sid s) = m_session_manager s" "m_timer_manager (disconnect_tcp info sid s) = m_timer_manager s"
  by (simp_all add: disconnect_tcp_def split: option.splits)

lemma has_session_remove: "\<not> has_session (remove_session sid sm) sid"
  by (cases "alookup (m_sessions sm) sid") (simp_all add: has_session_def remove_session_def)

text \<open>C23: The discipline for a message that is not acknowledged. While the number of retries is below the maximum
  minus one (computed with 32-bit wrap-around) the message is sent again and its timer restarted with
  the count one higher; at the maximum every timer of the session is cancelled and the session is
  removed (TCP) or blacklisted (UDP). A timer of a session that is gone does nothing.\<close>

theorem ack_timeout_discipline:
  assumes "timer_inv (m_timer_manager s)"
    and "s' = handle_ack_timeout clk outs sid key payload r m s"
  shows "case get_session_info (m_session_manager s) sid of
       None \<Rightarrow> s' = s
     | Some info \<Rightarrow>
         if r \<ge> m - 1
         then (\<forall>k. tk_session k = sid \<longrightarrow> pending (m_timer_manager s') k = None)
           \<and> (if si_type info = Conn_TCP then \<not> has_session (m_session_manager s') sid else is_blacklisted (m_session_manager s') sid)
         else pending (m_timer_manager s') = (pending (m_timer_manager s))(ack_key sid key \<mapsto>
                (clk 1 + sint (m_ack_timeout s) * NS_PER_SEC, Ack_timeout sid key payload (r + 1) m))
           \<and> m_session_manager s' = m_session_manager s \<and> m_tcp_sessions s' = m_tcp_sessions (send_to_session outs sid payload s)
           \<and> sv_datagrams s' = sv_datagrams (send_to_session outs sid payload s)"
proof (cases "get_session_info (m_session_manager s) sid")
  case None
  then show ?thesis using assms(2) by (simp add: handle_ack_timeout_def has_session_def get_session_info_def)
next
  case (Some info)
  have h: "has_session (m_session_manager s) sid" using Some by (simp add: has_session_def get_session_info_def)

  have bl: "is_blacklisted (blacklist_session sid (m_session_manager s)) sid"
    using Some by (simp add: is_blacklisted_def blacklist_session_def get_session_info_def)
  have cl: "pending (clear_session_timers clk sid (m_timer_manager s)) k = None" if "tk_session k = sid" for k
    using clear_session_timers_ok [OF assms(1), of clk sid] that by auto
  show ?thesis
  proof (cases "r \<ge> m - 1")
    case True
    then show ?thesis using Some h has_session_remove bl cl assms(2)
      by (auto simp: handle_ack_timeout_def Let_def)
  next
    case False
    then show ?thesis using Some h assms(2) insert_timer_ok(2) [OF assms(1)]
      by (simp add: handle_ack_timeout_def Let_def start_ack_timer_def)
  qed
qed

section \<open>What every handler of the reactor keeps\<close>

definition keeps :: "server \<Rightarrow> server \<Rightarrow> bool" where
  "keeps s s' \<longleftrightarrow> (sess_inv (m_session_manager s) \<longrightarrow> sess_inv (m_session_manager s'))
     \<and> (timer_inv (m_timer_manager s) \<longrightarrow> timer_inv (m_timer_manager s'))
     \<and> m_session_counter (m_session_manager s') = m_session_counter (m_session_manager s)
     \<and> resp_head (m_shm s') = resp_head (m_shm s) \<and> resp_tail (m_shm s') = resp_tail (m_shm s)"

lemma keeps_refl [intro, simp]: "keeps s s"
  by (simp add: keeps_def)

lemma keeps_trans [trans]: "keeps s t \<Longrightarrow> keeps t u \<Longrightarrow> keeps s u"
  by (simp add: keeps_def)

lemma keeps_same:
  "m_session_manager s' = m_session_manager s \<Longrightarrow> m_timer_manager s' = m_timer_manager s \<Longrightarrow> m_shm s' = m_shm s \<Longrightarrow> keeps s s'"
  by (simp add: keeps_def)

lemma keeps_timers: "keeps s (s\<lparr>m_timer_manager := timer_step op (m_timer_manager s)\<rparr>)"
  using timer_step_ok [of "m_timer_manager s" op] by (simp add: keeps_def)

lemmas keeps_timer_ops =
  keeps_timers [of _ "T_start_ack clk sid ts secs cb" for clk sid ts secs cb, simplified]
  keeps_timers [of _ "T_cancel_ack clk sid ts" for clk sid ts, simplified]
  keeps_timers [of _ "T_start_keepalive clk sid secs cb" for clk sid secs cb, simplified]
  keeps_timers [of _ "T_reset_keepalive clk sid" for clk sid, simplified]
  keeps_timers [of _ "T_clear clk sid" for clk sid, simplified]
  keeps_timers [of _ "T_ready clk" for clk, simplified]

lemma keeps_session_ops:
  "keeps s (s\<lparr>m_session_manager := remove_session sid (m_session_manager s)\<rparr>)"
  "keeps s (s\<lparr>m_session_manager := blacklist_session sid (m_session_manager s)\<rparr>)"
  "keeps s (s\<lparr>m_session_manager := mark_authenticated sid ct u (m_session_manager s)\<rparr>)"
  "get_or_create_udp_session ntp ep (m_session_manager s) = (sid, sm) \<Longrightarrow> keeps s (s\<lparr>m_session_manager := sm\<rparr>)"
  using sess_inv_ops sess_inv_udp [of "m_session_manager s" ntp ep]
  by (auto simp: keeps_def remove_session_def blacklist_session_def mark_authenticated_def get_or_create_udp_session_def Let_def
      split: option.splits)

lemma keeps_push: "keeps s (s\<lparr>m_shm := snd (push_request r (m_shm s))\<rparr>)"
  by (auto simp: keeps_def push_request_def Let_def split: option.splits)

lemma keeps_pushed:
  "m_session_manager s' = m_session_manager s \<Longrightarrow> m_timer_manager s' = m_timer_manager s \<Longrightarrow>
   m_shm s' = snd (push_request r (m_shm s)) \<Longrightarrow> keeps s s'"
  by (auto simp: keeps_def push_request_def Let_def split: option.splits)

lemma keeps_send: "keeps s (send_to_session outs sid data s)"
  by (rule keeps_same) simp_all

lemma keeps_notify: "keeps s (notify_disconnect sid s)"
  by (auto simp: notify_disconnect_def keeps_push split: option.splits)

lemma keeps_close: "keeps s (close_conn k s)"
  by (rule keeps_same) simp_all

lemma keeps_drop: "keeps s (drop_conn k sid s)"
  unfolding drop_conn_def Let_def
  by (rule keeps_trans [OF keeps_notify keeps_trans [OF keeps_session_ops(1) keeps_close]])

lemma keeps_disconnect_tcp: "keeps s (disconnect_tcp info sid s)"
  unfolding disconnect_tcp_def by (auto split: option.splits intro: keeps_trans [OF keeps_notify keeps_close])

lemma keeps_keepalive_timeout: "keeps s (handle_keepalive_timeout clk sid s)"
proof -
  let ?s1 = "s\<lparr>m_timer_manager := clear_session_timers clk sid (m_timer_manager s)\<rparr>"
  have 1: "keeps s ?s1" by (rule keeps_timer_ops(5))
  show ?thesis
  proof (cases "get_session_info (m_session_manager s) sid")
    case None
    then show ?thesis using 1 by (simp add: handle_keepalive_timeout_def)
  next
    case (Some info)
    let ?s2 = "if si_type info = Conn_TCP then disconnect_tcp info sid ?s1
        else if si_username info \<noteq> '''' then ?s1\<lparr>m_shm := snd (push_request (disconnect_request sid info) (m_shm ?s1))\<rparr> else ?s1"
    have "keeps ?s1 ?s2"
      by (cases "si_type info = Conn_TCP"; cases "si_username info = ''''") (simp_all add: keeps_disconnect_tcp keeps_pushed)
    then have "keeps s (?s2\<lparr>m_session_manager := remove_session sid (m_session_manager ?s2)\<rparr>)"
      using keeps_trans [OF 1] keeps_trans [OF _ keeps_session_ops(1)] by blast
    then show ?thesis using Some by (simp add: handle_keepalive_timeout_def Let_def)
  qed
qed

lemma keeps_ack_timeout: "keeps s (handle_ack_timeout clk outs sid key payload r m s)"
proof (cases "has_session (m_session_manager s) sid")
  case False
  then show ?thesis by (simp add: handle_ack_timeout_def)
next
  case True
  then obtain info where info: "get_session_info (m_session_manager s) sid = Some info"
    by (auto simp: has_session_def get_session_info_def)
  let ?s1 = "s\<lparr>m_timer_manager := clear_session_timers clk sid (m_timer_manager s)\<rparr>"
  have 1: "keeps s ?s1" by (rule keeps_timer_ops(5))
  show ?thesis
  proof (cases "r \<ge> m - 1")
    case False
    show ?thesis using True False keeps_trans [OF keeps_send keeps_timer_ops(1)]
      by (simp add: handle_ack_timeout_def Let_def)
  next
    case last: True
    show ?thesis
    proof (cases "si_type info = Conn_TCP")
      case tcp: True
      let ?s2 = "disconnect_tcp info sid ?s1"
      have "keeps s (?s2\<lparr>m_session_manager := remove_session sid (m_session_manager ?s2)\<rparr>)"
        using keeps_trans [OF 1] keeps_trans [OF keeps_disconnect_tcp keeps_session_ops(1)] by blast
      then show ?thesis using True last tcp info by (simp add: handle_ack_timeout_def Let_def)
    next
      case udp: False
      let ?s2 = "if si_username info \<noteq> '''' then ?s1\<lparr>m_shm := snd (push_request (disconnect_request sid info) (m_shm ?s1))\<rparr> else ?s1"
      have "keeps ?s1 ?s2" by (cases "si_username info = ''''") (simp_all add: keeps_pushed)
      then have "keeps s (?s2\<lparr>m_session_manager := blacklist_session sid (m_session_manager ?s2)\<rparr>)"
        using keeps_trans [OF 1] keeps_trans [OF _ keeps_session_ops(2)] by blast
      then show ?thesis using True last udp info by (simp add: handle_ack_timeout_def Let_def)
    qed
  qed
qed

lemma keeps_callback: "keeps s (run_callback clk outs cb s)"
  by (cases cb) (simp_all add: keeps_ack_timeout keeps_keepalive_timeout)

lemma keeps_callbacks: "keeps s (run_callbacks clk outs i cbs s)"
  by (induction cbs arbitrary: i s) (auto intro: keeps_trans [OF keeps_callback])

lemma keeps_on_timer: "keeps s (on_timer clk outs s)"
proof -
  obtain cbs tm where e: "on_timerfd_ready (clk 0) (m_timer_manager s) = (cbs, tm)" by fastforce
  have "keeps s (s\<lparr>m_timer_manager := tm\<rparr>)" using keeps_timer_ops(6) [of s "clk 0"] by (simp add: e)
  then show ?thesis unfolding on_timer_def e by (auto intro: keeps_trans keeps_callbacks)
qed

lemma keeps_start_resp: "keeps s (start_resp_timer clk sid r s)"
  unfolding start_resp_timer_def by (rule keeps_timer_ops(1))

lemma keeps_batch: "keeps s (send_batch clk outs i r sids s)"
proof (induction sids arbitrary: i s)
  case (Cons sid sids)
  show ?case
    using Cons.IH keeps_trans [OF keeps_send Cons.IH] keeps_trans [OF keeps_trans [OF keeps_send keeps_start_resp] Cons.IH]
    by (simp add: Let_def)
qed simp

lemma keeps_command: "keeps s (dispatch_command clk outs cmd r s)"
proof (cases cmd)
  case SEND
  then show ?thesis
    using keeps_send keeps_trans [OF keeps_send keeps_start_resp] by (simp add: Let_def)
next
  case BROADCAST
  have "keeps t (send_batch clk outs 0 r b t\<lparr>sv_posted := p\<rparr>)" for t b p
    by (rule keeps_trans [OF keeps_batch keeps_same]) simp_all
  then show ?thesis using BROADCAST by (simp add: Let_def split: list.splits)
next
  case MQTT_PUBLISH_ROUTE
  then show ?thesis by (auto intro: keeps_same)
qed (simp_all add: keeps_start_resp keeps_timer_ops keeps_session_ops keeps_keepalive_timeout)

lemma keeps_dispatch: "keeps s (dispatch_response clk outs r s)"
  by (simp add: dispatch_response_def keeps_command)

lemma keeps_flush: "keeps s (flush_frame k s)"
  by (auto simp: flush_frame_def intro: keeps_pushed split: option.splits)

lemma keeps_add: "keeps s (add_input k bs s)"
  by (rule keeps_same) (simp_all add: add_input_def split: option.splits)

lemma keeps_readable: "keeps s (tcp_on_readable rs k s)"
  by (induction rs k s rule: tcp_on_readable.induct)
     (auto simp: Let_def intro: keeps_flush keeps_trans [OF keeps_flush keeps_drop] keeps_trans [OF keeps_trans [OF keeps_flush keeps_add]])

lemma keeps_tcp_event: "keeps s (tcp_event h rd wr ins outs k s)"
proof -
  let ?s1 = "if rd then tcp_on_readable ins k s else s"
  have 1: "keeps s ?s1" by (simp add: keeps_readable)
  have "keeps ?s1 (if wr then (case alookup (m_tcp_sessions ?s1) k of None \<Rightarrow> ?s1
      | Some c \<Rightarrow> ?s1\<lparr>m_tcp_sessions := AList.update k (on_writable outs c) (m_tcp_sessions ?s1)\<rparr>) else ?s1)"
    by (auto intro: keeps_same split: option.splits)
  with keeps_trans [OF 1] keeps_drop show ?thesis by (simp add: tcp_event_def Let_def)
qed

lemma keeps_datagram: "keeps s (udp_on_datagram ntp ep bytes s)"
proof -
  obtain sid sm where e: "get_or_create_udp_session ntp ep (m_session_manager s) = (sid, sm)" by fastforce
  have "keeps s (s\<lparr>m_session_manager := sm, m_shm := snd (push_request r (m_shm s))\<rparr>)" for r
    by (rule keeps_trans [OF keeps_session_ops(4) [OF e]]) (auto intro: keeps_pushed)
  then show ?thesis by (simp add: udp_on_datagram_def Let_def e)
qed

lemma keeps_posted: "keeps s (run_posted clk outs s)"
proof (cases "sv_posted s")
  case Nil
  then show ?thesis by (simp add: run_posted_def)
next
  case (Cons p ps)
  have "keeps s (s\<lparr>sv_posted := ps\<rparr>)" by (rule keeps_same) simp_all
  then show ?thesis using Cons keeps_trans [OF _ keeps_batch] by (cases p) (simp add: run_posted_def)
qed

section \<open>Draining the response ring\<close>

lemma pop_measure:
  assumes "pop_response q = (Some r, q')"
  shows "unat (resp_head q' - resp_tail q') < unat (resp_head q - resp_tail q)"
proof -
  have lt: "resp_tail q < resp_head q" and q': "resp_head q' = resp_head q" "resp_tail q' = resp_tail q + 1"
    using assms by (auto simp: pop_response_def Let_def not_le split: if_splits)
  then have "resp_head q - resp_tail q \<noteq> 0" by auto
  then obtain n where n: "unat (resp_head q - resp_tail q) = Suc n" by (metis unat_eq_zero not0_implies_Suc)
  then show ?thesis using unat_diff_pred [OF n] q' by simp
qed

text \<open>The loop of \<open>on_response_ready\<close>; the \<open>i\<close>-th response is dispatched with the clock \<open>clk i\<close> and the results \<open>outs i\<close>.\<close>

function on_response_ready ::
  "(nat \<Rightarrow> nat \<Rightarrow> clock_reads) \<Rightarrow> (nat \<Rightarrow> nat \<Rightarrow> send_result list) \<Rightarrow> nat \<Rightarrow> server \<Rightarrow> server" where
  "on_response_ready clk outs i s =
     (case pop_response (m_shm s) of
        (None, q) \<Rightarrow> s\<lparr>m_shm := q\<rparr>
      | (Some r, q) \<Rightarrow> on_response_ready clk outs (Suc i) (dispatch_response (clk i) (outs i) r (s\<lparr>m_shm := q\<rparr>)))"
  by auto
termination
proof (relation "measure (\<lambda>(clk, outs, i, s). unat (resp_head (m_shm s) - resp_tail (m_shm s)))", goal_cases)
  case (2 clk outs i s o' q r)
  then have "pop_response (m_shm s) = (Some r, q)" by simp
  from pop_measure [OF this] keeps_dispatch [of "s\<lparr>m_shm := q\<rparr>" "clk i" "outs i" r]
  show ?case by (simp add: keeps_def)
qed simp

declare on_response_ready.simps [simp del]

lemma keeps_popped: "pop_response q = (x, q') \<Longrightarrow> m_shm s = q \<Longrightarrow>
   sess_inv (m_session_manager (s\<lparr>m_shm := q'\<rparr>)) = sess_inv (m_session_manager s) \<and> resp_head q' = resp_head q"
  by (auto simp: pop_response_def Let_def split: if_splits)

lemma drain_keeps:
  "(sess_inv (m_session_manager s) \<longrightarrow> sess_inv (m_session_manager (on_response_ready clk outs i s)))
   \<and> (timer_inv (m_timer_manager s) \<longrightarrow> timer_inv (m_timer_manager (on_response_ready clk outs i s)))
   \<and> m_session_counter (m_session_manager (on_response_ready clk outs i s)) = m_session_counter (m_session_manager s)
   \<and> fst (pop_response (m_shm (on_response_ready clk outs i s))) = None"
proof (induction clk outs i s rule: on_response_ready.induct)
  case (1 clk outs i s)
  obtain x q where p: "pop_response (m_shm s) = (x, q)" by fastforce
  show ?case
  proof (cases x)
    case None
    then have "q = m_shm s" "fst (pop_response q) = None" using p by (auto simp: pop_response_def Let_def split: if_splits)
    then show ?thesis using None p by (subst (1 2 3 4) on_response_ready.simps) simp
  next
    case (Some r)
    have e: "on_response_ready clk outs i s = on_response_ready clk outs (Suc i) (dispatch_response (clk i) (outs i) r (s\<lparr>m_shm := q\<rparr>))"
      using p Some by (subst on_response_ready.simps) simp
    from 1 [OF p [symmetric] Some] keeps_dispatch [of "s\<lparr>m_shm := q\<rparr>" "clk i" "outs i" r]
    show ?thesis unfolding e by (simp add: keeps_def)
  qed
qed

section \<open>Reactor runs\<close>

datatype reactor_event =
    Ev_accept int
  | Ev_tcp bool bool bool "recv_result list" "send_result list" nat
  | Ev_datagram posix_address string
  | Ev_responses "nat \<Rightarrow> nat \<Rightarrow> clock_reads" "nat \<Rightarrow> nat \<Rightarrow> send_result list"
  | Ev_timer "nat \<Rightarrow> clock_reads" "nat \<Rightarrow> send_result list"
  | Ev_posted "nat \<Rightarrow> clock_reads" "nat \<Rightarrow> send_result list"

fun reactor_step :: "ntop \<Rightarrow> reactor_event \<Rightarrow> server \<Rightarrow> server" where
  "reactor_step ntp (Ev_accept fd) s = on_accept fd s"
| "reactor_step ntp (Ev_tcp h rd wr ins outs k) s = tcp_event h rd wr ins outs k s"
| "reactor_step ntp (Ev_datagram ep bytes) s = udp_on_datagram ntp ep bytes s"
| "reactor_step ntp (Ev_responses clk outs) s = on_response_ready clk outs 0 s"
| "reactor_step ntp (Ev_timer clk outs) s = on_timer clk outs s"
| "reactor_step ntp (Ev_posted clk outs) s = run_posted clk outs s"

definition reactor_run :: "ntop \<Rightarrow> reactor_event list \<Rightarrow> server \<Rightarrow> server" where
  "reactor_run ntp evs s = foldl (\<lambda>s e. reactor_step ntp e s) s evs"

definition server_inv :: "server \<Rightarrow> bool" where
  "server_inv s \<longleftrightarrow> sess_inv (m_session_manager s) \<and> timer_inv (m_timer_manager s)"

lemma accept_inv:
  assumes "server_inv s" "unat (m_session_counter (m_session_manager s)) < 2 ^ 64 - 1"
  shows "server_inv (on_accept fd s)"
    "unat (m_session_counter (m_session_manager (on_accept fd s))) \<le> Suc (unat (m_session_counter (m_session_manager s)))"
proof -
  obtain sid sm where e: "create_session (m_session_manager s) = (sid, sm)" by fastforce
  have "sess_inv sm" using sess_inv_create [of "m_session_manager s"] assms by (simp add: e server_inv_def)
  then show "server_inv (on_accept fd s)"
    using assms(1) by (simp add: on_accept_def e server_inv_def Let_def sess_inv_set_tcp)
  have "m_session_counter (set_tcp_session sid k sm) = m_session_counter sm" for k
    by (simp add: set_tcp_session_def split: option.splits)
  then show "unat (m_session_counter (m_session_manager (on_accept fd s))) \<le> Suc (unat (m_session_counter (m_session_manager s)))"
    using session_counter_step [of "\<lambda>_ _. ''''" Op_create "m_session_manager s"] by (simp add: on_accept_def e Let_def)
qed

lemma reactor_step_inv:
  assumes "server_inv s" "unat (m_session_counter (m_session_manager s)) < 2 ^ 64 - 1"
  shows "server_inv (reactor_step ntp e s)
    \<and> unat (m_session_counter (m_session_manager (reactor_step ntp e s))) \<le> Suc (unat (m_session_counter (m_session_manager s)))"
proof -
  have k: "server_inv s' \<and> unat (m_session_counter (m_session_manager s')) \<le> Suc (unat (m_session_counter (m_session_manager s)))"
    if "keeps s s'" for s'
    using that assms(1) by (simp add: keeps_def server_inv_def)
  show ?thesis
  proof (cases e)
    case (Ev_accept fd)
    then show ?thesis using accept_inv [OF assms] by simp
  next
    case (Ev_responses clk outs)
    then show ?thesis using drain_keeps [of s clk outs 0] assms(1) by (simp add: server_inv_def)
  qed (simp_all add: k keeps_tcp_event keeps_datagram keeps_on_timer keeps_posted)
qed


text \<open>Handling the workers' notification always ends, and leaves the response ring empty.\<close>

theorem response_ring_drained: "fst (pop_response (m_shm (on_response_ready clk outs 0 s))) = None"
  using drain_keeps by blast

section \<open>Example runs\<close>

definition new_server :: server where
  "new_server = \<lparr>m_session_manager = new_session_manager, m_timer_manager = new_timer_manager, m_shm = create_queue,
     m_tcp_sessions = [], sv_next = 0, sv_datagrams = [], sv_posted = [], sv_routes = [], m_ack_timeout = 5, m_mqtt = True\<rparr>"

lemma new_server_inv: "server_inv new_server"
  by (simp add: server_inv_def new_server_def sess_inv_new timer_inv_new)


definition demo_server :: server where
  "demo_server = on_accept 7 new_server"

lemma demo_server_conn: "alookup (m_tcp_sessions demo_server) 0 = Some (new_conn 7 (fst (create_session new_session_manager)))"
  by (simp add: demo_server_def on_accept_def new_server_def Let_def split: prod.splits)

theorem tcp_input_framing_witness:
  "\<exists>c. tcp_on_readable [Received (replicate 1000 (CHR ''a'')), Received (replicate 24 (CHR ''a''))] 0 demo_server =
     demo_server\<lparr>m_shm := snd (push_request (message_request TCP (m_session_manager demo_server) (m_session_id c)
         (replicate 1023 (CHR ''a'')) (of_nat BUFFER_SIZE)) (m_shm demo_server)),
       m_tcp_sessions := AList.update 0 (c\<lparr>m_read_buf := []\<rparr>) (m_tcp_sessions demo_server)\<rparr>"
proof -
  let ?c = "new_conn 7 (fst (create_session new_session_manager))"
  let ?cs = "[replicate 1000 (CHR ''a''), replicate 24 (CHR ''a'')]"
  have b: "m_read_buf ?c = []" by (simp add: new_conn_def)
  have cs: "concat ?cs = replicate BUFFER_SIZE (CHR ''a'')" by (simp add: BUFFER_SIZE_def replicate_add [symmetric])
  have f: "frames_of (concat ?cs) = [replicate BUFFER_SIZE (CHR ''a'')]" "rest_of (concat ?cs) = []"
    unfolding cs using frames_append [of "replicate BUFFER_SIZE (CHR ''a'')" "[]"] frames_short [of "[]"]
    by (simp_all add: BUFFER_SIZE_def)
  have s: "c_str (replicate (BUFFER_SIZE - Suc 0) (CHR ''a'')) = replicate 1023 (CHR ''a'')"
    by (simp add: BUFFER_SIZE_def c_str_id)
  have "chunks_ok (length (m_read_buf ?c)) ?cs" by (simp add: b BUFFER_SIZE_def)
  from tcp_input_framing [OF demo_server_conn _ this] show ?thesis
    by (intro exI [of _ ?c]) (simp add: b f s del: concat.simps)
qed

theorem ack_timeout_discipline_witness:
  "\<exists>d. pending (m_timer_manager (handle_ack_timeout (\<lambda>_. 0) [] ''tcp_session_1'' ''ts'' ''m'' 0 3 demo_server)) (ack_key ''tcp_session_1'' ''ts'')
     = Some (d, Ack_timeout ''tcp_session_1'' ''ts'' ''m'' 1 3)"
proof -
  have t: "timer_inv (m_timer_manager demo_server)"
    by (simp add: demo_server_def on_accept_def new_server_def Let_def timer_inv_new split: prod.splits)
  have "get_session_info (m_session_manager demo_server) ''tcp_session_1'' \<noteq> None" by code_simp
  then obtain info where "get_session_info (m_session_manager demo_server) ''tcp_session_1'' = Some info" by auto
  with ack_timeout_discipline [OF t refl, of "\<lambda>_. 0" "[]" "''tcp_session_1''" "''ts''" "''m''" 0 3] show ?thesis by simp
qed

end
