(* ===== verification/Graph_Builder.thy ===== *)
theory Graph_Builder
  imports Complex_Main Prelude
begin

text \<open>
  Map nodes and the adjacency matrix built from them (\<^verbatim>\<open>include/server/api_parser.hpp\<close>,
  \<^verbatim>\<open>include/server/graph_builder.hpp\<close>, \<^verbatim>\<open>src/server/graph_builder.cpp\<close>). A double is an element of any
  linearly ordered field; rounding is not modelled.
\<close>

section \<open>Map data\<close>

record 'd MapNodeLocation =
  latitude :: 'd
  longitude :: 'd

record 'd MapEdge =
  me_to :: string
  connection_type :: string
  base_weight :: 'd
  connection_conditions :: "string list"

record 'd MapNode =
  node_id :: string
  node_name :: string
  node_type :: string
  node_description :: string
  location :: "'d MapNodeLocation"
  node_tags :: "string list"
  is_secure :: bool
  is_active :: bool
  connections :: "'d MapEdge list"

section \<open>Costs\<close>

definition MOD_DEFAULT :: "'d::linordered_field" where "MOD_DEFAULT = 1"
definition CONDITION_BASE :: "'d::linordered_field" where "CONDITION_BASE = 1"
definition BLOCKED_COST :: "'d::linordered_field" where "BLOCKED_COST = 0"
definition NO_CONNECTION :: "'d::linordered_field" where "NO_CONNECTION = 0"

definition type_modifiers :: "(string, 'd::linordered_field) amap" where
  "type_modifiers = [(''road'', 1), (''rail'', 7 / 10), (''trail'', 13 / 10), (''tunnel'', 11 / 10), (''bridge'', 14 / 10),
     (''waterway'', 9 / 10), (''drone'', 12 / 10), (''manual'', 16 / 10)]"

definition condition_modifiers :: "(string, 'd::linordered_field) amap" where
  "condition_modifiers = [(''infected_activity'', 3 / 10), (''weather_rain'', 2 / 10), (''foggy_visibility'', 1 / 10),
     (''cleared'', - 2 / 10), (''reinforced'', - 3 / 10)]"

definition sum_conditions :: "string list \<Rightarrow> 'd::linordered_field" where
  "sum_conditions cs = fold (\<lambda>c a. case alookup condition_modifiers c of None \<Rightarrow> a | Some m \<Rightarrow> a + m) cs 0"

definition calculate_edge_cost :: "'d::linordered_field MapEdge \<Rightarrow> 'd" where
  "calculate_edge_cost edge =
     (if connection_type edge = ''blocked'' then BLOCKED_COST
      else let type_mod = (case alookup type_modifiers (connection_type edge) of None \<Rightarrow> MOD_DEFAULT | Some m \<Rightarrow> m)
           in base_weight edge * type_mod * (CONDITION_BASE + sum_conditions (connection_conditions edge)))"

section \<open>The matrix\<close>

record 'd GraphData =
  node_to_index :: "(string, nat) amap"
  index_to_node_id :: "string list"
  node_id_to_type :: "(string, string) amap"
  adj_matrix :: "'d list list"

definition number_nodes :: "'d MapNode list \<Rightarrow> (string, nat) amap" where
  "number_nodes nodes = fold (\<lambda>(index, node) m. AList.update (node_id node) index m) (zip [0..<length nodes] nodes) []"

definition node_types :: "'d MapNode list \<Rightarrow> (string, string) amap" where
  "node_types nodes = fold (\<lambda>node m. AList.update (node_id node) (node_type node) m) nodes []"

definition add_connection :: "(string, nat) amap \<Rightarrow> nat \<Rightarrow> 'd::linordered_field MapEdge \<Rightarrow> 'd list list \<Rightarrow> 'd list list" where
  "add_connection index source_idx conn m =
     (case alookup index (me_to conn) of
        None \<Rightarrow> m
      | Some target \<Rightarrow>
          (let cost = calculate_edge_cost conn
           in if cost > NO_CONNECTION then m[source_idx := (m ! source_idx)[target := cost]] else m))"

definition add_node :: "(string, nat) amap \<Rightarrow> 'd::linordered_field MapNode \<Rightarrow> 'd list list \<Rightarrow> 'd list list" where
  "add_node index node m =
     (case alookup index (node_id node) of
        None \<Rightarrow> m
      | Some source_idx \<Rightarrow> fold (add_connection index source_idx) (connections node) m)"

definition build_adjacency_matrix :: "'d::linordered_field MapNode list \<Rightarrow> 'd GraphData" where
  "build_adjacency_matrix nodes =
     (let n = length nodes; index = number_nodes nodes
      in \<lparr>node_to_index = index, index_to_node_id = map node_id nodes, node_id_to_type = node_types nodes,
          adj_matrix = fold (add_node index) nodes (replicate n (replicate n NO_CONNECTION))\<rparr>)"

section \<open>Node numbers\<close>

lemma number_nodes_lookup:
  "alookup (number_nodes nodes) k = Some i \<Longrightarrow> i < length nodes \<and> node_id (nodes ! i) = k"
proof -
  have "alookup (fold (\<lambda>(index, node) m. AList.update (node_id node) index m) xs m) k = Some i \<Longrightarrow>
     alookup m k = Some i \<or> (\<exists>node. (i, node) \<in> set xs \<and> node_id node = k)" for xs :: "(nat \<times> 'a MapNode) list" and m
  proof (induction xs arbitrary: m)
    case (Cons x xs)
    obtain j node where x: "x = (j, node)" by fastforce
    from Cons.prems Cons.IH [of "AList.update (node_id node) j m"] show ?case
      unfolding x by (auto split: if_splits)
  qed simp
  from this [of "zip [0..<length nodes] nodes" "[]"] show "alookup (number_nodes nodes) k = Some i \<Longrightarrow> ?thesis"
    unfolding number_nodes_def by (auto simp: set_zip)
qed

lemma number_nodes_known: "node \<in> set nodes \<Longrightarrow> \<exists>i. alookup (number_nodes nodes) (node_id node) = Some i"
proof -
  have keep: "alookup m k \<noteq> None \<Longrightarrow> alookup (fold (\<lambda>(index, node) m. AList.update (node_id node) index m) xs m) k \<noteq> None"
    for xs :: "(nat \<times> 'a MapNode) list" and m k
    by (induction xs arbitrary: m) (auto split: prod.splits)
  have "(i, node) \<in> set xs \<Longrightarrow> alookup (fold (\<lambda>(index, node) m. AList.update (node_id node) index m) xs m) (node_id node) \<noteq> None"
    for xs and m and i :: nat and node :: "'a MapNode"
  proof (induction xs arbitrary: m)
    case (Cons x xs)
    show ?case
    proof (cases "x = (i, node)")
      case True
      then show ?thesis using keep [of "AList.update (node_id node) i m" "node_id node" xs] by simp
    next
      case False
      then show ?thesis using Cons by (cases x) auto
    qed
  qed simp
  moreover assume "node \<in> set nodes"
  then obtain i where "i < length nodes" "nodes ! i = node" by (auto simp: in_set_conv_nth)
  then have "(i, node) \<in> set (zip [0..<length nodes] nodes)" by (auto simp: set_zip intro!: exI [of _ i])
  ultimately show ?thesis unfolding number_nodes_def by blast
qed

lemma number_nodes_distinct:
  assumes "distinct (map node_id nodes)" "i < length nodes"
  shows "alookup (number_nodes nodes) (node_id (nodes ! i)) = Some i"
proof -
  obtain j where j: "alookup (number_nodes nodes) (node_id (nodes ! i)) = Some j"
    using number_nodes_known [of "nodes ! i" nodes] assms(2) by auto
  from number_nodes_lookup [OF this] have "j < length nodes" "map node_id nodes ! j = map node_id nodes ! i" using assms(2) by auto
  then have "j = i" using nth_eq_iff_index_eq [OF assms(1), of j i] assms(2) by simp
  then show ?thesis using j by simp
qed

section \<open>Entries\<close>

definition weights_ok :: "nat \<Rightarrow> 'd::linordered_field list list \<Rightarrow> bool" where
  "weights_ok n m \<longleftrightarrow> length m = n \<and> square m \<and> (\<forall>u<n. \<forall>v<n. 0 \<le> m ! u ! v)"

lemma weights_ok_update:
  assumes "weights_ok n m" "u < n" "0 \<le> x"
  shows "weights_ok n (m[u := (m ! u)[v := x]])"
proof -
  have "square (m[u := (m ! u)[v := x]])"
    using assms(1,2) by (auto simp: weights_ok_def square_def dest: subsetD [OF set_update_subset_insert])
  moreover have "0 \<le> m[u := (m ! u)[v := x]] ! a ! b" if "a < n" "b < n" for a b
    using assms that by (cases "a = u"; cases "b = v") (auto simp: weights_ok_def)
  ultimately show ?thesis using assms(1) by (simp add: weights_ok_def)
qed

lemma weights_ok_connection:
  assumes "weights_ok (length nodes) m" "u < length nodes"
  shows "weights_ok (length nodes) (add_connection (number_nodes nodes) u conn m)"
  using assms weights_ok_update [OF assms] by (auto simp: add_connection_def Let_def NO_CONNECTION_def split: option.splits)

lemma weights_ok_node:
  assumes "weights_ok (length nodes) m"
  shows "weights_ok (length nodes) (add_node (number_nodes nodes) node m)"
proof (cases "alookup (number_nodes nodes) (node_id node)")
  case (Some u)
  then have u: "u < length nodes" using number_nodes_lookup by blast
  have "weights_ok (length nodes) (fold (add_connection (number_nodes nodes) u) cs m)" for cs
    using assms by (induction cs arbitrary: m) (simp_all add: weights_ok_connection u)
  then show ?thesis using Some by (simp add: add_node_def)
qed (simp add: add_node_def assms)

lemma weights_ok_nodes:
  fixes nodes :: "'d::linordered_field MapNode list"
  shows "weights_ok (length nodes) (fold (add_node (number_nodes nodes)) ns (replicate (length nodes) (replicate (length nodes) NO_CONNECTION)))"
proof (induction ns rule: rev_induct)
  case Nil
  show ?case by (auto simp: weights_ok_def square_def NO_CONNECTION_def)
qed (simp add: weights_ok_node)

lemma weights_ok_build: "weights_ok (length nodes) (adj_matrix (build_adjacency_matrix nodes))"
  by (simp add: build_adjacency_matrix_def Let_def weights_ok_nodes)

definition open_edges :: "'d::linordered_field MapNode \<Rightarrow> string \<Rightarrow> 'd MapEdge list" where
  "open_edges node k = filter (\<lambda>e. me_to e = k \<and> calculate_edge_cost e > 0) (connections node)"

definition last_cost :: "'d \<Rightarrow> 'd::linordered_field MapEdge list \<Rightarrow> 'd" where
  "last_cost x es = (if es = [] then x else calculate_edge_cost (last es))"

lemma known_target:
  assumes "distinct (map node_id nodes)" "v < length nodes"
  shows "alookup (number_nodes nodes) k = Some v \<longleftrightarrow> k = node_id (nodes ! v)"
  using number_nodes_lookup [of nodes k v] number_nodes_distinct [OF assms] by auto

lemma add_connections_entry:
  fixes nodes :: "'d::linordered_field MapNode list"
  assumes ids: "distinct (map node_id nodes)" and m: "weights_ok (length nodes) m" and b: "w < length nodes" "u < length nodes" "v < length nodes"
  shows "fold (add_connection (number_nodes nodes) w) cs m ! u ! v =
    (if u = w then last_cost (m ! u ! v) (filter (\<lambda>e. me_to e = node_id (nodes ! v) \<and> calculate_edge_cost e > 0) cs) else m ! u ! v)"
proof (induction cs rule: rev_induct)
  case (snoc e cs)
  let ?m = "fold (add_connection (number_nodes nodes) w) cs m"
  have ok: "weights_ok (length nodes) ?m"
    using m by (induction cs rule: rev_induct) (simp_all add: weights_ok_connection b(1))
  then have len: "length ?m = length nodes" "length (?m ! w) = length nodes" using b(1) by (auto simp: weights_ok_def)
  have "add_connection (number_nodes nodes) w e ?m ! u ! v =
      (if u = w \<and> me_to e = node_id (nodes ! v) \<and> calculate_edge_cost e > 0 then calculate_edge_cost e else ?m ! u ! v)"
  proof (cases "alookup (number_nodes nodes) (me_to e)")
    case None
    then show ?thesis using known_target [OF ids b(3), of "me_to e"] by (simp add: add_connection_def)
  next
    case (Some t)
    have "t = v \<longleftrightarrow> me_to e = node_id (nodes ! v)" using known_target [OF ids b(3), of "me_to e"] Some by auto
    then show ?thesis using Some len b by (auto simp: add_connection_def Let_def NO_CONNECTION_def nth_list_update)
  qed
  then show ?case using snoc.IH by (cases "u = w") (auto simp: last_cost_def)
qed (simp add: last_cost_def)

lemma add_node_entry:
  fixes nodes :: "'d::linordered_field MapNode list"
  assumes "distinct (map node_id nodes)" "weights_ok (length nodes) m" "w < length nodes" "u < length nodes" "v < length nodes"
  shows "add_node (number_nodes nodes) (nodes ! w) m ! u ! v =
    (if u = w then last_cost (m ! u ! v) (open_edges (nodes ! w) (node_id (nodes ! v))) else m ! u ! v)"
  using add_connections_entry [OF assms, of "connections (nodes ! w)"] number_nodes_distinct [OF assms(1,3)]
  by (simp add: add_node_def open_edges_def)

text \<open>C27: With distinct node ids the matrix entry from one node to another is the cost of the last connection listed between
  them that is not blocked and has a positive cost, and zero if there is none.\<close>

theorem adjacency_entries_exact:
  assumes "distinct (map node_id nodes)" "u < length nodes" "v < length nodes"
  shows "adj_matrix (build_adjacency_matrix nodes) ! u ! v = last_cost 0 (open_edges (nodes ! u) (node_id (nodes ! v)))"
proof -
  let ?m = "replicate (length nodes) (replicate (length nodes) NO_CONNECTION)"
  let ?step = "\<lambda>k. fold (add_node (number_nodes nodes)) (take k nodes) ?m"
  have ok: "weights_ok (length nodes) (?step k)" for k by (rule weights_ok_nodes)
  have "k \<le> length nodes \<Longrightarrow> ?step k ! u ! v = (if u < k then last_cost 0 (open_edges (nodes ! u) (node_id (nodes ! v))) else 0)" for k
  proof (induction k)
    case 0
    then show ?case using assms by (simp add: NO_CONNECTION_def)
  next
    case (Suc k)
    then have "?step (Suc k) = add_node (number_nodes nodes) (nodes ! k) (?step k)" by (simp add: take_Suc_conv_app_nth)
    then show ?case using Suc add_node_entry [OF assms(1) ok, of k u v] assms(2,3) by (auto simp: less_Suc_eq)
  qed
  from this [of "length nodes"] show ?thesis using assms(2) by (simp add: build_adjacency_matrix_def Let_def)
qed

definition demo_edge :: "string \<Rightarrow> rat \<Rightarrow> rat MapEdge" where
  "demo_edge k w = \<lparr>me_to = k, connection_type = ''rail'', base_weight = w, connection_conditions = [''cleared'']\<rparr>"

definition demo_node :: "string \<Rightarrow> rat MapEdge list \<Rightarrow> rat MapNode" where
  "demo_node k es = \<lparr>node_id = k, node_name = k, node_type = ''fulfillment_center'', node_description = '''',
     location = \<lparr>latitude = 0, longitude = 0\<rparr>, node_tags = [], is_secure = True, is_active = True, connections = es\<rparr>"

definition demo_map :: "rat MapNode list" where
  "demo_map = [demo_node ''a'' [demo_edge ''b'' 10, demo_edge ''b'' 5, demo_edge ''z'' 1], demo_node ''b'' [demo_edge ''a'' 2]]"

theorem adjacency_entries_exact_witness:
  "adj_matrix (build_adjacency_matrix demo_map) ! 0 ! 1 = 14 / 5"
proof -
  have "last_cost 0 (open_edges (demo_map ! 0) (node_id (demo_map ! 1))) = (14 / 5 :: rat)" by code_simp
  then show ?thesis using adjacency_entries_exact [of demo_map 0 1] by (simp add: demo_map_def demo_node_def)
qed

end
