(* ===== verification/Circuit_Solver.thy ===== *)
theory Circuit_Solver
  imports Prelude "HOL-Library.List_Lexorder"
begin

text \<open>
  The search for Hamiltonian circuits by powers of the matrix of symbolic paths
  (\<^verbatim>\<open>include/server/circuit_solver.hpp\<close>, \<^verbatim>\<open>src/server/circuit_solver.cpp\<close>). Entries of the adjacency matrix
  are only compared with zero, so they are taken from any linear order with a zero. The measured
  duration is an argument. An exception is a value of \<open>solver_error\<close>.
\<close>

type_synonym SymPath = "int list"
type_synonym SymPaths = "SymPath list"
type_synonym SymMatrix = "SymPaths list list"

datatype solver_error = Invalid_argument string

record 't CircuitResult =
  has_circuit :: bool
  circuits :: SymPaths
  cr_execution_time_ms :: 't

section \<open>Paths\<close>

definition validate_square_numeric_matrix :: "'a list list \<Rightarrow> solver_error + unit" where
  "validate_square_numeric_matrix matrix =
     (if list_all (\<lambda>row. length row = length matrix) matrix then Inr ()
      else Inl (Invalid_argument ''Adjacency matrix must be square''))"

definition validate_square_symbolic_matrix :: "SymMatrix \<Rightarrow> solver_error + unit" where
  "validate_square_symbolic_matrix matrix =
     (if list_all (\<lambda>row. length row = length matrix) matrix then Inr ()
      else Inl (Invalid_argument ''Symbolic matrix must be square''))"

fun repeated_from :: "int set \<Rightarrow> SymPath \<Rightarrow> bool" where
  "repeated_from seen [] = False"
| "repeated_from seen (node # path) = (if node \<in> seen then True else repeated_from (insert node seen) path)"

definition path_has_repeated_nodes :: "SymPath \<Rightarrow> bool" where
  "path_has_repeated_nodes path = repeated_from {} path"

fun path_key :: "SymPath \<Rightarrow> string" where
  "path_key [] = ''''"
| "path_key [x] = show_int x"
| "path_key (x # y # path) = show_int x @ '','' @ path_key (y # path)"

fun dedup_from :: "string set \<Rightarrow> SymPaths \<Rightarrow> SymPaths" where
  "dedup_from seen [] = []"
| "dedup_from seen (path # paths) =
     (if path_key path \<in> seen then dedup_from seen paths
      else path # dedup_from (insert (path_key path) seen) paths)"

definition deduplicate_paths :: "SymPaths \<Rightarrow> SymPaths" where
  "deduplicate_paths paths = dedup_from {} paths"

definition rotation :: "SymPath \<Rightarrow> nat \<Rightarrow> SymPath" where
  "rotation open_circuit offset =
     map (\<lambda>index. open_circuit ! ((offset + index) mod length open_circuit)) [0..<length open_circuit]"

definition canonicalize_circuit :: "SymPath \<Rightarrow> SymPath" where
  "canonicalize_circuit circuit =
     (if circuit = [] then circuit
      else let open_circuit = (if length circuit > 1 \<and> hd circuit = last circuit then butlast circuit else circuit)
           in if open_circuit = [] then circuit
              else let best_rotation = fold (\<lambda>offset best. let candidate = rotation open_circuit offset
                                                          in if candidate < best then candidate else best)
                         [1..<length open_circuit] open_circuit
                   in best_rotation @ [hd best_rotation])"

section \<open>Symbolic matrices\<close>

definition build_symbolic_matrix :: "'a::{zero,linorder} list list \<Rightarrow> solver_error + SymMatrix" where
  "build_symbolic_matrix adj_matrix =
     (case validate_square_numeric_matrix adj_matrix of
        Inl e \<Rightarrow> Inl e
      | Inr _ \<Rightarrow>
          (let sz = length adj_matrix
           in Inr (map (\<lambda>row. map (\<lambda>column.
                     if row \<noteq> column \<and> adj_matrix ! row ! column > 0 then [[int row, int column]] else []) [0..<sz]) [0..<sz])))"

definition combine_paths :: "SymPaths \<Rightarrow> SymPaths \<Rightarrow> SymPaths" where
  "combine_paths left_paths right_paths =
     concat (map (\<lambda>left_path. concat (map (\<lambda>right_path.
       if left_path = [] \<or> right_path = [] \<or> last left_path \<noteq> hd right_path then []
       else let combined = left_path @ tl right_path
            in if path_has_repeated_nodes combined then [] else [combined]) right_paths)) left_paths)"

definition cell_paths :: "SymMatrix \<Rightarrow> SymMatrix \<Rightarrow> nat \<Rightarrow> nat \<Rightarrow> SymPaths" where
  "cell_paths left right row column =
     deduplicate_paths (concat (map (\<lambda>i.
       if left ! row ! i = [] \<or> right ! i ! column = [] then []
       else combine_paths (left ! row ! i) (right ! i ! column)) [0..<length left]))"

definition symbolic_matrix_multiply :: "SymMatrix \<Rightarrow> SymMatrix \<Rightarrow> solver_error + SymMatrix" where
  "symbolic_matrix_multiply left right =
     (case validate_square_symbolic_matrix left of
        Inl e \<Rightarrow> Inl e
      | Inr _ \<Rightarrow>
          (case validate_square_symbolic_matrix right of
             Inl e \<Rightarrow> Inl e
           | Inr _ \<Rightarrow>
               if length left \<noteq> length right then Inl (Invalid_argument ''Symbolic matrices must have the same dimensions'')
               else Inr (map (\<lambda>row. map (cell_paths left right row) [0..<length left]) [0..<length left])))"

definition remove_repeated_node_paths :: "SymMatrix \<Rightarrow> solver_error + SymMatrix" where
  "remove_repeated_node_paths matrix =
     (case validate_square_symbolic_matrix matrix of
        Inl e \<Rightarrow> Inl e
      | Inr _ \<Rightarrow> Inr (map (map (\<lambda>cell. deduplicate_paths (filter (\<lambda>path. \<not> path_has_repeated_nodes path) cell))) matrix))"

section \<open>The search\<close>

fun multiply_times :: "nat \<Rightarrow> SymMatrix \<Rightarrow> SymMatrix \<Rightarrow> solver_error + SymMatrix" where
  "multiply_times 0 current base_matrix = Inr current"
| "multiply_times (Suc k) current base_matrix =
     (case symbolic_matrix_multiply current base_matrix of Inl e \<Rightarrow> Inl e | Inr m \<Rightarrow> multiply_times k m base_matrix)"

definition add_circuit :: "nat \<Rightarrow> int \<Rightarrow> nat \<Rightarrow> SymPath \<Rightarrow> string set \<times> SymPaths \<Rightarrow> string set \<times> SymPaths" where
  "add_circuit sz start_node start path = (\<lambda>(seen, cs).
     if length path \<noteq> sz then (seen, cs)
     else let circuit = path @ [int start];
              normalized = (if start_node \<ge> 0 then circuit else canonicalize_circuit circuit)
          in if path_key normalized \<in> seen then (seen, cs) else (insert (path_key normalized) seen, cs @ [circuit]))"

definition collect_circuits :: "'a::{zero,linorder} list list \<Rightarrow> int \<Rightarrow> SymMatrix \<Rightarrow> string set \<times> SymPaths" where
  "collect_circuits adj_matrix start_node current =
     fold (\<lambda>start acc.
       if start_node \<ge> 0 \<and> start \<noteq> nat start_node then acc
       else fold (\<lambda>end acc.
              if adj_matrix ! end ! start \<le> 0 then acc
              else fold (add_circuit (length adj_matrix) start_node start) (current ! start ! end) acc)
            [0..<length adj_matrix] acc)
       [0..<length adj_matrix] ({}, [])"

definition find_hamiltonian_circuits ::
  "'t::zero \<Rightarrow> 'a::{zero,linorder} list list \<Rightarrow> int \<Rightarrow> solver_error + 't CircuitResult" where
  "find_hamiltonian_circuits exec_time adj_matrix start_node =
     (case validate_square_numeric_matrix adj_matrix of
        Inl e \<Rightarrow> Inl e
      | Inr _ \<Rightarrow>
          (let sz = length adj_matrix
           in if sz < 2 then Inr \<lparr>has_circuit = False, circuits = [], cr_execution_time_ms = 0\<rparr>
              else if start_node < -1 \<or> start_node \<ge> int sz then Inl (Invalid_argument ''Start node index is out of range'')
              else case build_symbolic_matrix adj_matrix of
                     Inl e \<Rightarrow> Inl e
                   | Inr base_matrix \<Rightarrow>
                       (case multiply_times (sz - 2) base_matrix base_matrix of
                          Inl e \<Rightarrow> Inl e
                        | Inr current \<Rightarrow>
                            (let cs = snd (collect_circuits adj_matrix start_node current)
                             in Inr \<lparr>has_circuit = (cs \<noteq> []), circuits = cs, cr_execution_time_ms = exec_time\<rparr>))))"

section \<open>Keys\<close>

lemma repeated_from_iff: "repeated_from seen p \<longleftrightarrow> \<not> (distinct p \<and> set p \<inter> seen = {})"
  by (induction p arbitrary: seen) auto

lemma path_has_repeated_nodes_iff [simp]: "path_has_repeated_nodes p \<longleftrightarrow> \<not> distinct p"
  by (simp add: path_has_repeated_nodes_def repeated_from_iff)

lemma show_int_no_comma: "CHR '','' \<notin> set (show_int i)"
  by (auto simp: show_int_def dest!: show_nat_digits)

lemma show_int_not_Nil [simp]: "show_int i \<noteq> []"
  by (simp add: show_int_def)

lemma split_at_comma:
  assumes "CHR '','' \<notin> set a" "CHR '','' \<notin> set b" "a @ CHR '','' # s = b @ CHR '','' # t"
  shows "a = b \<and> s = t"
  using assms
proof (induction a arbitrary: b)
  case Nil
  then show ?case by (cases b) auto
next
  case (Cons x a)
  then show ?case by (cases b) auto
qed

lemma path_key_Nil_iff [simp]: "path_key p = [] \<longleftrightarrow> p = []"
proof (cases p)
  case (Cons x q)
  then show ?thesis by (cases q) simp_all
qed simp

lemma Nil_path_key_iff [simp]: "[] = path_key p \<longleftrightarrow> p = []"
  using path_key_Nil_iff [of p] by metis

lemma path_key_inject [simp]: "path_key p = path_key q \<longleftrightarrow> p = q"
proof (induction p arbitrary: q rule: path_key.induct)
  case 1
  show ?case by auto
next
  case (2 x)
  show ?case
  proof (cases q rule: path_key.cases)
    case (3 y z r)
    have "CHR '','' \<in> set (path_key q)" using 3 by simp
    moreover have "CHR '','' \<notin> set (path_key [x])" using show_int_no_comma [of x] by simp
    ultimately have "path_key [x] \<noteq> path_key q" by metis
    with 3 show ?thesis by auto
  qed auto
next
  case (3 x y p)
  show ?case
  proof (cases q rule: path_key.cases)
    case (2 z)
    have "CHR '','' \<in> set (path_key (x # y # p))" by simp
    moreover have "CHR '','' \<notin> set (path_key q)" using show_int_no_comma [of z] 2 by simp
    ultimately have "path_key (x # y # p) \<noteq> path_key q" by metis
    with 2 show ?thesis by auto
  next
    case (3 z w r)
    have "path_key (x # y # p) = path_key q \<longrightarrow> show_int x = show_int z \<and> path_key (y # p) = path_key (w # r)"
      using split_at_comma [OF show_int_no_comma [of x] show_int_no_comma [of z]] 3 by simp
    with "3.IH" [of "w # r"] show ?thesis unfolding 3 by (metis list.inject show_int_inject)
  qed simp
qed

lemma dedup_from_set: "set (dedup_from seen ps) = {p \<in> set ps. path_key p \<notin> seen}"
  by (induction ps arbitrary: seen) auto

lemma dedup_from_distinct: "distinct (dedup_from seen ps)"
  by (induction ps arbitrary: seen) (auto simp: dedup_from_set)

lemma set_deduplicate_paths [simp]: "set (deduplicate_paths ps) = set ps"
  by (simp add: deduplicate_paths_def dedup_from_set)

lemma distinct_deduplicate_paths [simp]: "distinct (deduplicate_paths ps)"
  by (simp add: deduplicate_paths_def dedup_from_distinct)

section \<open>Powers of the matrix are the simple paths\<close>

lemma validate_square [simp]:
  "validate_square_numeric_matrix m = Inr () \<longleftrightarrow> square m" "validate_square_symbolic_matrix s = Inr () \<longleftrightarrow> square s"
  by (auto simp: validate_square_numeric_matrix_def validate_square_symbolic_matrix_def square_def list_all_iff)

fun edges_ok :: "'a::{zero,linorder} list list \<Rightarrow> SymPath \<Rightarrow> bool" where
  "edges_ok adj (x # y # p) \<longleftrightarrow> adj ! nat x ! nat y > 0 \<and> edges_ok adj (y # p)"
| "edges_ok adj p \<longleftrightarrow> True"

lemma edges_ok_snoc: "q \<noteq> [] \<Longrightarrow> edges_ok adj (q @ [x]) \<longleftrightarrow> edges_ok adj q \<and> adj ! nat (last q) ! nat x > 0"
  by (induction adj q rule: edges_ok.induct) auto

definition node_set :: "'a list list \<Rightarrow> int set" where
  "node_set adj = int ` {0..<length adj}"

definition simple_paths :: "'a::{zero,linorder} list list \<Rightarrow> nat \<Rightarrow> nat \<Rightarrow> nat \<Rightarrow> SymPath set" where
  "simple_paths adj k i j =
     {p. length p = Suc k \<and> distinct p \<and> hd p = int i \<and> last p = int j \<and> set p \<subseteq> node_set adj \<and> edges_ok adj p}"

definition path_matrix :: "'a::{zero,linorder} list list \<Rightarrow> nat \<Rightarrow> SymMatrix \<Rightarrow> bool" where
  "path_matrix adj k m \<longleftrightarrow> square m \<and> length m = length adj \<and>
     (\<forall>i < length adj. \<forall>j < length adj. set (m ! i ! j) = simple_paths adj k i j \<and> distinct (m ! i ! j))"

lemma simple_paths_one:
  assumes "i < length adj" "j < length adj"
  shows "simple_paths adj 1 i j = (if i \<noteq> j \<and> adj ! i ! j > 0 then {[int i, int j]} else {})"
proof -
  have "p \<in> simple_paths adj 1 i j \<longleftrightarrow> p = [int i, int j] \<and> i \<noteq> j \<and> adj ! i ! j > 0" for p
    using assms by (auto simp: simple_paths_def node_set_def length_Suc_conv)
  then show ?thesis by auto
qed

lemma simple_paths_Suc:
  assumes "i < length adj" "j < length adj"
  shows "simple_paths adj (Suc k) i j =
    {q @ tl r |q r m. m < length adj \<and> q \<in> simple_paths adj k i m \<and> r \<in> simple_paths adj 1 m j \<and> distinct (q @ tl r)}"
    (is "?L = ?R")
proof
  show "?L \<subseteq> ?R"
  proof
    fix p assume p: "p \<in> ?L"
    define q where "q = butlast p"
    from p have n: "p \<noteq> []" "length q = Suc k" by (auto simp: simple_paths_def q_def)
    then have pq: "p = q @ [int j]" "q \<noteq> []" using p append_butlast_last_id [of p] by (auto simp: simple_paths_def q_def)
    from p pq have "last q \<in> node_set adj" using last_in_set [of q] by (auto simp: simple_paths_def)
    then obtain m where m: "last q = int m" "m < length adj" by (auto simp: node_set_def)
    have "q \<in> simple_paths adj k i m" using p n(2) pq m by (auto simp: simple_paths_def edges_ok_snoc)
    moreover have "m \<noteq> j" using p pq m(1) last_in_set [of q] by (auto simp: simple_paths_def)
    then have "[int m, int j] \<in> simple_paths adj 1 m j"
      using p pq m assms by (simp add: simple_paths_one [OF m(2) assms(2)]) (simp add: simple_paths_def edges_ok_snoc node_set_def)
    moreover have "distinct (q @ [int j])" using p pq(1) by (simp add: simple_paths_def)
    ultimately show "p \<in> ?R" using m(2) pq(1)
      by - (rule CollectI, rule exI [of _ q], rule exI [of _ "[int m, int j]"], rule exI [of _ m], simp)
  qed
  show "?R \<subseteq> ?L"
  proof
    fix p assume "p \<in> ?R"
    then obtain q r m where m: "m < length adj" "q \<in> simple_paths adj k i m" "r \<in> simple_paths adj 1 m j" "distinct (q @ tl r)"
      and p: "p = q @ tl r" by blast
    from m(3) [unfolded simple_paths_one [OF m(1) assms(2)]] have r: "r = [int m, int j]" "adj ! m ! j > 0"
      by (auto split: if_splits)
    have "q \<noteq> []" using m(2) by (auto simp: simple_paths_def)
    then show "p \<in> ?L" using m p r assms by (auto simp: simple_paths_def edges_ok_snoc node_set_def)
  qed
qed

lemma build_symbolic_matrix_paths:
  assumes "square adj"
  shows "\<exists>m. build_symbolic_matrix adj = Inr m \<and> path_matrix adj 1 m"
  using assms simple_paths_one [of _ adj]
  by (auto simp: build_symbolic_matrix_def validate_square_numeric_matrix_def square_def list_all_iff path_matrix_def Let_def)

lemma set_combine_paths:
  "set (combine_paths ls rs) = {l @ tl r |l r. l \<in> set ls \<and> r \<in> set rs \<and> l \<noteq> [] \<and> r \<noteq> [] \<and> last l = hd r \<and> distinct (l @ tl r)}"
  by (auto simp: combine_paths_def Let_def split: if_splits)

lemma combine_paths_Nil [simp]: "combine_paths [] rs = []" "combine_paths ls [] = []"
  by (simp_all add: combine_paths_def)

lemma set_cell_paths:
  assumes "path_matrix adj k left" "path_matrix adj 1 right" "i < length adj" "j < length adj"
  shows "set (cell_paths left right i j) = simple_paths adj (Suc k) i j"
proof -
  have n: "length left = length adj" using assms(1) by (simp add: path_matrix_def)
  have ends: "l \<noteq> [] \<and> r \<noteq> [] \<and> last l = hd r" if "l \<in> simple_paths adj k i m" "r \<in> simple_paths adj 1 m j" for l r m
    using that by (auto simp: simple_paths_def)
  have "set (cell_paths left right i j) = (\<Union>m<length adj. set (combine_paths (left ! i ! m) (right ! m ! j)))"
    by (force simp: cell_paths_def n)
  also have "\<dots> = (\<Union>m<length adj. {l @ tl r |l r. l \<in> simple_paths adj k i m \<and> r \<in> simple_paths adj 1 m j \<and> distinct (l @ tl r)})"
  proof (intro SUP_cong refl)
    fix m assume "m \<in> {..<length adj}"
    then have "set (left ! i ! m) = simple_paths adj k i m" "set (right ! m ! j) = simple_paths adj 1 m j"
      using assms by (auto simp: path_matrix_def)
    then show "set (combine_paths (left ! i ! m) (right ! m ! j)) =
        {l @ tl r |l r. l \<in> simple_paths adj k i m \<and> r \<in> simple_paths adj 1 m j \<and> distinct (l @ tl r)}"
      unfolding set_combine_paths using ends [of _ m] by blast
  qed
  also have "\<dots> = simple_paths adj (Suc k) i j"
    unfolding simple_paths_Suc [OF assms(3,4)] by blast
  finally show ?thesis .
qed

lemma multiply_paths:
  assumes "path_matrix adj k left" "path_matrix adj 1 right"
  shows "\<exists>m. symbolic_matrix_multiply left right = Inr m \<and> path_matrix adj (Suc k) m"
proof -
  have sq: "validate_square_symbolic_matrix left = Inr ()" "validate_square_symbolic_matrix right = Inr ()"
    "length left = length right" "length left = length adj"
    using assms by (auto simp: path_matrix_def)
  have "distinct (cell_paths left right i j)" for i j by (simp add: cell_paths_def)
  then have "path_matrix adj (Suc k) (map (\<lambda>row. map (cell_paths left right row) [0..<length left]) [0..<length left])"
    using sq(3,4) set_cell_paths [OF assms] by (simp add: path_matrix_def square_def)
  then show ?thesis using sq(3) by (simp add: symbolic_matrix_multiply_def sq(1,2) del: validate_square)
qed

lemma multiply_times_paths:
  assumes "path_matrix adj k cur" "path_matrix adj 1 base"
  shows "\<exists>m. multiply_times c cur base = Inr m \<and> path_matrix adj (k + c) m"
  using assms
proof (induction c arbitrary: k cur)
  case (Suc c)
  then obtain m where "symbolic_matrix_multiply cur base = Inr m" "path_matrix adj (Suc k) m"
    using multiply_paths by blast
  then show ?case using Suc.IH [of "Suc k" m] Suc.prems(2) by auto
qed simp

section \<open>Canonical rotations\<close>

lemma rotation_rotate: "rotation p k = rotate k p"
  by (rule nth_equalityI) (simp_all add: rotation_def nth_rotate)

lemma fold_least:
  fixes f :: "'b \<Rightarrow> 'c::linorder"
  shows "fold (\<lambda>k b. if f k < b then f k else b) ks b = Min (insert b (f ` set ks))"
proof (induction ks arbitrary: b)
  case (Cons k ks)
  have "(if f k < b then f k else b) = min b (f k)" by (auto simp: min_def)
  moreover have "Min (insert (min b (f k)) (f ` set ks)) = Min (insert b (insert (f k) (f ` set ks)))"
    by (cases "ks = []") (simp_all add: min.assoc)
  ultimately show ?case using Cons.IH by simp
qed simp

definition rotations :: "'b list \<Rightarrow> 'b list set" where
  "rotations p = range (\<lambda>k. rotate k p)"

lemma rotations_upto: "p \<noteq> [] \<Longrightarrow> rotations p = insert p ((\<lambda>k. rotate k p) ` {1..<length p})"
proof -
  assume p: "p \<noteq> []"
  have "rotate k p = p \<or> rotate k p \<in> (\<lambda>k. rotate k p) ` {1..<length p}" for k
  proof (cases "k mod length p = 0")
    case True
    then show ?thesis using rotate_conv_mod [of k p] by simp
  next
    case False
    moreover have "k mod length p < length p" using p by simp
    ultimately show ?thesis using rotate_conv_mod [of k p] by (intro disjI2 image_eqI [of _ _ "k mod length p"]) auto
  qed
  moreover have "p \<in> range (\<lambda>k. rotate k p)" by (rule range_eqI [of _ _ 0]) simp
  ultimately show ?thesis unfolding rotations_def by auto
qed

lemma rotations_rotate: "rotations (rotate k p) = rotations p"
proof (cases "p = []")
  case False
  have "rotate j p = rotate (j + k * length p - k) (rotate k p)" for j
  proof -
    have "k \<le> k * length p" using False by (cases p) auto
    then have "j + k * length p - k + k = j + k * length p" by linarith
    then have "rotate (j + k * length p - k) (rotate k p) = rotate (j + k * length p) p" by (simp add: rotate_rotate)
    also have "\<dots> = rotate j p" using rotate_conv_mod [of "j + k * length p" p] rotate_conv_mod [of j p] by simp
    finally show ?thesis by simp
  qed
  then show ?thesis unfolding rotations_def by (auto simp: rotate_rotate image_iff)
qed (simp add: rotations_def)

lemma canonicalize_closed:
  assumes "p \<noteq> []"
  shows "canonicalize_circuit (p @ [hd p]) = Min (rotations p) @ [hd (Min (rotations p))]"
proof -
  have "fold (\<lambda>offset best. let candidate = rotation p offset in if candidate < best then candidate else best) [1..<length p] p
      = Min (rotations p)"
    unfolding Let_def fold_least by (simp add: rotations_upto [OF assms] rotation_rotate)
  then show ?thesis using assms unfolding canonicalize_circuit_def by (simp add: Let_def)
qed

lemma canonicalize_eq_iff:
  assumes "p \<noteq> []" "q \<noteq> []"
  shows "canonicalize_circuit (p @ [hd p]) = canonicalize_circuit (q @ [hd q]) \<longleftrightarrow> q \<in> rotations p"
proof
  assume "canonicalize_circuit (p @ [hd p]) = canonicalize_circuit (q @ [hd q])"
  then have eq: "Min (rotations p) = Min (rotations q)" by (simp add: canonicalize_closed assms)
  have Min_rot: "Min (rotations x) \<in> rotations x" if "x \<noteq> []" for x :: SymPath
    unfolding rotations_upto [OF that] by (rule Min_in) auto
  from this [OF assms(1)] obtain i where i: "Min (rotations p) = rotate i p" by (auto simp: rotations_def)
  from Min_rot [OF assms(2)] obtain j where j: "Min (rotations q) = rotate j q" by (auto simp: rotations_def)
  have "rotate i p = rotate j q" using i j eq by simp
  then have "rotations (rotate i p) = rotations (rotate j q)" by (rule arg_cong)
  then have "rotations p = rotations q" by (simp only: rotations_rotate)
  moreover have "q \<in> rotations q" unfolding rotations_def by (rule image_eqI [of _ _ 0]) simp_all
  ultimately show "q \<in> rotations p" by simp
next
  assume "q \<in> rotations p"
  then have "rotations q = rotations p" by (auto simp: rotations_def [of p] rotations_rotate)
  then show "canonicalize_circuit (p @ [hd p]) = canonicalize_circuit (q @ [hd q])" by (simp add: canonicalize_closed assms)
qed

section \<open>The circuits found\<close>

definition hamiltonian :: "'a::{zero,linorder} list list \<Rightarrow> SymPath \<Rightarrow> bool" where
  "hamiltonian adj c \<longleftrightarrow> c \<noteq> [] \<and> last c = hd c \<and> distinct (butlast c) \<and> set (butlast c) = node_set adj \<and> edges_ok adj c"

definition keep :: "(SymPath \<Rightarrow> string) \<Rightarrow> SymPath \<Rightarrow> string set \<times> SymPaths \<Rightarrow> string set \<times> SymPaths" where
  "keep key c = (\<lambda>(seen, cs). if key c \<in> seen then (seen, cs) else (insert (key c) seen, cs @ [c]))"

lemma keep_all:
  assumes "fold (keep key) ls (seen, cs) = (seen', cs')" "seen = key ` set cs" "distinct cs" "inj_on key (set cs)"
  shows "seen' = key ` set cs' \<and> distinct cs' \<and> inj_on key (set cs') \<and> set cs \<subseteq> set cs' \<and> set cs' \<subseteq> set cs \<union> set ls
    \<and> key ` set cs' = key ` (set cs \<union> set ls)"
  using assms
proof (induction ls arbitrary: seen cs)
  case (Cons c ls)
  show ?case
  proof (cases "key c \<in> seen")
    case True
    then have "keep key c (seen, cs) = (seen, cs)" by (simp add: keep_def)
    with Cons.prems(1) have "fold (keep key) ls (seen, cs) = (seen', cs')" by simp
    from Cons.IH [OF this Cons.prems(2-4)] True Cons.prems(2) show ?thesis by auto
  next
    case False
    then have "keep key c (seen, cs) = (insert (key c) seen, cs @ [c])" by (simp add: keep_def)
    with Cons.prems(1) have "fold (keep key) ls (insert (key c) seen, cs @ [c]) = (seen', cs')" by simp
    from Cons.IH [OF this] False Cons.prems(2-4) show ?thesis by auto
  qed
qed simp

definition candidates :: "'a::{zero,linorder} list list \<Rightarrow> int \<Rightarrow> SymMatrix \<Rightarrow> SymPaths" where
  "candidates adj start_node cur =
     concat (map (\<lambda>start. if start_node \<ge> 0 \<and> start \<noteq> nat start_node then []
       else concat (map (\<lambda>end. if adj ! end ! start \<le> 0 then []
              else map (\<lambda>p. p @ [int start]) (filter (\<lambda>p. length p = length adj) (cur ! start ! end))) [0..<length adj])) [0..<length adj])"

definition circuit_key :: "int \<Rightarrow> SymPath \<Rightarrow> string" where
  "circuit_key start_node c = path_key (if start_node \<ge> 0 then c else canonicalize_circuit c)"

lemma fold_add_circuit:
  "fold (add_circuit n sn start) ps acc = fold (keep (circuit_key sn)) (map (\<lambda>p. p @ [int start]) (filter (\<lambda>p. length p = n) ps)) acc"
proof (induction ps arbitrary: acc)
  case (Cons p ps)
  then show ?case by (cases acc) (simp add: add_circuit_def keep_def circuit_key_def Let_def)
qed simp

lemma fold_concat_map: "fold (\<lambda>x. fold f (g x)) xs acc = fold f (concat (map g xs)) acc"
  by (induction xs arbitrary: acc) simp_all

lemma collect_keep: "collect_circuits adj sn cur = fold (keep (circuit_key sn)) (candidates adj sn cur) ({}, [])"
proof -
  have i: "(\<lambda>end acc. if adj ! end ! start \<le> 0 then acc else fold (add_circuit (length adj) sn start) (cur ! start ! end) acc)
     = (\<lambda>end. fold (keep (circuit_key sn)) (if adj ! end ! start \<le> 0 then []
           else map (\<lambda>p. p @ [int start]) (filter (\<lambda>p. length p = length adj) (cur ! start ! end))))" for start
    by (intro ext) (simp add: fold_add_circuit)
  have o: "(\<lambda>start acc. if sn \<ge> 0 \<and> start \<noteq> nat sn then acc else fold (keep (circuit_key sn)) (g start) acc)
     = (\<lambda>start. fold (keep (circuit_key sn)) (if sn \<ge> 0 \<and> start \<noteq> nat sn then [] else g start))" for g
    by (intro ext) simp
  show ?thesis unfolding collect_circuits_def candidates_def i fold_concat_map o ..
qed

lemma set_candidates:
  assumes "path_matrix adj (length adj - 1) cur" "2 \<le> length adj" "sn < int (length adj)"
  shows "set (candidates adj sn cur) = {c. hamiltonian adj c \<and> (0 \<le> sn \<longrightarrow> hd c = sn)}"
proof -
  let ?n = "length adj"
  have cells: "set (cur ! i ! j) = simple_paths adj (?n - 1) i j" if "i < ?n" "j < ?n" for i j
    using assms(1) that by (simp add: path_matrix_def)
  have full: "length p = ?n" if "p \<in> simple_paths adj (?n - 1) i j" for p i j
    using that assms(2) by (simp add: simple_paths_def)
  have mem: "c \<in> set (candidates adj sn cur) \<longleftrightarrow> (\<exists>i<?n. (0 \<le> sn \<longrightarrow> i = nat sn) \<and> (\<exists>j<?n. adj ! j ! i > 0 \<and>
      (\<exists>p\<in>simple_paths adj (?n - 1) i j. c = p @ [int i])))" for c
    using full by (auto simp: candidates_def cells not_le split: if_splits; force)
  show ?thesis
  proof (intro set_eqI iffI)
    fix c assume "c \<in> set (candidates adj sn cur)"
    then obtain i j p where c: "i < ?n" "0 \<le> sn \<longrightarrow> i = nat sn" "j < ?n" "adj ! j ! i > 0" "p \<in> simple_paths adj (?n - 1) i j" "c = p @ [int i]"
      unfolding mem by blast
    then have p: "p \<noteq> []" "distinct p" "hd p = int i" "last p = int j" "set p \<subseteq> node_set adj" "edges_ok adj p"
      using assms(2) by (auto simp: simple_paths_def)
    have "card (set p) = ?n" using full [OF c(5)] p(2) by (simp add: distinct_card)
    then have "set p = node_set adj" using p(5) by (intro card_subset_eq) (auto simp: node_set_def card_image)
    then show "c \<in> {c. hamiltonian adj c \<and> (0 \<le> sn \<longrightarrow> hd c = sn)}"
      using c p by (simp add: hamiltonian_def edges_ok_snoc)
  next
    fix c assume "c \<in> {c. hamiltonian adj c \<and> (0 \<le> sn \<longrightarrow> hd c = sn)}"
    then have h: "c \<noteq> []" "last c = hd c" "distinct (butlast c)" "set (butlast c) = node_set adj" "edges_ok adj c" "0 \<le> sn \<longrightarrow> hd c = sn"
      by (auto simp: hamiltonian_def)
    define p where "p = butlast c"
    have "card (node_set adj) = ?n" by (simp add: node_set_def card_image)
    then have l: "length p = ?n" using h(3,4) distinct_card unfolding p_def by fastforce
    then have p: "p \<noteq> []" using assms(2) by auto
    have c: "c = p @ [hd p]" using h(1,2) p append_butlast_last_id [OF h(1)] unfolding p_def by (metis hd_append2)
    obtain i where i: "hd p = int i" "i < ?n" using h(4) hd_in_set [OF p] unfolding p_def [symmetric] by (auto simp: node_set_def)
    obtain j where j: "last p = int j" "j < ?n" using h(4) last_in_set [OF p] unfolding p_def [symmetric] by (auto simp: node_set_def)
    have "edges_ok adj p" "adj ! j ! i > 0" using h(5) unfolding c by (auto simp: edges_ok_snoc p i j)
    moreover from this have "p \<in> simple_paths adj (?n - 1) i j"
      using l assms(2) h(3,4) i j by (simp add: simple_paths_def p_def)
    moreover have "0 \<le> sn \<longrightarrow> i = nat sn" using h(6) c i p by auto
    ultimately show "c \<in> set (candidates adj sn cur)" unfolding mem using i j c by metis
  qed
qed

definition same_circuit :: "SymPath \<Rightarrow> SymPath \<Rightarrow> bool" where
  "same_circuit c d \<longleftrightarrow> (\<exists>k. butlast d = rotate k (butlast c))"

lemma edges_ok_append:
  "p \<noteq> [] \<Longrightarrow> q \<noteq> [] \<Longrightarrow> edges_ok adj (p @ q) \<longleftrightarrow> edges_ok adj p \<and> adj ! nat (last p) ! nat (hd q) > 0 \<and> edges_ok adj q"
proof (induction p)
  case (Cons x p)
  then show ?case by (cases p; cases q) auto
qed simp

lemma hamiltonian_closed:
  assumes "hamiltonian adj c" "adj \<noteq> []"
  shows "butlast c \<noteq> []" "c = butlast c @ [hd (butlast c)]"
proof -
  show ne: "butlast c \<noteq> []" using assms by (auto simp: hamiltonian_def node_set_def)
  show "c = butlast c @ [hd (butlast c)]"
    using assms ne append_butlast_last_id [of c] unfolding hamiltonian_def by (metis hd_append2)
qed

lemma hamiltonian_from:
  assumes "hamiltonian adj c" "x \<in> node_set adj"
  obtains d where "hamiltonian adj d" "hd d = x"
proof -
  have ne: "adj \<noteq> []" using assms(2) by (auto simp: node_set_def)
  from assms have "x \<in> set (butlast c)" by (simp add: hamiltonian_def)
  then obtain a b where ab: "butlast c = a @ x # b" by (meson split_list)
  have c: "c = (a @ x # b) @ [hd (a @ x # b)]" using hamiltonian_closed(2) [OF assms(1) ne] ab by simp
  have p: "distinct (a @ x # b)" "set (a @ x # b) = node_set adj" "edges_ok adj c"
    using assms(1) unfolding hamiltonian_def ab by auto
  show thesis
  proof (cases "a = []")
    case True
    then show thesis using that [of c] assms(1) c by simp
  next
    case False
    have "edges_ok adj (a @ (x # b) @ [hd a])" using p(3) c False by simp
    then have "edges_ok adj ((x # b) @ a @ [x])"
      using False by (simp add: edges_ok_append edges_ok_snoc del: append.simps)
    then have "hamiltonian adj ((x # b) @ a @ [x])"
      using p(1,2) by (auto simp: hamiltonian_def butlast_append)
    then show thesis using that [of "(x # b) @ a @ [x]"] by simp
  qed
qed

lemma circuit_key_eq:
  assumes "hamiltonian adj c" "hamiltonian adj d" "adj \<noteq> []"
  shows "circuit_key (-1) c = circuit_key (-1) d \<longleftrightarrow> same_circuit c d"
  using canonicalize_eq_iff [OF hamiltonian_closed(1) [OF assms(1,3)] hamiltonian_closed(1) [OF assms(2,3)]]
    hamiltonian_closed(2) [OF assms(1,3)] hamiltonian_closed(2) [OF assms(2,3)]
  by (auto simp: circuit_key_def same_circuit_def rotations_def)

lemma hamiltonian_search:
  assumes "square adj" "2 \<le> length adj" "-1 \<le> sn" "sn < int (length adj)"
  obtains cs where
    "find_hamiltonian_circuits t adj sn = Inr \<lparr>has_circuit = (cs \<noteq> []), circuits = cs, cr_execution_time_ms = t\<rparr>"
    "distinct cs" "inj_on (circuit_key sn) (set cs)" "set cs \<subseteq> {c. hamiltonian adj c \<and> (0 \<le> sn \<longrightarrow> hd c = sn)}"
    "circuit_key sn ` set cs = circuit_key sn ` {c. hamiltonian adj c \<and> (0 \<le> sn \<longrightarrow> hd c = sn)}"
proof -
  obtain base where base: "build_symbolic_matrix adj = Inr base" "path_matrix adj 1 base"
    using build_symbolic_matrix_paths [OF assms(1)] by blast
  obtain cur where cur: "multiply_times (length adj - 2) base base = Inr cur" "path_matrix adj (1 + (length adj - 2)) cur"
    using multiply_times_paths [OF base(2) base(2)] by blast
  have "1 + (length adj - 2) = length adj - 1" using assms(2) by simp
  with cur(2) have pm: "path_matrix adj (length adj - 1) cur" by simp
  obtain seen cs where k: "fold (keep (circuit_key sn)) (candidates adj sn cur) ({}, []) = (seen, cs)" by fastforce
  have "find_hamiltonian_circuits t adj sn = Inr \<lparr>has_circuit = (cs \<noteq> []), circuits = cs, cr_execution_time_ms = t\<rparr>"
    using assms validate_square(1) [of adj] k
    by (simp add: find_hamiltonian_circuits_def base(1) cur(1) collect_keep Let_def del: validate_square)
  with keep_all [OF k] show thesis
    using that [of cs] by (simp add: set_candidates [OF pm assms(2,4)])
qed

text \<open>C26: The search answers with all Hamiltonian circuits: from a given start node with exactly those that begin there,
  each once; without one, with Hamiltonian circuits such that every Hamiltonian circuit is a rotation of exactly one of them.\<close>

theorem hamiltonian_circuits_exact:
  assumes "square adj" "2 \<le> length adj" "-1 \<le> sn" "sn < int (length adj)"
  shows "\<exists>r. find_hamiltonian_circuits t adj sn = Inr r \<and> distinct (circuits r) \<and> (has_circuit r \<longleftrightarrow> (\<exists>c. hamiltonian adj c))
    \<and> (if 0 \<le> sn then set (circuits r) = {c. hamiltonian adj c \<and> hd c = sn}
       else (\<forall>c. c \<in> set (circuits r) \<longrightarrow> hamiltonian adj c) \<and>
            (\<forall>c. hamiltonian adj c \<longrightarrow> (\<exists>!d. d \<in> set (circuits r) \<and> same_circuit c d)))"
proof -
  obtain cs where f: "find_hamiltonian_circuits t adj sn = Inr \<lparr>has_circuit = (cs \<noteq> []), circuits = cs, cr_execution_time_ms = t\<rparr>"
    and cs: "distinct cs" "inj_on (circuit_key sn) (set cs)" "set cs \<subseteq> {c. hamiltonian adj c \<and> (0 \<le> sn \<longrightarrow> hd c = sn)}"
      "circuit_key sn ` set cs = circuit_key sn ` {c. hamiltonian adj c \<and> (0 \<le> sn \<longrightarrow> hd c = sn)}"
    by (rule hamiltonian_search [OF assms, of t])
  have ne: "adj \<noteq> []" using assms(2) by auto
  have has: "cs \<noteq> [] \<longleftrightarrow> (\<exists>c. hamiltonian adj c)"
  proof
    assume "\<exists>c. hamiltonian adj c"
    then obtain c where "hamiltonian adj c" "0 \<le> sn \<longrightarrow> hd c = sn"
    proof (cases "0 \<le> sn")
      case True
      then have x: "sn \<in> node_set adj" using assms(4) by (auto simp: node_set_def image_iff intro!: bexI [of _ "nat sn"])
      obtain d where "hamiltonian adj d" using \<open>\<exists>c. hamiltonian adj c\<close> by blast
      then obtain c where "hamiltonian adj c" "hd c = sn" using x by (rule hamiltonian_from)
      then show thesis using that by blast
    qed auto
    then have "circuit_key sn c \<in> circuit_key sn ` set cs" unfolding cs(4) by blast
    then show "cs \<noteq> []" by auto
  qed (use cs(3) hd_in_set [of cs] in blast)
  show ?thesis
  proof (cases "0 \<le> sn")
    case True
    then have "inj (circuit_key sn)" by (auto simp: circuit_key_def inj_def)
    then have "set cs = {c. hamiltonian adj c \<and> hd c = sn}" using cs(4) True by (simp add: inj_image_eq_iff)
    then show ?thesis using f cs(1) has True by simp
  next
    case False
    then have sn: "sn = -1" using assms(3) by simp
    have "\<exists>!d. d \<in> set cs \<and> same_circuit c d" if "hamiltonian adj c" for c
    proof -
      have "circuit_key (-1) c \<in> circuit_key (-1) ` set cs" using that cs(4) sn by auto
      then obtain d where "d \<in> set cs" "circuit_key (-1) c = circuit_key (-1) d" by auto
      then show ?thesis
        using cs(2,3) circuit_key_eq [OF that _ ne] unfolding sn inj_on_def by (intro ex1I [of _ d]) auto
    qed
    then show ?thesis using f cs(1,3) has sn by auto
  qed
qed

definition demo_square :: "int list list" where
  "demo_square = [[0, 1, 1], [1, 0, 1], [0, 1, 0]]"

theorem hamiltonian_circuits_exact_witness:
  "\<exists>r. find_hamiltonian_circuits (0::int) demo_square 0 = Inr r \<and> set (circuits r) = {c. hamiltonian demo_square c \<and> hd c = 0}"
proof -
  have "square demo_square" "2 \<le> length demo_square" by (simp_all add: demo_square_def square_def)
  from hamiltonian_circuits_exact [OF this, of 0 0] show ?thesis by (auto simp: demo_square_def)
qed

end
