(* ===== verification/Api_Parser.thy ===== *)
theory Api_Parser
  imports Graph_Builder Circuit_Solver Flow_Solver Json_Manager
begin

text \<open>
  Requests and responses of the REST interface (\<^verbatim>\<open>include/server/api_parser.hpp\<close>,
  \<^verbatim>\<open>src/server/api_parser.cpp\<close>). The cJSON interface is the one of the messages, extended by the calls for
  doubles, booleans and \<^verbatim>\<open>cJSON_PrintUnformatted\<close>. A thrown exception is a value of \<open>api_error\<close>.
\<close>

section \<open>Interface\<close>

record ('j, 'd) cjson_api = "'j cjson" +
  cj_double :: "'j \<Rightarrow> 'd option"
  cj_bool :: "'j \<Rightarrow> bool option"
  cj_mk_double :: "'d \<Rightarrow> 'j"
  cj_mk_bool :: "bool \<Rightarrow> 'j"
  cj_print_unformatted :: "'j \<Rightarrow> string option"

datatype api_error = Runtime_error string | Invalid_arg string | Out_of_range

definition extract_string :: "('j, 'd) cjson_api \<Rightarrow> 'j \<Rightarrow> string \<Rightarrow> string \<Rightarrow> string" where
  "extract_string cj obj key out =
     (case Option.bind (cj_get cj obj key) (cj_string cj) of Some s \<Rightarrow> s | None \<Rightarrow> out)"

definition extract_bool :: "('j, 'd) cjson_api \<Rightarrow> 'j \<Rightarrow> string \<Rightarrow> bool \<Rightarrow> bool" where
  "extract_bool cj obj key def_val =
     (case Option.bind (cj_get cj obj key) (cj_bool cj) of Some b \<Rightarrow> b | None \<Rightarrow> def_val)"

definition extract_double :: "('j, 'd) cjson_api \<Rightarrow> 'j \<Rightarrow> string \<Rightarrow> 'd \<Rightarrow> 'd" where
  "extract_double cj obj key def_val =
     (case Option.bind (cj_get cj obj key) (cj_double cj) of Some x \<Rightarrow> x | None \<Rightarrow> def_val)"

definition extract_string_array :: "('j, 'd) cjson_api \<Rightarrow> 'j option \<Rightarrow> string list" where
  "extract_string_array cj arr =
     (case Option.bind arr (cj_elems cj) of None \<Rightarrow> [] | Some xs \<Rightarrow> List.map_filter (cj_string cj) xs)"

definition is_blank_json_body :: "string \<Rightarrow> bool" where
  "is_blank_json_body body = list_all (\<lambda>c. c \<in> {CHR '' '', CHR 0x09, CHR 0x0D, CHR 0x0A}) body"

section \<open>The map\<close>

record 'd MapParseResult =
  mp_nodes :: "'d MapNode list"
  total_received :: nat
  total_discarded :: nat

definition parse_edge :: "('j, 'd::linordered_field) cjson_api \<Rightarrow> 'j \<Rightarrow> 'd MapEdge" where
  "parse_edge cj edge_item =
     \<lparr>me_to = extract_string cj edge_item ''to'' '''', connection_type = extract_string cj edge_item ''connection_type'' '''',
      base_weight = extract_double cj edge_item ''base_weight'' 1,
      connection_conditions = extract_string_array cj (cj_get cj edge_item ''connection_conditions'')\<rparr>"

definition parse_connections :: "('j, 'd::linordered_field) cjson_api \<Rightarrow> 'j option \<Rightarrow> 'd MapEdge list" where
  "parse_connections cj conn_json =
     (case Option.bind conn_json (cj_elems cj) of
        None \<Rightarrow> []
      | Some xs \<Rightarrow> map (parse_edge cj) (filter (cj_is_object cj) xs))"

definition parse_location :: "('j, 'd::linordered_field) cjson_api \<Rightarrow> 'j option \<Rightarrow> 'd MapNodeLocation" where
  "parse_location cj loc_json =
     (case loc_json of
        Some loc \<Rightarrow>
          if cj_is_object cj loc
          then \<lparr>latitude = extract_double cj loc ''latitude'' 0, longitude = extract_double cj loc ''longitude'' 0\<rparr>
          else \<lparr>latitude = 0, longitude = 0\<rparr>
      | None \<Rightarrow> \<lparr>latitude = 0, longitude = 0\<rparr>)"

text \<open>One element of the array; \<open>None\<close> when it is discarded.\<close>

definition parse_node :: "('j, 'd::linordered_field) cjson_api \<Rightarrow> 'j \<Rightarrow> 'd MapNode option" where
  "parse_node cj node_json =
     (if \<not> cj_is_object cj node_json then None
      else let ty = extract_string cj node_json ''node_type'' '''';
               active = extract_bool cj node_json ''is_active'' False;
               secure = extract_bool cj node_json ''is_secure'' False
           in if (ty \<noteq> ''fulfillment_center'' \<and> ty \<noteq> ''market'') \<or> \<not> active \<or> \<not> secure then None
              else Some \<lparr>node_id = extract_string cj node_json ''node_id'' '''', node_name = extract_string cj node_json ''node_name'' '''',
                     node_type = ty, node_description = extract_string cj node_json ''node_description'' '''',
                     location = parse_location cj (cj_get cj node_json ''node_location''),
                     node_tags = extract_string_array cj (cj_get cj node_json ''node_tags''),
                     is_secure = secure, is_active = active,
                     connections = parse_connections cj (cj_get cj node_json ''connections'')\<rparr>)"

fun parse_nodes :: "('j, 'd::linordered_field) cjson_api \<Rightarrow> 'j list \<Rightarrow> 'd MapParseResult \<Rightarrow> 'd MapParseResult" where
  "parse_nodes cj [] r = r"
| "parse_nodes cj (x # xs) r =
     parse_nodes cj xs (case parse_node cj x of
        None \<Rightarrow> r\<lparr>total_discarded := total_discarded r + 1\<rparr>
      | Some node \<Rightarrow> r\<lparr>mp_nodes := mp_nodes r @ [node]\<rparr>)"

definition parse_map_json :: "('j, 'd::linordered_field) cjson_api \<Rightarrow> string \<Rightarrow> api_error + 'd MapParseResult" where
  "parse_map_json cj json_body =
     (case cj_parse cj (c_str json_body) of
        None \<Rightarrow> Inl (Runtime_error ''Invalid JSON format'')
      | Some tree \<Rightarrow>
          (case cj_elems cj tree of
             None \<Rightarrow> Inl (Runtime_error ''Expected a JSON array of map nodes'')
           | Some xs \<Rightarrow> Inr (parse_nodes cj xs \<lparr>mp_nodes = [], total_received = length xs, total_discarded = 0\<rparr>)))"

section \<open>Algorithm requests\<close>

record FlowRequest =
  fq_source :: string
  fq_sink :: string

record CircuitRequest =
  cq_start :: string

definition parse_flow_request_json :: "('j, 'd) cjson_api \<Rightarrow> string \<Rightarrow> api_error + FlowRequest" where
  "parse_flow_request_json cj json_body =
     (case cj_parse cj (c_str json_body) of
        None \<Rightarrow> Inl (Runtime_error ''Invalid JSON format'')
      | Some tree \<Rightarrow>
          (case (Option.bind (cj_get cj tree ''source'') (cj_string cj), Option.bind (cj_get cj tree ''sink'') (cj_string cj)) of
             (Some source, Some sink) \<Rightarrow> Inr \<lparr>fq_source = source, fq_sink = sink\<rparr>
           | _ \<Rightarrow> Inl (Runtime_error (''Missing or invalid '' @ [CHR 0x27] @ ''source'' @ [CHR 0x27] @ '' or '' @ [CHR 0x27] @ ''sink'' @ [CHR 0x27] @ '' fields''))))"

definition parse_circuit_request_json :: "('j, 'd) cjson_api \<Rightarrow> string \<Rightarrow> api_error + CircuitRequest" where
  "parse_circuit_request_json cj json_body =
     (if is_blank_json_body json_body then Inr \<lparr>cq_start = ''''\<rparr>
      else case cj_parse cj (c_str json_body) of
             None \<Rightarrow> Inl (Runtime_error ''Invalid JSON format'')
           | Some tree \<Rightarrow>
               if \<not> cj_is_object cj tree then Inl (Runtime_error ''Expected a JSON object'')
               else case cj_get cj tree ''start'' of
                      None \<Rightarrow> Inr \<lparr>cq_start = ''''\<rparr>
                    | Some item \<Rightarrow>
                        (case cj_string cj item of
                           None \<Rightarrow> Inl (Runtime_error (''Invalid '' @ [CHR 0x27] @ ''start'' @ [CHR 0x27] @ '' field''))
                         | Some s \<Rightarrow> Inr \<lparr>cq_start = s\<rparr>))"

section \<open>Responses\<close>

definition build_failed :: string where
  \<open>build_failed = ''{"status":"error","message":"Failed to build response"}''\<close>

definition build_flow_response_json ::
  "('j, 'd::linordered_field) cjson_api \<Rightarrow> FlowRequest \<Rightarrow> int \<Rightarrow> ('d, 'd) FlowResult \<Rightarrow> string \<Rightarrow> bool \<Rightarrow> string" where
  "build_flow_response_json cj request node_count flow_result ts use_openmp =
     (case cj_print_unformatted cj (cj_mk_object cj
        [(''status'', cj_mk_string cj ''ok''), (''source'', cj_mk_string cj (c_str (fq_source request))),
         (''sink'', cj_mk_string cj (c_str (fq_sink request))), (''node_count'', cj_mk_double cj (of_int node_count)),
         (''max_flow'', cj_mk_double cj (max_flow flow_result)), (''execution_time_ms'', cj_mk_double cj (fr_execution_time_ms flow_result)),
         (''use_openmp'', cj_mk_bool cj use_openmp), (''timestamp'', cj_mk_string cj (c_str ts))]) of
        Some raw_json \<Rightarrow> raw_json | None \<Rightarrow> build_failed)"

text \<open>\<^verbatim>\<open>subgraph_node_ids.at(node_index)\<close>: \<open>None\<close> stands for \<^verbatim>\<open>std::out_of_range\<close>.\<close>

definition at_index :: "string list \<Rightarrow> int \<Rightarrow> string option" where
  "at_index xs i = (if 0 \<le> i \<and> i < int (length xs) then Some (xs ! nat i) else None)"

definition circuit_names :: "string list \<Rightarrow> SymPath \<Rightarrow> string list option" where
  "circuit_names ids circuit = those (map (at_index ids) circuit)"

definition build_circuit_response_json ::
  "('j, 'd::linordered_field) cjson_api \<Rightarrow> string list \<Rightarrow> 'd CircuitResult \<Rightarrow> string \<Rightarrow> bool \<Rightarrow> api_error + string" where
  "build_circuit_response_json cj ids circuit_result ts use_openmp =
     (case those (map (circuit_names ids) (circuits circuit_result)) of
        None \<Rightarrow> Inl Out_of_range
      | Some named \<Rightarrow>
          Inr (case cj_print_unformatted cj (cj_mk_object cj
             [(''status'', cj_mk_string cj ''ok''), (''has_circuit'', cj_mk_bool cj (has_circuit circuit_result)),
              (''node_count'', cj_mk_double cj (of_nat (length ids))),
              (''execution_time_ms'', cj_mk_double cj (cr_execution_time_ms circuit_result)),
              (''use_openmp'', cj_mk_bool cj use_openmp), (''timestamp'', cj_mk_string cj (c_str ts)),
              (''circuits'', cj_mk_array cj (map (\<lambda>c. cj_mk_array cj (map (\<lambda>s. cj_mk_string cj (c_str s)) c)) named))]) of
             Some raw_json \<Rightarrow> raw_json | None \<Rightarrow> build_failed))"

section \<open>Accepted nodes\<close>

definition eligible :: "'d MapNode \<Rightarrow> bool" where
  "eligible node \<longleftrightarrow> node_type node \<in> {''fulfillment_center'', ''market''} \<and> is_active node \<and> is_secure node"

lemma parse_node_eligible: "parse_node cj x = Some node \<Longrightarrow> eligible node"
  by (auto simp: parse_node_def eligible_def Let_def split: if_splits)

lemma parse_nodes_result:
  "parse_nodes cj xs r = r\<lparr>mp_nodes := mp_nodes r @ List.map_filter (parse_node cj) xs,
     total_discarded := total_discarded r + length (filter (\<lambda>x. parse_node cj x = None) xs)\<rparr>"
  by (induction xs arbitrary: r) (simp_all add: List.map_filter_def split: option.splits)

lemma map_filter_count: "length (List.map_filter f xs) + length (filter (\<lambda>x. f x = None) xs) = length xs"
  by (induction xs) (auto simp: List.map_filter_def split: option.splits)

text \<open>A parsed map holds, in the order received, exactly the elements that are fulfillment centers or markets, active and
  secure, and every element received is counted as accepted or as discarded.\<close>

theorem map_nodes_accepted:
  assumes "parse_map_json cj body = Inr r"
  shows "\<exists>tree xs. cj_parse cj (c_str body) = Some tree \<and> cj_elems cj tree = Some xs
    \<and> mp_nodes r = List.map_filter (parse_node cj) xs \<and> list_all eligible (mp_nodes r)
    \<and> total_received r = length xs \<and> length (mp_nodes r) + total_discarded r = total_received r"
proof -
  obtain tree xs where x: "cj_parse cj (c_str body) = Some tree" "cj_elems cj tree = Some xs"
    "r = parse_nodes cj xs \<lparr>mp_nodes = [], total_received = length xs, total_discarded = 0\<rparr>"
    using assms by (auto simp: parse_map_json_def split: option.splits)
  have "list_all eligible (List.map_filter (parse_node cj) xs)"
    by (auto simp: list_all_iff List.map_filter_def dest: parse_node_eligible)
  then show ?thesis using x map_filter_count [of "parse_node cj" xs] by (auto simp: parse_nodes_result)
qed

section \<open>An example of the interface\<close>

datatype api_json = JS string | JD rat | JB bool | JA "api_json list" | JO "(string \<times> api_json) list"

definition demo_api :: "api_json \<Rightarrow> (api_json, rat) cjson_api" where
  "demo_api j0 = \<lparr>cj_parse = (\<lambda>t. if t = ''x'' then Some j0 else None), cj_print = (\<lambda>_ _. None),
     cj_get = (\<lambda>j k. case j of JO kvs \<Rightarrow> map_of kvs k | _ \<Rightarrow> None), cj_string = (\<lambda>j. case j of JS s \<Rightarrow> Some s | _ \<Rightarrow> None),
     cj_number = (\<lambda>j. case j of JD x \<Rightarrow> Some \<lfloor>x\<rfloor> | _ \<Rightarrow> None), cj_elems = (\<lambda>j. case j of JA xs \<Rightarrow> Some xs | _ \<Rightarrow> None),
     cj_is_object = (\<lambda>j. case j of JO _ \<Rightarrow> True | _ \<Rightarrow> False), cj_mk_string = JS, cj_mk_number = (\<lambda>i. JD (of_int i)),
     cj_mk_array = JA, cj_mk_object = JO, cj_double = (\<lambda>j. case j of JD x \<Rightarrow> Some x | _ \<Rightarrow> None),
     cj_bool = (\<lambda>j. case j of JB b \<Rightarrow> Some b | _ \<Rightarrow> None), cj_mk_double = JD, cj_mk_bool = JB,
     cj_print_unformatted = (\<lambda>_. Some ''printed'')\<rparr>"

definition demo_map_node :: "string \<Rightarrow> string \<Rightarrow> api_json" where
  "demo_map_node name to = JO [(''node_id'', JS name), (''node_type'', JS ''fulfillment_center''), (''is_active'', JB True),
     (''is_secure'', JB True), (''connections'', JA [JO [(''to'', JS to), (''base_weight'', JD 4)]])]"

definition demo_map_json :: api_json where
  "demo_map_json = JA [demo_map_node ''a'' ''b'', JS ''noise'', demo_map_node ''b'' ''a'']"

theorem map_nodes_accepted_witness:
  "\<exists>r. parse_map_json (demo_api demo_map_json) ''x'' = Inr r \<and> length (mp_nodes r) + total_discarded r = 3"
proof -
  obtain r where r: "parse_map_json (demo_api demo_map_json) ''x'' = Inr r"
    by (simp add: parse_map_json_def demo_api_def demo_map_json_def c_str_def)
  from map_nodes_accepted [OF r] have "length (mp_nodes r) + total_discarded r = 3"
    by (auto simp: demo_api_def demo_map_json_def c_str_def)
  with r show ?thesis by blast
qed

end
