(* ===== verification/Result_Store.thy ===== *)
theory Result_Store
  imports Api_Parser "HOL-Library.Signed_Division"
begin

text \<open>
  The store of computed results (\<^verbatim>\<open>include/server/result_store.hpp\<close>, \<^verbatim>\<open>src/server/result_store.cpp\<close>). Documents
  are trees with the fields the code appends. MongoDB is a parameter: whether the URI and the pool are
  good, whether an insertion succeeds, and what its cursor yields.
\<close>

section \<open>Timestamps\<close>

text \<open>\<^verbatim>\<open>gmtime_r\<close> for any number of seconds: the calendar repeats every 400 years of 146097 days. It fails for
  no 64-bit number of milliseconds, so the fallback of the code is not reached.\<close>

definition year_day :: "int \<Rightarrow> int \<times> int" where
  "year_day days = (case year_and_day 1970 (days mod 146097) of (y, d) \<Rightarrow> (y + 400 * (days div 146097), d))"

definition zpad_signed :: "nat \<Rightarrow> int \<Rightarrow> string" where
  "zpad_signed w n = (if n < 0 then CHR ''-'' # zpad (w - 1) (- n) else zpad w n)"

definition format_timestamp_iso :: "int \<Rightarrow> string" where
  "format_timestamp_iso timestamp_ms =
     (let seconds = timestamp_ms sdiv 1000;
          millis = timestamp_ms smod 1000;
          (seconds, millis) = (if millis < 0 then (seconds - 1, millis + 1000) else (seconds, millis));
          (y, yd) = year_day (seconds div 86400);
          (mo, d) = month_and_day 1 (month_lengths y) yd;
          s = seconds mod 86400
      in zpad_signed 4 y @ ''-'' @ zpad 2 mo @ ''-'' @ zpad 2 (d + 1) @ ''T'' @ zpad 2 (s div 3600) @ '':''
         @ zpad 2 (s mod 3600 div 60) @ '':'' @ zpad 2 (s mod 60) @ ''.'' @ zpad 3 millis @ ''Z'')"

section \<open>Documents\<close>

datatype 'd bson =
    B_utf8 string
  | B_double 'd
  | B_int32 int
  | B_bool bool
  | B_document "(string \<times> 'd bson) list"
  | B_array "(string \<times> 'd bson) list"

record 'd result_store =
  g_pool :: bool
  g_db_name :: string
  st_documents :: "(string \<times> 'd bson) list"

definition init_result_store :: "bool \<Rightarrow> bool \<Rightarrow> string \<Rightarrow> 'd result_store \<Rightarrow> 'd result_store" where
  "init_result_store uri_ok pool_ok database_name st =
     (if \<not> uri_ok then st else if \<not> pool_ok then st else st\<lparr>g_pool := True, g_db_name := database_name\<rparr>)"

text \<open>A document goes to the collection of the database named; \<open>inserted\<close> is the answer of the server.\<close>

definition insert_document :: "bool \<Rightarrow> string \<Rightarrow> 'd bson \<Rightarrow> 'd result_store \<Rightarrow> 'd result_store" where
  "insert_document inserted db doc st = (if inserted then st\<lparr>st_documents := st_documents st @ [(db, doc)]\<rparr> else st)"

definition save_flow_result ::
  "bool \<Rightarrow> string \<Rightarrow> string \<Rightarrow> int \<Rightarrow> 'd \<Rightarrow> 'd \<Rightarrow> string \<Rightarrow> bool \<Rightarrow> 'd result_store \<Rightarrow> 'd result_store" where
  "save_flow_result inserted source sink node_count flow exec_time ts use_openmp st =
     (if \<not> g_pool st then st
      else insert_document inserted (g_db_name st) (B_document
        [(''algorithm'', B_utf8 ''fulfillment-flow''),
         (''request'', B_document [(''source'', B_utf8 (c_str source)), (''sink'', B_utf8 (c_str sink))]),
         (''result'', B_document [(''max_flow'', B_double flow)]),
         (''node_count'', B_int32 node_count), (''execution_time_ms'', B_double exec_time),
         (''use_openmp'', B_bool use_openmp), (''timestamp'', B_utf8 (c_str ts))]) st)"

definition indexed :: "'a list \<Rightarrow> (string \<times> 'a) list" where
  "indexed xs = zip (map show_nat [0..<length xs]) xs"

definition save_circuit_result ::
  "bool \<Rightarrow> string \<Rightarrow> string list \<Rightarrow> 'd CircuitResult \<Rightarrow> string \<Rightarrow> bool \<Rightarrow> 'd result_store \<Rightarrow> api_error + 'd result_store" where
  "save_circuit_result inserted start ids circuit_result ts use_openmp st =
     (if \<not> g_pool st then Inr st
      else case those (map (circuit_names ids) (circuits circuit_result)) of
        None \<Rightarrow> Inl Out_of_range
      | Some named \<Rightarrow>
          Inr (insert_document inserted (g_db_name st) (B_document
            [(''algorithm'', B_utf8 ''fulfillment-circuit''),
             (''request'', B_document [(''start'', B_utf8 (c_str start)),
                (''subgraph_node_ids'', B_array (indexed (map (\<lambda>s. B_utf8 (c_str s)) ids)))]),
             (''result'', B_document [(''has_circuit'', B_bool (has_circuit circuit_result)),
                (''node_count'', B_int32 (int (length ids))),
                (''circuits'', B_array (indexed (map (\<lambda>c. B_array (indexed (map (\<lambda>s. B_utf8 (c_str s)) c))) named))),
                (''execution_time_ms'', B_double (cr_execution_time_ms circuit_result))]),
             (''node_count'', B_int32 (int (length ids))), (''use_openmp'', B_bool use_openmp),
             (''timestamp'', B_utf8 (c_str ts))]) st))"

text \<open>\<open>cursor\<close> are the renderings the cursor yields, \<open>None\<close> where rendering failed; \<open>client\<close> is whether the pool
  had a client.\<close>

fun join_results :: "string option list \<Rightarrow> bool \<Rightarrow> string" where
  "join_results [] first = ''''"
| "join_results (None # rs) first = join_results rs first"
| "join_results (Some s # rs) first = (if first then s else '','' @ s) @ join_results rs False"

definition no_results :: string where
  \<open>no_results = ''{"status":"ok","results":[]}''\<close>

definition get_all_results :: "bool \<Rightarrow> ((string \<times> 'd bson) list \<Rightarrow> string option list) \<Rightarrow> 'd result_store \<Rightarrow> string" where
  \<open>get_all_results client cursor st =
     (if \<not> g_pool st \<or> g_db_name st = '''' then no_results
      else if \<not> client then no_results
      else ''{"status":"ok","results":['' @ join_results (cursor (st_documents st)) True @ '']}'')\<close>

section \<open>Timestamps are well-formed\<close>

lemma sdiv_smod_floor:
  fixes ms :: int
  shows "(if ms smod 1000 < 0 then (ms sdiv 1000 - 1, ms smod 1000 + 1000) else (ms sdiv 1000, ms smod 1000)) = (ms div 1000, ms mod 1000)"
proof (cases "0 \<le> ms")
  case True
  then show ?thesis by (simp add: signed_divide_int_def signed_modulo_int_def sgn_if minus_div_mult_eq_mod not_less)
next
  case False
  have s: "ms sdiv 1000 = - (- ms div 1000)" using False by (simp add: signed_divide_int_def sgn_if)
  have m: "ms smod 1000 = - (- ms mod 1000)"
    using False by (simp add: signed_modulo_int_def sgn_if)
  have d: "ms div 1000 = (if - ms mod 1000 = 0 then - (- ms div 1000) else - (- ms div 1000) - 1)"
    "ms mod 1000 = (if - ms mod 1000 = 0 then 0 else 1000 - - ms mod 1000)"
    using zdiv_zminus1_eq_if [of 1000 "- ms"] zmod_zminus1_eq_if [of "- ms" 1000] by simp_all
  have "(if - r < 0 then (- q - 1, - r + 1000) else (- q, - r)) = ((if r = 0 then - q else - q - 1), (if r = 0 then 0 else 1000 - r))"
    if "0 \<le> r" for q r :: int
    using that by auto
  from this [of "- ms mod 1000" "- ms div 1000"] show ?thesis unfolding s m d by simp
qed

end
