(* ===== verification/Flow_Paths.thy ===== *)
theory Flow_Paths
  imports Flow_Solver
begin

text \<open>
  Breadth-first search finds shortest paths. Distances are taken over the relation of positive residual
  capacities; the search keeps a tree of parent links whose nodes are at their exact distance.
\<close>

section \<open>Distances\<close>

definition edges :: "'a::linordered_idom matrix \<Rightarrow> (nat \<times> nat) set" where
  "edges g = {(u, v). u < length g \<and> v < length g \<and> g ! u ! v > 0}"

definition dist :: "('n \<times> 'n) set \<Rightarrow> 'n \<Rightarrow> 'n \<Rightarrow> nat" where
  "dist E s v = (LEAST k. (s, v) \<in> E ^^ k)"

lemma dist_path: "(s, v) \<in> E\<^sup>* \<Longrightarrow> (s, v) \<in> E ^^ dist E s v"
  unfolding dist_def by (rule LeastI_ex) (auto dest: rtrancl_imp_relpow)

lemma dist_le: "(s, v) \<in> E ^^ k \<Longrightarrow> dist E s v \<le> k"
  unfolding dist_def by (rule Least_le)

lemma dist_self [simp]: "dist E s s = 0"
  using dist_le [where k = 0 and E = E and s = s and v = s] by simp

lemma dist_edge: "(s, u) \<in> E\<^sup>* \<Longrightarrow> (u, v) \<in> E \<Longrightarrow> dist E s v \<le> Suc (dist E s u)"
  by (rule dist_le) (auto intro: relpow_Suc_I dist_path)

lemma dist_pred:
  assumes "(s, v) \<in> E\<^sup>*" "dist E s v = Suc k"
  obtains x where "(s, x) \<in> E\<^sup>*" "dist E s x = k" "(x, v) \<in> E"
proof -
  from dist_path [OF assms(1)] assms(2) obtain x where x: "(s, x) \<in> E ^^ k" "(x, v) \<in> E" by auto
  then have r: "(s, x) \<in> E\<^sup>*" by (auto intro: relpow_imp_rtrancl)
  moreover have "dist E s x = k" using dist_le [OF x(1)] dist_edge [OF r x(2)] assms(2) by simp
  ultimately show thesis using that x(2) by blast
qed

section \<open>The search tree\<close>

definition visited_set :: "bfs_state \<Rightarrow> nat set" where
  "visited_set st = {v. v < length (bf_visited st) \<and> bf_visited st ! v}"

definition bfs_tree :: "(nat \<times> nat) set \<Rightarrow> nat \<Rightarrow> int list \<Rightarrow> nat set \<Rightarrow> bool" where
  "bfs_tree E s parent W \<longleftrightarrow> s \<in> W \<and> (\<forall>v\<in>W. v < length parent \<and> (s, v) \<in> E\<^sup>* \<and>
     (v = s \<or> (\<exists>u\<in>W. parent ! v = int u \<and> (u, v) \<in> E \<and> dist E s v = Suc (dist E s u))))"

lemma bfs_tree_extend:
  assumes "bfs_tree E s parent W" "u \<in> W" "v \<notin> W" "(u, v) \<in> E" "dist E s v = Suc (dist E s u)" "v < length parent"
  shows "bfs_tree E s (parent[v := int u]) (insert v W)"
proof -
  have "(s, v) \<in> E\<^sup>*" using assms(1,2,4) by (auto simp: bfs_tree_def intro: rtrancl_into_rtrancl)
  moreover have "parent[v := int u] ! x = parent ! x" if "x \<in> W" for x
    using that assms(3) by (metis nth_list_update_neq)
  ultimately show ?thesis using assms unfolding bfs_tree_def by (metis insert_iff length_list_update nth_list_update_eq)
qed

definition scan_inv :: "'a::linordered_idom matrix \<Rightarrow> nat \<Rightarrow> nat \<Rightarrow> nat \<Rightarrow> nat set \<Rightarrow> bfs_state \<Rightarrow> bool" where
  "scan_inv g s t u R st \<longleftrightarrow>
     (let E = edges g; W = visited_set st; d = dist E s
      in length (bf_visited st) = length g \<and> length (bf_parent st) = length g \<and> bfs_tree E s (bf_parent st) W
         \<and> u \<in> W \<and> t \<notin> W \<and> set (bf_queue st) \<subseteq> W
         \<and> (\<forall>x\<in>set (bf_queue st). d u \<le> d x \<and> d x \<le> Suc (d u)) \<and> sorted (map d (bf_queue st))
         \<and> (\<forall>x. (s, x) \<in> E\<^sup>* \<and> d x \<le> d u \<longrightarrow> x \<in> W)
         \<and> (\<forall>w\<in>W. w \<noteq> u \<longrightarrow> w \<notin> set (bf_queue st) \<longrightarrow> E `` {w} \<subseteq> W)
         \<and> E `` {u} \<subseteq> W \<union> R)"

lemma scan_inv_found:
  assumes "scan_inv g s t u R st" "v \<notin> visited_set st" "(u, v) \<in> edges g"
  shows "dist (edges g) s v = Suc (dist (edges g) s u)"
proof -
  have u: "(s, u) \<in> (edges g)\<^sup>*" using assms(1) by (auto simp: scan_inv_def Let_def bfs_tree_def)
  then have "(s, v) \<in> (edges g)\<^sup>*" using assms(3) by (rule rtrancl_into_rtrancl)
  then have "\<not> dist (edges g) s v \<le> dist (edges g) s u" using assms(1,2) by (auto simp: scan_inv_def Let_def)
  then show ?thesis using dist_edge [OF u assms(3)] by simp
qed

lemma visited_set_mark [simp]:
  "v < length (bf_visited st) \<Longrightarrow>
   visited_set (st\<lparr>bf_queue := q, bf_parent := p, bf_visited := (bf_visited st)[v := True]\<rparr>) = insert v (visited_set st)"
  by (auto simp: visited_set_def nth_list_update)

lemma sorted_map_snoc: "sorted (map f xs) \<Longrightarrow> \<forall>x\<in>set xs. f x \<le> f y \<Longrightarrow> sorted (map f (xs @ [y]))"
  by (auto simp: sorted_append)

lemma scan_inv_visit:
  assumes i: "scan_inv g s t u (insert v R) st" and v: "v \<notin> visited_set st" "(u, v) \<in> edges g" "v \<noteq> t" "v < length g"
  shows "scan_inv g s t u R (st\<lparr>bf_queue := bf_queue st @ [v], bf_parent := (bf_parent st)[v := int u],
     bf_visited := (bf_visited st)[v := True]\<rparr>)"
proof -
  let ?d = "dist (edges g) s"
  have d: "?d v = Suc (?d u)" by (rule scan_inv_found [OF i v(1,2)])
  have len: "length (bf_visited st) = length g" "length (bf_parent st) = length g" using i by (auto simp: scan_inv_def Let_def)
  have "bfs_tree (edges g) s ((bf_parent st)[v := int u]) (insert v (visited_set st))"
    using i v d len by (intro bfs_tree_extend) (auto simp: scan_inv_def Let_def)
  moreover have "sorted (map ?d (bf_queue st @ [v]))"
    using i d by (intro sorted_map_snoc) (auto simp: scan_inv_def Let_def)
  ultimately show ?thesis using i v d len unfolding scan_inv_def Let_def
    by (simp del: sorted_append) blast
qed

lemma scan_inv_skip:
  assumes "scan_inv g s t u (insert v R) st" "v \<in> visited_set st \<or> (u, v) \<notin> edges g"
  shows "scan_inv g s t u R st"
  using assms unfolding scan_inv_def Let_def by blast

lemma bfs_scan_correct:
  assumes "scan_inv g s t u (set vs) st" "bfs_scan g t u vs st = (found, st')" "\<forall>v\<in>set vs. v < length g"
  shows "if found then \<exists>W. bfs_tree (edges g) s (bf_parent st') W \<and> t \<in> W \<and> length (bf_parent st') = length g else scan_inv g s t u {} st'"
  using assms
proof (induction vs arbitrary: st)
  case (Cons v vs)
  have len: "length (bf_visited st) = length g" "length (bf_parent st) = length g" "u < length g"
    using Cons.prems(1) by (auto simp: scan_inv_def Let_def bfs_tree_def)
  have v: "v < length g" using Cons.prems(3) by simp
  then have e: "(\<not> bf_visited st ! v \<and> g ! u ! v > 0) \<longleftrightarrow> v \<notin> visited_set st \<and> (u, v) \<in> edges g"
    using len by (auto simp: visited_set_def edges_def)
  show ?case
  proof (cases "v \<notin> visited_set st \<and> (u, v) \<in> edges g")
    case new: True
    show ?thesis
    proof (cases "v = t")
      case True
      have "bfs_tree (edges g) s ((bf_parent st)[v := int u]) (insert v (visited_set st))"
        using Cons.prems(1) new v len scan_inv_found [OF Cons.prems(1)]
        by (intro bfs_tree_extend) (auto simp: scan_inv_def Let_def)
      then show ?thesis using Cons.prems(2) new True e len by auto
    next
      case False
      then show ?thesis
        using Cons.IH [OF scan_inv_visit [of g s t u v "set vs" st]] Cons.prems new e v by simp
    qed
  next
    case False
    then have "scan_inv g s t u (set vs) st" using scan_inv_skip [of g s t u v "set vs" st] Cons.prems(1) by auto
    then show ?thesis using Cons.IH [of st] Cons.prems(2,3) False e by simp
  qed
qed auto

section \<open>The whole search\<close>

definition loop_inv :: "'a::linordered_idom matrix \<Rightarrow> nat \<Rightarrow> nat \<Rightarrow> bfs_state \<Rightarrow> bool" where
  "loop_inv g s t st \<longleftrightarrow>
     (let E = edges g; W = visited_set st; d = dist E s
      in length (bf_visited st) = length g \<and> length (bf_parent st) = length g \<and> bfs_tree E s (bf_parent st) W
         \<and> t \<notin> W \<and> set (bf_queue st) \<subseteq> W \<and> sorted (map d (bf_queue st))
         \<and> (\<forall>w\<in>W. w \<notin> set (bf_queue st) \<longrightarrow> E `` {w} \<subseteq> W)
         \<and> (case bf_queue st of [] \<Rightarrow> True | u # q \<Rightarrow> (\<forall>x\<in>set q. d x \<le> Suc (d u)) \<and> (\<forall>x. (s, x) \<in> E\<^sup>* \<and> d x \<le> d u \<longrightarrow> x \<in> W)))"

lemma loop_inv_pop:
  assumes "loop_inv g s t st" "bf_queue st = u # q"
  shows "scan_inv g s t u {0..<length g} (st\<lparr>bf_queue := q\<rparr>)"
proof -
  have "visited_set (st\<lparr>bf_queue := q\<rparr>) = visited_set st" by (simp add: visited_set_def)
  moreover have "edges g `` {u} \<subseteq> {0..<length g}" by (auto simp: edges_def)
  ultimately show ?thesis using assms by (auto simp: loop_inv_def scan_inv_def Let_def)
qed

lemma scan_inv_done:
  assumes "scan_inv g s t u {} st"
  shows "loop_inv g s t st"
proof -
  let ?E = "edges g" and ?W = "visited_set st" and ?d = "dist (edges g) s"
  have closed: "?E `` {w} \<subseteq> ?W" if "w \<in> ?W" "w \<notin> set (bf_queue st)" for w
    using assms that by (cases "w = u") (auto simp: scan_inv_def Let_def)
  have full: "x \<in> ?W" if r: "(s, x) \<in> ?E\<^sup>*" and xy: "?d x \<le> ?d y" "bf_queue st = y # q" for x y q
  proof (cases "?d x \<le> ?d u")
    case True
    then show ?thesis using assms r by (auto simp: scan_inv_def Let_def)
  next
    case False
    then have y: "?d y = Suc (?d u)" "?d x = Suc (?d u)" using assms xy by (auto simp: scan_inv_def Let_def)
    obtain z where z: "(s, z) \<in> ?E\<^sup>*" "?d z = ?d u" "(z, x) \<in> ?E" by (rule dist_pred [OF r y(2)])
    then have "z \<in> ?W" using assms by (auto simp: scan_inv_def Let_def)
    moreover have "z \<notin> set (bf_queue st)" using assms xy(2) z(2) y(1) by (auto simp: scan_inv_def Let_def)
    ultimately show ?thesis using closed z(3) by blast
  qed
  have "?d x \<le> Suc (?d y)" if "bf_queue st = y # q" "x \<in> set q" for x y q
  proof -
    have "?d u \<le> ?d y" "?d x \<le> Suc (?d u)" using assms that by (auto simp: scan_inv_def Let_def)
    then show ?thesis by simp
  qed
  then show ?thesis using assms closed full unfolding loop_inv_def scan_inv_def Let_def
    by (auto split: list.splits)
qed

lemma bfs_loop_correct:
  assumes "loop_inv g s t st" "bfs_loop g t st = (found, parent)"
  shows "if found then \<exists>W. bfs_tree (edges g) s parent W \<and> t \<in> W \<and> length parent = length g
         else (s, t) \<notin> (edges g)\<^sup>* \<and> length parent = length g"
  using assms
proof (induction g t st rule: bfs_loop.induct)
  case (1 g t st)
  have len: "length (bf_visited st) = length g" using "1.prems"(1) by (simp add: loop_inv_def Let_def)
  show ?case
  proof (cases "bf_queue st")
    case Nil
    have W: "s \<in> visited_set st" "t \<notin> visited_set st" "\<And>w. w \<in> visited_set st \<Longrightarrow> edges g `` {w} \<subseteq> visited_set st"
      using "1.prems"(1) Nil by (auto simp: loop_inv_def Let_def bfs_tree_def)
    have "v \<in> visited_set st" if "(s, v) \<in> (edges g)\<^sup>*" for v
      using that by (induction rule: rtrancl_induct) (use W in auto)
    then show ?thesis using W "1.prems" Nil by (auto simp: bfs_loop.simps loop_inv_def Let_def)
  next
    case (Cons u q)
    obtain f st' where sc: "bfs_scan g t u [0..<length (bf_visited st)] (st\<lparr>bf_queue := q\<rparr>) = (f, st')" by fastforce
    have c: "if f then \<exists>W. bfs_tree (edges g) s (bf_parent st') W \<and> t \<in> W \<and> length (bf_parent st') = length g else scan_inv g s t u {} st'"
      using loop_inv_pop [OF "1.prems"(1) Cons] sc len by (intro bfs_scan_correct) auto
    show ?thesis
    proof (cases f)
      case True
      then show ?thesis using c sc Cons "1.prems"(2) by (auto simp: bfs_loop.simps)
    next
      case False
      then have "bfs_loop g t st' = (found, parent)" using sc Cons "1.prems"(2) by (simp add: bfs_loop.simps [of g t st])
      moreover have "loop_inv g s t st'" using c False by (simp add: scan_inv_done)
      ultimately show ?thesis using "1.IH" [OF Cons sc [symmetric]] False by simp
    qed
  qed
qed

lemma bfs_correct:
  assumes "s < length g" "t < length g" "s \<noteq> t" "length parent = length g" "bfs g (int s) (int t) parent = (found, parent')"
  shows "length parent' = length g"
    and "if found then \<exists>W. bfs_tree (edges g) s parent' W \<and> t \<in> W else (s, t) \<notin> (edges g)\<^sup>*"
proof -
  let ?st = "\<lparr>bf_visited = (replicate (length g) False)[s := True], bf_queue = [s], bf_parent = parent[s := -1]\<rparr>"
  have W: "visited_set ?st = {s}" using assms(1) by (auto simp: visited_set_def nth_list_update)
  have "x = s" if "(s, x) \<in> (edges g)\<^sup>*" "dist (edges g) s x = 0" for x using dist_path [OF that(1)] that(2) by simp
  then have "loop_inv g s t ?st"
    using assms W by (auto simp: loop_inv_def Let_def bfs_tree_def)
  moreover have "bfs_loop g t ?st = (found, parent')" using assms by (cases "g = []") (simp_all add: bfs_def)
  ultimately show "length parent' = length g" "if found then \<exists>W. bfs_tree (edges g) s parent' W \<and> t \<in> W else (s, t) \<notin> (edges g)\<^sup>*"
    using bfs_loop_correct [of g s t ?st found parent'] by (auto split: if_splits)
qed

end
