(* ===== verification/Flow_Proofs.thy ===== *)
theory Flow_Proofs
  imports Flow_Paths
begin

text \<open>
  Correctness of the maximum-flow solver. Augmenting along shortest paths ends: the distance of the sink
  never falls, and while it stays the same the set of edges on shortest paths shrinks. The residual
  graph always represents a flow, and when the search fails the nodes it reaches form a cut of the
  same value.
\<close>

section \<open>Augmenting paths\<close>

fun chain :: "nat \<Rightarrow> (nat \<times> nat) list \<Rightarrow> nat \<Rightarrow> bool" where
  "chain s [] v \<longleftrightarrow> v = s"
| "chain s ((a, b) # es) v \<longleftrightarrow> b = v \<and> chain s es a"

definition shortest :: "(nat \<times> nat) set \<Rightarrow> nat \<Rightarrow> (nat \<times> nat) list \<Rightarrow> nat \<Rightarrow> bool" where
  "shortest E s es v \<longleftrightarrow> chain s es v \<and> set es \<subseteq> E \<and>
     (\<forall>(a, b)\<in>set es. (s, a) \<in> E\<^sup>* \<and> dist E s b = Suc (dist E s a))"

lemma shortest_Nil [simp]: "shortest E s [] v \<longleftrightarrow> v = s"
  by (simp add: shortest_def)

lemma shortest_Cons [simp]:
  "shortest E s ((a, b) # es) v \<longleftrightarrow> b = v \<and> (a, b) \<in> E \<and> (s, a) \<in> E\<^sup>* \<and> dist E s b = Suc (dist E s a) \<and> shortest E s es a"
  by (auto simp: shortest_def)

lemma parent_path_shortest:
  assumes "bfs_tree E s parent W" "v \<in> W"
  shows "\<exists>es. parent_path parent s v = Some es \<and> shortest E s es v"
  using assms(2)
proof (induction "dist E s v" arbitrary: v rule: less_induct)
  case less
  show ?case
  proof (cases "v = s")
    case True
    then show ?thesis by (simp add: parent_path.simps)
  next
    case False
    then obtain u where u: "u \<in> W" "parent ! v = int u" "(u, v) \<in> E" "dist E s v = Suc (dist E s u)"
      using assms(1) less.prems unfolding bfs_tree_def by blast
    have su: "(s, u) \<in> E\<^sup>*" using assms(1) u(1) by (simp add: bfs_tree_def)
    from u obtain es where "parent_path parent s u = Some es" "shortest E s es u" using less.hyps [of u] by auto
    then show ?thesis using False u su by (simp add: parent_path.simps [of parent s v])
  qed
qed

lemma shortest_rest:
  "shortest E s es v \<Longrightarrow> (a, b) \<in> set es \<Longrightarrow> dist E s b \<le> dist E s v \<and> (b, v) \<in> E ^^ (dist E s v - dist E s b)"
proof (induction es arbitrary: v)
  case (Cons e es)
  obtain x y where e: "e = (x, y)" by fastforce
  with Cons.prems(1) have s: "y = v" "(x, y) \<in> E" "dist E s v = Suc (dist E s x)" "shortest E s es x" by auto
  show ?case
  proof (cases "(a, b) = e")
    case True
    then show ?thesis using s e by simp
  next
    case False
    with Cons.prems(2) have ih: "dist E s b \<le> dist E s x" "(b, x) \<in> E ^^ (dist E s x - dist E s b)" using Cons.IH [OF s(4)] by auto
    then have "(b, v) \<in> E ^^ Suc (dist E s x - dist E s b)" using s(1,2) by auto
    then show ?thesis using ih(1) s(3) by (simp add: Suc_diff_le)
  qed
qed simp

lemma shortest_distinct: "shortest E s es v \<Longrightarrow> distinct es"
proof (induction es arbitrary: v)
  case (Cons e es)
  obtain x y where e: "e = (x, y)" by fastforce
  with Cons.prems have s: "y = v" "dist E s v = Suc (dist E s x)" "shortest E s es x" by auto
  then have "e \<notin> set es" using shortest_rest [OF s(3), of x y] e by auto
  then show ?case using Cons.IH [OF s(3)] by simp
qed simp

lemma shortest_edge:
  assumes "shortest E s es v" "(a, b) \<in> set es"
  shows "(a, b) \<in> E \<and> (s, a) \<in> E\<^sup>* \<and> dist E s b = Suc (dist E s a) \<and> (b, a) \<notin> set es \<and> a \<noteq> b"
proof -
  have e: "(s, x) \<in> E\<^sup>* \<and> dist E s y = Suc (dist E s x)" if "(x, y) \<in> set es" for x y
    using assms(1) that by (auto simp: shortest_def)
  show ?thesis using e [OF assms(2)] e [of b a] assms by (auto simp: shortest_def)
qed

section \<open>Termination: shortest paths only grow\<close>

definition sp_edges :: "('n \<times> 'n) set \<Rightarrow> 'n \<Rightarrow> 'n \<Rightarrow> ('n \<times> 'n) set" where
  "sp_edges E s t = {(x, y). \<exists>i j. (s, x) \<in> E ^^ i \<and> (x, y) \<in> E \<and> (y, t) \<in> E ^^ j \<and> i + Suc j = dist E s t}"

lemma climb:
  assumes "shortest E s es t" "E' \<subseteq> E \<union> (set es)\<inverse>" "(x, y) \<in> E' ^^ k" "(s, x) \<in> E\<^sup>*"
  shows "(s, y) \<in> E\<^sup>* \<and> dist E s y \<le> dist E s x + k \<and> (dist E s y = dist E s x + k \<longrightarrow> (x, y) \<in> E ^^ k)"
  using assms(3)
proof (induction k arbitrary: y)
  case 0
  then show ?case using assms(4) by simp
next
  case (Suc k)
  then obtain z where z: "(x, z) \<in> E' ^^ k" "(z, y) \<in> E'" by auto
  note ih = Suc.IH [OF z(1)]
  show ?case
  proof (cases "(z, y) \<in> E")
    case True
    then have "(s, y) \<in> E\<^sup>*" using ih by (auto intro: rtrancl_into_rtrancl)
    moreover have d: "dist E s y \<le> Suc (dist E s z)" by (rule dist_edge) (use True ih in simp_all)
    moreover have "(x, y) \<in> E ^^ Suc k" if "dist E s y = dist E s x + Suc k"
    proof -
      have "(x, z) \<in> E ^^ k" using ih that d by linarith
      then show ?thesis using True by (rule relpow_Suc_I)
    qed
    ultimately show ?thesis using ih by linarith
  next
    case False
    with z(2) assms(2) have "(y, z) \<in> set es" by auto
    then have "(s, y) \<in> E\<^sup>*" "dist E s z = Suc (dist E s y)" using shortest_edge [OF assms(1), of y z] by simp_all
    then show ?thesis using ih by simp
  qed
qed

lemma sp_edges_mono:
  assumes "shortest E s es t" "E' \<subseteq> E \<union> (set es)\<inverse>" "dist E' s t = dist E s t"
  shows "sp_edges E' s t \<subseteq> sp_edges E s t"
proof clarify
  fix x y assume "(x, y) \<in> sp_edges E' s t"
  then obtain i j where ij: "(s, x) \<in> E' ^^ i" "(x, y) \<in> E' ^^ 1" "(y, t) \<in> E' ^^ j" "i + Suc j = dist E s t"
    using assms(3) by (auto simp: sp_edges_def)
  note cl = climb [OF assms(1,2)]
  have x: "(s, x) \<in> E\<^sup>*" "dist E s x \<le> i" "dist E s x = i \<longrightarrow> (s, x) \<in> E ^^ i" using cl [OF ij(1)] by auto
  have y: "(s, y) \<in> E\<^sup>*" "dist E s y \<le> dist E s x + 1" "dist E s y = dist E s x + 1 \<longrightarrow> (x, y) \<in> E" using cl [OF ij(2) x(1)] by auto
  have t: "dist E s t \<le> dist E s y + j" "dist E s t = dist E s y + j \<longrightarrow> (y, t) \<in> E ^^ j" using cl [OF ij(3) y(1)] by auto
  have "dist E s x = i" "dist E s y = dist E s x + 1" "dist E s t = dist E s y + j" using x(2) y(2) t(1) ij(4) by linarith+
  then show "(x, y) \<in> sp_edges E s t" using x(3) y(3) t(2) ij(4) unfolding sp_edges_def by blast
qed

lemma sp_edges_path:
  assumes "shortest E s es t" "(a, b) \<in> set es"
  shows "(a, b) \<in> sp_edges E s t"
proof -
  have ab: "(a, b) \<in> E" "(s, a) \<in> E\<^sup>*" "dist E s b = Suc (dist E s a)" using shortest_edge [OF assms] by auto
  have b: "dist E s b \<le> dist E s t" "(b, t) \<in> E ^^ (dist E s t - dist E s b)" using shortest_rest [OF assms] by auto
  have "dist E s a + Suc (dist E s t - dist E s b) = dist E s t" using ab(3) b(1) by simp
  then show ?thesis unfolding sp_edges_def using dist_path [OF ab(2)] ab(1) b(2) by blast
qed

definition ek_measure :: "nat \<Rightarrow> (nat \<times> nat) set \<Rightarrow> nat \<Rightarrow> nat \<Rightarrow> nat" where
  "ek_measure n E s t =
     (if (s, t) \<in> E\<^sup>* then Suc ((n * n + 1 - dist E s t) * (n * n + 1) + card (sp_edges E s t)) else 0)"

lemma card_edges_le: "E \<subseteq> {..<n} \<times> {..<n} \<Longrightarrow> finite E \<and> card E \<le> n * n"
  using card_mono [of "{..<n} \<times> {..<n}" E] finite_subset [of E "{..<n} \<times> {..<n}"] by (simp add: card_cartesian_product)

lemma dist_bound:
  assumes "E \<subseteq> {..<n} \<times> {..<n}" "(s, t) \<in> E\<^sup>*"
  shows "dist E s t \<le> n * n"
proof -
  have f: "finite E" "card E \<le> n * n" using card_edges_le [OF assms(1)] by auto
  from relpow_finite_bounded [OF f(1), of "dist E s t"] dist_path [OF assms(2)]
  obtain k where "k \<le> card E" "(s, t) \<in> E ^^ k" by auto
  then show ?thesis using dist_le [of s t k E] f(2) by simp
qed

lemma ek_measure_decreases:
  assumes sp: "shortest E s es t" and E': "E' \<subseteq> E \<union> (set es)\<inverse>" and e: "e \<in> set es" "e \<notin> E'"
    and dom: "E \<subseteq> {..<n} \<times> {..<n}" "E' \<subseteq> {..<n} \<times> {..<n}"
  shows "ek_measure n E' s t < ek_measure n E s t"
proof -
  obtain a b where ab: "e = (a, b)" by fastforce
  have spe: "(a, b) \<in> sp_edges E s t" using sp_edges_path [OF sp] e(1) ab by simp
  have "(s, t) \<in> E\<^sup>*"
  proof -
    have "(a, b) \<in> E" "(s, a) \<in> E\<^sup>*" using shortest_edge [OF sp] e(1) ab by blast+
    then have "(s, b) \<in> E\<^sup>*" by simp
    moreover have "(b, t) \<in> E\<^sup>*" using shortest_rest [OF sp] e(1) ab relpow_imp_rtrancl by blast
    ultimately show ?thesis by simp
  qed
  show ?thesis
  proof (cases "(s, t) \<in> E'\<^sup>*")
    case True
    have c': "card (sp_edges E' s t) \<le> n * n"
    proof -
      have "sp_edges E' s t \<subseteq> E'" by (auto simp: sp_edges_def)
      then show ?thesis using card_edges_le [OF dom(2)] card_mono [of E' "sp_edges E' s t"] by simp
    qed
    have le: "dist E s t \<le> dist E' s t" using climb [OF sp E' dist_path [OF True]] by simp
    show ?thesis
    proof (cases "dist E s t = dist E' s t")
      case eq: True
      have "e \<notin> sp_edges E' s t" using e(2) by (auto simp: sp_edges_def)
      then have "sp_edges E' s t \<subset> sp_edges E s t" using sp_edges_mono [OF sp E'] eq spe ab by auto
      moreover have "finite (sp_edges E s t)"
        by (rule finite_subset [of _ E]) (use card_edges_le [OF dom(1)] in \<open>auto simp: sp_edges_def\<close>)
      ultimately have "card (sp_edges E' s t) < card (sp_edges E s t)" by (rule psubset_card_mono [rotated])
      then show ?thesis using \<open>(s, t) \<in> E\<^sup>*\<close> True eq by (simp add: ek_measure_def)
    next
      case False
      then have "Suc (n * n + 1 - dist E' s t) \<le> n * n + 1 - dist E s t" using le dist_bound [OF dom(2) True] by simp
      then have "Suc (n * n + 1 - dist E' s t) * (n * n + 1) \<le> (n * n + 1 - dist E s t) * (n * n + 1)" by (rule mult_le_mono1)
      then show ?thesis using \<open>(s, t) \<in> E\<^sup>*\<close> True c' by (simp add: ek_measure_def)
    qed
  qed (use \<open>(s, t) \<in> E\<^sup>*\<close> in \<open>simp add: ek_measure_def\<close>)
qed

section \<open>One augmentation\<close>

lemma square_update: "square g \<Longrightarrow> u < length g \<Longrightarrow> length row = length g \<Longrightarrow> square (g[u := row])"
  by (auto simp: square_def dest: subsetD [OF set_update_subset_insert])

lemma add_entry:
  assumes "square g" "u < length g" "v < length g"
  shows "square (add_entry u v z g)" "length (add_entry u v z g) = length g"
    "x < length g \<Longrightarrow> y < length g \<Longrightarrow> add_entry u v z g ! x ! y = g ! x ! y + (if x = u \<and> y = v then z else 0)"
  using assms by (auto simp: add_entry_def nth_list_update intro!: square_update)

lemma push_flow_entries:
  assumes "square g" "set es \<subseteq> {..<length g} \<times> {..<length g}" "distinct es"
  shows "square (push_flow pf es g) \<and> length (push_flow pf es g) = length g \<and>
    (\<forall>x<length g. \<forall>y<length g. push_flow pf es g ! x ! y =
       g ! x ! y - (if (x, y) \<in> set es then pf else 0) + (if (y, x) \<in> set es then pf else 0))"
  using assms
proof (induction es arbitrary: g)
  case (Cons e es)
  obtain u v where e: "e = (u, v)" by fastforce
  define g1 where "g1 = add_entry u v (- pf) g"
  define g2 where "g2 = add_entry v u pf g1"
  have uv: "u < length g" "v < length g" using Cons.prems(2) e by auto
  have g1: "square g1" "length g1 = length g" using add_entry(1,2) [OF Cons.prems(1) uv] by (auto simp: g1_def)
  have g2: "square g2" "length g2 = length g" using add_entry(1,2) [OF g1(1), of v u pf] uv g1(2) by (auto simp: g2_def)
  have entry: "g2 ! x ! y = g ! x ! y - (if (x, y) = (u, v) then pf else 0) + (if (y, x) = (u, v) then pf else 0)"
    if "x < length g" "y < length g" for x y
  proof -
    have 1: "g1 ! x ! y = g ! x ! y + (if x = u \<and> y = v then - pf else 0)"
      unfolding g1_def by (rule add_entry(3) [OF Cons.prems(1) uv that])
    have 2: "g2 ! x ! y = g1 ! x ! y + (if x = v \<and> y = u then pf else 0)"
      unfolding g2_def by (rule add_entry(3) [OF g1(1)]) (use uv that g1(2) in simp_all)
    have 3: "(if x = u \<and> y = v then - pf else 0) = - (if (x, y) = (u, v) then pf else 0)" by simp
    have 4: "(if x = v \<and> y = u then pf else 0) = (if (y, x) = (u, v) then pf else 0)" by auto
    show ?thesis unfolding 2 1 3 4 by (simp only: diff_conv_add_uminus)
  qed
  have p: "push_flow pf (e # es) g = push_flow pf es g2" by (simp add: push_flow_def e g1_def g2_def)
  have n: "set es \<subseteq> {..<length g2} \<times> {..<length g2}" "distinct es" "(u, v) \<notin> set es" using Cons.prems g2 e by auto
  have split: "(if z \<in> set (e # es) then pf else 0) = (if z = (u, v) then pf else 0) + (if z \<in> set es then pf else 0)" for z
    using n(3) e by auto
  note ih = Cons.IH [OF g2(1) n(1,2)]
  have "push_flow pf es g2 ! x ! y = g ! x ! y - (if (x, y) \<in> set (e # es) then pf else 0) + (if (y, x) \<in> set (e # es) then pf else 0)"
    if "x < length g" "y < length g" for x y
  proof -
    have "push_flow pf es g2 ! x ! y = g2 ! x ! y - (if (x, y) \<in> set es then pf else 0) + (if (y, x) \<in> set es then pf else 0)"
      using ih that unfolding g2(2) by blast
    then show ?thesis unfolding split entry [OF that] by (simp only: algebra_simps)
  qed
  then show ?case using ih g2(2) p by simp
qed (simp add: push_flow_def)

lemma path_flow_least:
  assumes "es \<noteq> []"
  shows "(\<exists>(u, v)\<in>set es. path_flow g es = g ! u ! v) \<and> (\<forall>(u, v)\<in>set es. path_flow g es \<le> g ! u ! v)"
proof -
  have "fold (\<lambda>(u, v) m. min m (g ! u ! v)) es m \<le> m \<and> (\<forall>(u, v)\<in>set es. fold (\<lambda>(u, v) m. min m (g ! u ! v)) es m \<le> g ! u ! v)
    \<and> (fold (\<lambda>(u, v) m. min m (g ! u ! v)) es m = m \<or> (\<exists>(u, v)\<in>set es. fold (\<lambda>(u, v) m. min m (g ! u ! v)) es m = g ! u ! v))"
    for es :: "(nat \<times> nat) list" and m
  proof (induction es arbitrary: m)
    case (Cons e es)
    obtain u v where e: "e = (u, v)" by fastforce
    from Cons.IH [of "min m (g ! u ! v)"] show ?case unfolding e by (auto simp: min_def split: if_splits)
  qed simp
  from this [of "tl es" "g ! fst (hd es) ! snd (hd es)"] assms show ?thesis
    by (cases es) (auto simp: path_flow_def)
qed

lemma augment_edges:
  assumes "square g" "shortest (edges g) s es t" "s \<noteq> t" "g' = push_flow (path_flow g es) es g"
  shows "square g'" "length g' = length g" "0 < path_flow g es" "edges g' \<subseteq> edges g \<union> (set es)\<inverse>" "\<exists>e\<in>set es. e \<notin> edges g'"
proof -
  let ?pf = "path_flow g es"
  have dom: "set es \<subseteq> {..<length g} \<times> {..<length g}" using assms(2) by (auto simp: shortest_def edges_def)
  note entries = push_flow_entries [OF assms(1) dom shortest_distinct [OF assms(2)], of ?pf]
  have ne: "es \<noteq> []" using assms(2,3) by auto
  show "square g'" "length g' = length g" using entries assms(4) by auto
  obtain a b where ab: "(a, b) \<in> set es" "?pf = g ! a ! b" using path_flow_least [OF ne, of g] by auto
  have abE: "(a, b) \<in> edges g" "(b, a) \<notin> set es" using shortest_edge [OF assms(2) ab(1)] by auto
  then show pos: "0 < ?pf" using ab(2) by (simp add: edges_def)
  have "g' ! a ! b = 0" using entries assms(4) ab abE by (auto simp: edges_def)
  then show "\<exists>e\<in>set es. e \<notin> edges g'" using ab(1) by (intro bexI [of _ "(a, b)"]) (simp_all add: edges_def)
  show "edges g' \<subseteq> edges g \<union> (set es)\<inverse>"
  proof (rule subrelI)
    fix x y assume xy: "(x, y) \<in> edges g'"
    then have n: "x < length g" "y < length g" "0 < g' ! x ! y" using entries assms(4) by (auto simp: edges_def)
    have "0 < g ! x ! y" if "(y, x) \<notin> set es" using entries assms(4) that n pos by (auto split: if_splits)
    then show "(x, y) \<in> edges g \<union> (set es)\<inverse>" using n by (auto simp: edges_def)
  qed
qed

section \<open>The loop returns\<close>

inductive augments :: "nat \<Rightarrow> nat \<Rightarrow> 'a::linordered_idom matrix \<Rightarrow> 'a \<Rightarrow> 'a matrix \<Rightarrow> 'a \<Rightarrow> bool" for s t where
  augments_done: "augments s t g f g f"
| augments_step: "shortest (edges g) s es t \<Longrightarrow>
    augments s t (push_flow (path_flow g es) es g) (f + path_flow g es) g' f' \<Longrightarrow> augments s t g f g' f'"

lemma augment_loop_returns:
  fixes g :: "'a::linordered_idom matrix"
  assumes "square g" "length parent = length g" "s < length g" "t < length g" "s \<noteq> t"
  shows "\<exists>x g'. augment_loop g (int s) (int t) parent f = Some x \<and> augments s t g f g' x \<and> (s, t) \<notin> (edges g')\<^sup>*"
  using assms
proof (induction "ek_measure (length g) (edges g) s t" arbitrary: g parent f rule: less_induct)
  case less
  obtain found parent' where b: "bfs g (int s) (int t) parent = (found, parent')" by fastforce
  note c = bfs_correct [OF less.prems(3,4,5,2) b]
  show ?case
  proof (cases found)
    case False
    then have "augment_loop g (int s) (int t) parent f = Some f" by (simp add: augment_loop.simps b)
    then show ?thesis using c(2) False augments_done [of s t g f] by auto
  next
    case True
    then obtain W where "bfs_tree (edges g) s parent' W" "t \<in> W" using c(2) by auto
    then obtain es where es: "parent_path parent' s t = Some es" "shortest (edges g) s es t"
      using parent_path_shortest by blast
    define g1 where "g1 = push_flow (path_flow g es) es g"
    note a = augment_edges [OF less.prems(1) es(2) less.prems(5) g1_def]
    obtain e where e: "e \<in> set es" "e \<notin> edges g1" using a(5) by blast
    have "ek_measure (length g) (edges g1) s t < ek_measure (length g) (edges g) s t"
      using ek_measure_decreases [OF es(2) a(4) e] a(2) by (auto simp: edges_def)
    then obtain x g' where x: "augment_loop g1 (int s) (int t) parent' (f + path_flow g es) = Some x"
      "augments s t g1 (f + path_flow g es) g' x" "(s, t) \<notin> (edges g')\<^sup>*"
      using less.hyps [of g1 parent' "f + path_flow g es"] a(1,2) c(1) less.prems(3-5) by auto
    have "augment_loop g (int s) (int t) parent f = Some x"
      using x(1) True b es(1) by (simp add: augment_loop.simps [of g "int s"] g1_def Let_def)
    then show ?thesis using x(2,3) es(2) augments_step g1_def by blast
  qed
qed

section \<open>Flows and cuts\<close>

text \<open>A flow in net form: what \<open>u\<close> sends to \<open>v\<close> is minus what \<open>v\<close> sends to \<open>u\<close>.\<close>

definition is_flow :: "'a::linordered_idom matrix \<Rightarrow> nat \<Rightarrow> nat \<Rightarrow> (nat \<Rightarrow> nat \<Rightarrow> 'a) \<Rightarrow> 'a \<Rightarrow> bool" where
  "is_flow c s t f x \<longleftrightarrow> (\<forall>u<length c. \<forall>v<length c. f u v = - f v u \<and> f u v \<le> c ! u ! v)
     \<and> (\<forall>u<length c. u \<noteq> s \<and> u \<noteq> t \<longrightarrow> (\<Sum>v<length c. f u v) = 0) \<and> (\<Sum>v<length c. f s v) = x"

definition cut_capacity :: "'a::linordered_idom matrix \<Rightarrow> nat set \<Rightarrow> 'a" where
  "cut_capacity c S = (\<Sum>u\<in>S. \<Sum>v\<in>{..<length c} - S. c ! u ! v)"

lemma flow_across_cut:
  assumes f: "is_flow c s t f x" and S: "S \<subseteq> {..<length c}" "s \<in> S" "t \<notin> S"
  shows "x = (\<Sum>u\<in>S. \<Sum>v\<in>{..<length c} - S. f u v)"
proof -
  have fin: "finite S" using S(1) finite_subset by blast
  have "(\<Sum>u\<in>S. \<Sum>v<length c. f u v) = (\<Sum>u\<in>S. if u = s then x else 0)"
    using f S by (intro sum.cong) (auto simp: is_flow_def)
  then have x: "(\<Sum>u\<in>S. \<Sum>v<length c. f u v) = x" using S(2) fin by simp
  have split: "(\<Sum>v<length c. f u v) = (\<Sum>v\<in>S. f u v) + (\<Sum>v\<in>{..<length c} - S. f u v)" for u
    using sum.subset_diff [OF S(1), of "f u"] by (simp add: add.commute)
  have "(\<Sum>u\<in>S. \<Sum>v\<in>S. f u v) = (\<Sum>u\<in>S. \<Sum>v\<in>S. - f v u)"
    using f S(1) by (intro sum.cong refl) (auto simp: is_flow_def)
  also have "\<dots> = - (\<Sum>u\<in>S. \<Sum>v\<in>S. f u v)" by (subst sum.swap) (simp add: sum_negf)
  finally have "(\<Sum>u\<in>S. \<Sum>v\<in>S. f u v) = 0" by simp
  then show ?thesis using x unfolding split sum.distrib by simp
qed

lemma flow_below_cut:
  assumes "is_flow c s t f x" "S \<subseteq> {..<length c}" "s \<in> S" "t \<notin> S"
  shows "x \<le> cut_capacity c S"
  unfolding flow_across_cut [OF assms] cut_capacity_def
  using assms(1,2) by (intro sum_mono) (auto simp: is_flow_def)

section \<open>The residual graph represents a flow\<close>

definition residual :: "'a::linordered_idom matrix \<Rightarrow> nat \<Rightarrow> nat \<Rightarrow> 'a matrix \<Rightarrow> 'a \<Rightarrow> bool" where
  "residual c s t g x \<longleftrightarrow> square g \<and> length g = length c \<and> (\<forall>u<length c. \<forall>v<length c. 0 \<le> g ! u ! v)
     \<and> is_flow c s t (\<lambda>u v. c ! u ! v - g ! u ! v) x"

lemma chain_balance:
  assumes "chain s es v" "distinct es" "set es \<subseteq> {..<n} \<times> {..<n}" "u < n"
  shows "(\<Sum>w<n. if (u, w) \<in> set es then pf else 0) - (\<Sum>w<n. if (w, u) \<in> set es then pf else 0)
    = (if u = s then pf else 0) - (if u = v then pf else (0::'a::linordered_idom))"
  using assms
proof (induction es arbitrary: v)
  case (Cons e es)
  obtain a b where e: "e = (a, b)" by fastforce
  with Cons.prems have p: "b = v" "chain s es a" "(a, b) \<notin> set es" "a < n" "b < n" by auto
  have out: "(\<Sum>w<n. if (u, w) \<in> set (e # es) then pf else 0) = (\<Sum>w<n. if (u, w) \<in> set es then pf else 0) + (if u = a then pf else 0)"
  proof -
    have "(\<Sum>w<n. if (u, w) \<in> set (e # es) then pf else 0) = (\<Sum>w<n. (if (u, w) \<in> set es then pf else 0) + (if w = b then if u = a then pf else 0 else 0))"
      using p(3) e by (intro sum.cong) auto
    then show ?thesis using p(5) by (simp add: sum.distrib)
  qed
  have into: "(\<Sum>w<n. if (w, u) \<in> set (e # es) then pf else 0) = (\<Sum>w<n. if (w, u) \<in> set es then pf else 0) + (if u = b then pf else 0)"
  proof -
    have "(\<Sum>w<n. if (w, u) \<in> set (e # es) then pf else 0) = (\<Sum>w<n. (if (w, u) \<in> set es then pf else 0) + (if w = a then if u = b then pf else 0 else 0))"
      using p(3) e by (intro sum.cong) auto
    then show ?thesis using p(4) by (simp add: sum.distrib)
  qed
  have "(\<Sum>w<n. if (u, w) \<in> set es then pf else 0) - (\<Sum>w<n. if (w, u) \<in> set es then pf else 0) = (if u = s then pf else 0) - (if u = a then pf else 0)"
    using Cons.IH [OF p(2)] Cons.prems by simp
  then show ?case unfolding out into p(1) [symmetric] by (simp only: algebra_simps)
qed simp

lemma residual_augment:
  assumes r: "residual c s t g x" and sp: "shortest (edges g) s es t" and st: "s < length c" "s \<noteq> t"
  shows "residual c s t (push_flow (path_flow g es) es g) (x + path_flow g es)"
proof -
  let ?pf = "path_flow g es" and ?n = "length c"
  let ?g = "push_flow ?pf es g"
  let ?out = "\<lambda>u w. if (u, w) \<in> set es then ?pf else 0" and ?in = "\<lambda>u w. if (w, u) \<in> set es then ?pf else 0"
  have g: "square g" "length g = ?n" "\<And>u v. u < ?n \<Longrightarrow> v < ?n \<Longrightarrow> 0 \<le> g ! u ! v" "is_flow c s t (\<lambda>u v. c ! u ! v - g ! u ! v) x"
    using r by (auto simp: residual_def)
  have dom: "set es \<subseteq> {..<?n} \<times> {..<?n}" using sp g(2) by (auto simp: shortest_def edges_def)
  have d: "distinct es" by (rule shortest_distinct [OF sp])
  have ne: "es \<noteq> []" using sp st(2) by auto
  have ch: "chain s es t" using sp by (simp add: shortest_def)
  have pg: "square ?g" "length ?g = ?n" "\<And>u v. u < ?n \<Longrightarrow> v < ?n \<Longrightarrow> ?g ! u ! v = g ! u ! v - ?out u v + ?in u v"
    using push_flow_entries [of g es ?pf] g dom d by auto
  have pos: "0 < ?pf" using augment_edges(3) [OF g(1) sp st(2) refl] .
  have low: "?pf \<le> g ! u ! v" if "(u, v) \<in> set es" for u v using path_flow_least [OF ne, of g] that by auto
  have nn: "0 \<le> ?g ! u ! v" if "u < ?n" "v < ?n" for u v
    using pg(3) [OF that] g(3) [OF that] low [of u v] pos by auto
  have bal: "(\<Sum>v<?n. c ! u ! v - ?g ! u ! v) = (\<Sum>v<?n. c ! u ! v - g ! u ! v) + ((if u = s then ?pf else 0) - (if u = t then ?pf else 0))"
    if u: "u < ?n" for u
  proof -
    have "(\<Sum>v<?n. c ! u ! v - ?g ! u ! v) = (\<Sum>v<?n. (c ! u ! v - g ! u ! v) + (?out u v - ?in u v))"
      using pg(3) u by (intro sum.cong) (simp_all add: algebra_simps)
    also have "\<dots> = (\<Sum>v<?n. c ! u ! v - g ! u ! v) + ((\<Sum>v<?n. ?out u v) - (\<Sum>v<?n. ?in u v))"
      by (simp only: sum.distrib sum_subtractf)
    finally show ?thesis unfolding chain_balance [OF ch d dom u] .
  qed
  have skew: "c ! u ! v - ?g ! u ! v = - (c ! v ! u - ?g ! v ! u)" if "u < ?n" "v < ?n" for u v
  proof -
    have "c ! u ! v - g ! u ! v = - (c ! v ! u - g ! v ! u)" using g(4) that unfolding is_flow_def by blast
    then show ?thesis using pg(3) [OF that] pg(3) [OF that(2,1)] by (simp add: algebra_simps)
  qed
  have le: "c ! u ! v - ?g ! u ! v \<le> c ! u ! v" if "u < ?n" "v < ?n" for u v using nn [OF that] by simp
  have "(\<Sum>v<?n. c ! u ! v - ?g ! u ! v) = 0" if "u < ?n" "u \<noteq> s \<and> u \<noteq> t" for u
  proof -
    have "(\<Sum>v<?n. c ! u ! v - g ! u ! v) = 0" using g(4) that unfolding is_flow_def by blast
    then show ?thesis using bal [OF that(1)] that(2) by simp
  qed
  moreover have "(\<Sum>v<?n. c ! s ! v - ?g ! s ! v) = x + ?pf"
  proof -
    have "(\<Sum>v<?n. c ! s ! v - g ! s ! v) = x" using g(4) unfolding is_flow_def by blast
    then show ?thesis using bal [OF st(1)] st(2) by simp
  qed
  ultimately have "is_flow c s t (\<lambda>u v. c ! u ! v - ?g ! u ! v) (x + ?pf)" using skew le unfolding is_flow_def by blast
  then show ?thesis using pg nn by (simp add: residual_def)
qed

lemma residual_augments:
  "augments s t g f g' f' \<Longrightarrow> residual c s t g f \<Longrightarrow> s < length c \<Longrightarrow> s \<noteq> t \<Longrightarrow> residual c s t g' f'"
  by (induction rule: augments.induct) (auto intro: residual_augment)

lemma residual_cut:
  assumes r: "residual c s t g x" and un: "(s, t) \<notin> (edges g)\<^sup>*" and s: "s < length c"
  shows "\<exists>S\<subseteq>{..<length c}. s \<in> S \<and> t \<notin> S \<and> cut_capacity c S = x"
proof -
  define S where "S = {v. v < length c \<and> (s, v) \<in> (edges g)\<^sup>*}"
  have S: "S \<subseteq> {..<length c}" "s \<in> S" "t \<notin> S" using s un by (auto simp: S_def)
  have full: "g ! u ! v = 0" if "u \<in> S" "v \<in> {..<length c} - S" for u v
  proof -
    have "(u, v) \<notin> edges g" using that by (auto simp: S_def intro: rtrancl_into_rtrancl)
    then show ?thesis using r that by (force simp: edges_def residual_def S_def not_less intro: antisym)
  qed
  have "x = (\<Sum>u\<in>S. \<Sum>v\<in>{..<length c} - S. c ! u ! v - g ! u ! v)"
    using r by (intro flow_across_cut [OF _ S]) (simp add: residual_def)
  also have "\<dots> = cut_capacity c S" unfolding cut_capacity_def using full by (intro sum.cong refl) auto
  finally show ?thesis using S by blast
qed

section \<open>The solver\<close>

lemma ford_fulkerson_total:
  assumes "square capacity_graph"
  shows "\<exists>r. ford_fulkerson time capacity_graph source sink = Some r"
proof (cases "source < 0 \<or> source \<ge> int (length capacity_graph) \<or> sink < 0 \<or> sink \<ge> int (length capacity_graph) \<or> source = sink")
  case True
  then show ?thesis by (auto simp: ford_fulkerson_def Let_def)
next
  case False
  then obtain s t where st: "source = int s" "sink = int t" by (metis nonneg_int_cases not_less)
  with False have "s < length capacity_graph" "t < length capacity_graph" "s \<noteq> t" by auto
  with augment_loop_returns [OF assms, of "replicate (length capacity_graph) 0" s t 0] False st
  show ?thesis by (auto simp: ford_fulkerson_def Let_def)
qed

lemma ford_fulkerson_max:
  assumes "square c" "\<forall>u<length c. \<forall>v<length c. 0 \<le> c ! u ! v" "s < length c" "t < length c" "s \<noteq> t"
  shows "\<exists>x. ford_fulkerson time c (int s) (int t) = Some \<lparr>max_flow = x, fr_execution_time_ms = time\<rparr>
    \<and> (\<exists>f. is_flow c s t f x) \<and> (\<forall>f y. is_flow c s t f y \<longrightarrow> y \<le> x)
    \<and> (\<exists>S\<subseteq>{..<length c}. s \<in> S \<and> t \<notin> S \<and> cut_capacity c S = x)"
proof -
  obtain x g where x: "augment_loop c (int s) (int t) (replicate (length c) 0) 0 = Some x"
    "augments s t c 0 g x" "(s, t) \<notin> (edges g)\<^sup>*"
    using augment_loop_returns [OF assms(1) _ assms(3-5), of "replicate (length c) 0" 0] by auto
  have "residual c s t c 0" using assms by (simp add: residual_def is_flow_def)
  then have r: "residual c s t g x" using residual_augments [OF x(2)] assms(3,5) by blast
  obtain S where S: "S \<subseteq> {..<length c}" "s \<in> S" "t \<notin> S" "cut_capacity c S = x"
    using residual_cut [OF r x(3) assms(3)] by blast
  have "ford_fulkerson time c (int s) (int t) = Some \<lparr>max_flow = x, fr_execution_time_ms = time\<rparr>"
    using x(1) assms(3-5) by (auto simp: ford_fulkerson_def Let_def)
  moreover have "\<exists>f. is_flow c s t f x" using r unfolding residual_def by blast
  moreover have "y \<le> x" if "is_flow c s t f y" for f y using flow_below_cut [OF that S(1-3)] S(4) by simp
  ultimately show ?thesis using S by blast
qed

definition demo_network :: "int list list" where
  "demo_network = [[0, 3, 2, 0], [0, 0, 1, 2], [0, 0, 0, 4], [0, 0, 0, 0]]"





end
