(* ===== verification/Api_Rest.thy ===== *)
theory Api_Rest
  imports Result_Store Flow_Proofs
begin

text \<open>
  The handlers of the REST process (\<^verbatim>\<open>src/server/api_rest.cpp\<close>). Each takes the shared graph under the mutex, so
  handlers run one after the other. Durations, clock readings, the answers of MongoDB and the text of
  \<^verbatim>\<open>std::out_of_range\<close> are arguments. The HTTP library, the listening socket and the signal thread are not
  modelled.
\<close>

section \<open>State\<close>

record http_response =
  hr_status :: int
  hr_body :: string

record 'd rest_state =
  shared_graph :: "'d GraphData"
  rest_store :: "'d result_store"

record ('j, 'd) rest_env =
  re_cjson :: "('j, 'd) cjson_api"
  kUseOpenMPFlow :: bool
  kUseOpenMPCircuit :: bool
  re_exec_time :: 'd
  re_timestamp_ms :: int
  re_inserted :: bool
  re_range_text :: string

definition FULFILLMENT_CENTER_NODE_TYPE :: string where "FULFILLMENT_CENTER_NODE_TYPE = ''fulfillment_center''"
definition MAX_FULFILLMENT_CIRCUIT_NODES :: nat where "MAX_FULFILLMENT_CIRCUIT_NODES = 20"

definition empty_graph :: "'d GraphData" where
  "empty_graph = \<lparr>node_to_index = [], index_to_node_id = [], node_id_to_type = [], adj_matrix = []\<rparr>"

section \<open>Helpers\<close>

definition is_graph_loaded :: "'d GraphData \<Rightarrow> bool" where
  "is_graph_loaded graph \<longleftrightarrow> node_to_index graph \<noteq> [] \<and> adj_matrix graph \<noteq> []"

definition collect_node_indices_by_type :: "'d GraphData \<Rightarrow> string \<Rightarrow> nat list" where
  "collect_node_indices_by_type graph ty =
     filter (\<lambda>index. alookup (node_id_to_type graph) (index_to_node_id graph ! index) = Some ty) [0..<length (index_to_node_id graph)]"

definition build_binary_subgraph :: "'d::linordered_field GraphData \<Rightarrow> nat list \<Rightarrow> 'd list list" where
  "build_binary_subgraph graph selected_indices =
     map (\<lambda>row. map (\<lambda>column. if adj_matrix graph ! row ! column > 0 then 1 else 0) selected_indices) selected_indices"

definition what_of :: "('j, 'd) rest_env \<Rightarrow> api_error \<Rightarrow> string" where
  "what_of env e = (case e of Runtime_error m \<Rightarrow> m | Invalid_arg m \<Rightarrow> m | Out_of_range \<Rightarrow> re_range_text env)"

definition error_response :: "('j, 'd) rest_env \<Rightarrow> api_error \<Rightarrow> http_response" where
  \<open>error_response env e = \<lparr>hr_status = 400, hr_body = ''{"status":"error","message":"'' @ c_str (what_of env e) @ ''"}''\<rparr>\<close>

section \<open>Handlers\<close>

definition quoted_ids :: "'d MapNode list \<Rightarrow> string" where
  \<open>quoted_ids nodes = ''['' @ concat (map (\<lambda>i. ''"'' @ node_id (nodes ! i) @ ''"'' @ (if i < length nodes - 1 then '', '' else ''''))
     [0..<length nodes]) @ '']''\<close>

definition post_map :: "('j, 'd::linordered_field) rest_env \<Rightarrow> string \<Rightarrow> 'd rest_state \<Rightarrow> http_response \<times> 'd rest_state" where
  \<open>post_map env body st =
     (case parse_map_json (re_cjson env) body of
        Inl e \<Rightarrow> (error_response env e, st)
      | Inr parsed_map \<Rightarrow>
          (let graph = build_adjacency_matrix (mp_nodes parsed_map)
           in (\<lparr>hr_status = 200, hr_body = ''{"status":"ok","accepted":'' @ show_nat (length (mp_nodes parsed_map))
                  @ '',"discarded":'' @ show_nat (total_discarded parsed_map)
                  @ '',"matrix_size":'' @ show_nat (length (adj_matrix graph)) @ '',"nodes":'' @ quoted_ids (mp_nodes parsed_map) @ ''}''\<rparr>,
               st\<lparr>shared_graph := graph\<rparr>)))\<close>

definition post_request :: "'d rest_state \<Rightarrow> http_response \<times> 'd rest_state" where
  \<open>post_request st =
     (\<lparr>hr_status = 200, hr_body = ''{"status":"ok","algorithms":["markets-path","fulfillment-flow","fulfillment-circuit"]}''\<rparr>, st)\<close>

text \<open>\<open>None\<close>: the computation does not return.\<close>

definition post_flow :: "('j, 'd::linordered_field) rest_env \<Rightarrow> string \<Rightarrow> 'd rest_state \<Rightarrow> (http_response \<times> 'd rest_state) option" where
  "post_flow env body st =
     (case parse_flow_request_json (re_cjson env) body of
        Inl e \<Rightarrow> Some (error_response env e, st)
      | Inr req \<Rightarrow>
          (let graph = shared_graph st
           in if \<not> is_graph_loaded graph then Some (error_response env (Runtime_error ''No map data loaded. Call /map first.''), st)
              else case (alookup (node_to_index graph) (fq_source req), alookup (node_to_index graph) (fq_sink req)) of
                     (None, _) \<Rightarrow> Some (error_response env (Runtime_error (''Source node not found in graph: '' @ fq_source req)), st)
                   | (Some _, None) \<Rightarrow> Some (error_response env (Runtime_error (''Sink node not found in graph: '' @ fq_sink req)), st)
                   | (Some source_idx, Some sink_idx) \<Rightarrow>
                       (let node_count = int (length (adj_matrix graph))
                        in Option.bind (ford_fulkerson (re_exec_time env) (adj_matrix graph) (int source_idx) (int sink_idx)) (\<lambda>flow_res.
                             let ts = format_timestamp_iso (re_timestamp_ms env)
                             in Some (\<lparr>hr_status = 200, hr_body = build_flow_response_json (re_cjson env) req node_count flow_res ts (kUseOpenMPFlow env)\<rparr>,
                                  st\<lparr>rest_store := save_flow_result (re_inserted env) (fq_source req) (fq_sink req) node_count
                                       (max_flow flow_res) (fr_execution_time_ms flow_res) ts (kUseOpenMPFlow env) (rest_store st)\<rparr>)))))"

fun first_index :: "string \<Rightarrow> string list \<Rightarrow> nat option" where
  "first_index x [] = None"
| "first_index x (y # ys) = (if y = x then Some 0 else map_option Suc (first_index x ys))"

text \<open>The part of the circuit handler under the mutex: node names and the search result.\<close>

definition solve_circuit :: "('j, 'd::linordered_field) rest_env \<Rightarrow> CircuitRequest \<Rightarrow> 'd GraphData \<Rightarrow> api_error + string list \<times> 'd CircuitResult" where
  "solve_circuit env req graph =
     (if \<not> is_graph_loaded graph then Inl (Runtime_error ''No map data loaded. Call /map first.'')
      else let indices = collect_node_indices_by_type graph FULFILLMENT_CENTER_NODE_TYPE
           in if length indices > MAX_FULFILLMENT_CIRCUIT_NODES
              then Inl (Runtime_error (''Fulfillment-center subgraph exceeds the supported limit of '' @ show_nat MAX_FULFILLMENT_CIRCUIT_NODES @ '' nodes''))
              else case those (map (\<lambda>i. at_index (index_to_node_id graph) (int i)) indices) of
                     None \<Rightarrow> Inl Out_of_range
                   | Some ids \<Rightarrow>
                       (case (if cq_start req = '''' then Inr (- 1)
                              else case first_index (cq_start req) ids of
                                     None \<Rightarrow> Inl (Runtime_error (''Start node is not a secure active fulfillment center: '' @ cq_start req))
                                   | Some k \<Rightarrow> Inr (int k)) of
                          Inl e \<Rightarrow> Inl e
                        | Inr start_index \<Rightarrow>
                            (case find_hamiltonian_circuits (re_exec_time env) (build_binary_subgraph graph indices) start_index of
                               Inl (Invalid_argument m) \<Rightarrow> Inl (Invalid_arg m)
                             | Inr r \<Rightarrow> Inr (ids, r))))"

definition post_circuit :: "('j, 'd::linordered_field) rest_env \<Rightarrow> string \<Rightarrow> 'd rest_state \<Rightarrow> http_response \<times> 'd rest_state" where
  "post_circuit env body st =
     (case parse_circuit_request_json (re_cjson env) body of
        Inl e \<Rightarrow> (error_response env e, st)
      | Inr req \<Rightarrow>
          (case solve_circuit env req (shared_graph st) of
             Inl e \<Rightarrow> (error_response env e, st)
           | Inr (ids, r) \<Rightarrow>
               (let ts = format_timestamp_iso (re_timestamp_ms env)
                in case save_circuit_result (re_inserted env) (cq_start req) ids r ts (kUseOpenMPCircuit env) (rest_store st) of
                     Inl e \<Rightarrow> (error_response env e, st)
                   | Inr saved \<Rightarrow>
                       (case build_circuit_response_json (re_cjson env) ids r ts (kUseOpenMPCircuit env) of
                          Inl e \<Rightarrow> (error_response env e, st\<lparr>rest_store := saved\<rparr>)
                        | Inr text \<Rightarrow> (\<lparr>hr_status = 200, hr_body = text\<rparr>, st\<lparr>rest_store := saved\<rparr>)))))"

definition get_results :: "bool \<Rightarrow> ((string \<times> 'd bson) list \<Rightarrow> string option list) \<Rightarrow> 'd rest_state \<Rightarrow> http_response \<times> 'd rest_state" where
  "get_results client cursor st = (\<lparr>hr_status = 200, hr_body = get_all_results client cursor (rest_store st)\<rparr>, st)"

section \<open>Loaded graphs\<close>

definition graph_inv :: "'d::linordered_field GraphData \<Rightarrow> bool" where
  "graph_inv g \<longleftrightarrow> weights_ok (length (index_to_node_id g)) (adj_matrix g)
     \<and> (\<forall>k i. alookup (node_to_index g) k = Some i \<longrightarrow> i < length (index_to_node_id g) \<and> index_to_node_id g ! i = k)"

lemma graph_inv_empty: "graph_inv empty_graph"
  by (simp add: graph_inv_def empty_graph_def weights_ok_def square_def)

lemma graph_inv_build: "graph_inv (build_adjacency_matrix nodes)"
  using weights_ok_build [of nodes] number_nodes_lookup [of nodes]
  by (auto simp: graph_inv_def build_adjacency_matrix_def Let_def)

lemma post_map_inv: "graph_inv (shared_graph st) \<Longrightarrow> graph_inv (shared_graph (snd (post_map env body st)))"
  by (auto simp: post_map_def Let_def graph_inv_build split: sum.splits)

section \<open>Sequences of requests\<close>

datatype rest_request = Post_map string | Post_request | Post_flow string | Post_circuit string
  | Get_results bool

definition rest_step :: "('j, 'd::linordered_field) rest_env \<times> ((string \<times> 'd bson) list \<Rightarrow> string option list) \<Rightarrow> rest_request \<Rightarrow>
    'd rest_state \<Rightarrow> (http_response \<times> 'd rest_state) option" where
  "rest_step env req st =
     (case req of
        Post_map body \<Rightarrow> Some (post_map (fst env) body st)
      | Post_request \<Rightarrow> Some (post_request st)
      | Post_flow body \<Rightarrow> post_flow (fst env) body st
      | Post_circuit body \<Rightarrow> Some (post_circuit (fst env) body st)
      | Get_results client \<Rightarrow> Some (get_results client (snd env) st))"

fun rest_run :: "('j, 'd::linordered_field) rest_env \<times> ((string \<times> 'd bson) list \<Rightarrow> string option list) \<Rightarrow> rest_request list \<Rightarrow>
    'd rest_state \<Rightarrow> (http_response list \<times> 'd rest_state) option" where
  "rest_run env [] st = Some ([], st)"
| "rest_run env (req # reqs) st =
     Option.bind (rest_step env req st) (\<lambda>(r, st). map_option (\<lambda>(rs, st). (r # rs, st)) (rest_run env reqs st))"

lemma graph_inv_square: "graph_inv g \<Longrightarrow> square (adj_matrix g)"
  by (simp add: graph_inv_def weights_ok_def)

lemma post_circuit_graph [simp]: "shared_graph (snd (post_circuit env body st)) = shared_graph st"
  by (auto simp: post_circuit_def Let_def split: sum.splits)

lemma post_flow_returns:
  assumes "graph_inv (shared_graph st)"
  shows "\<exists>r st'. post_flow env body st = Some (r, st') \<and> shared_graph st' = shared_graph st"
proof -
  have "\<exists>x. ford_fulkerson (re_exec_time env) (adj_matrix (shared_graph st)) i j = Some x" for i j
    by (rule ford_fulkerson_total [OF graph_inv_square [OF assms]])
  then obtain F where "\<And>i j. ford_fulkerson (re_exec_time env) (adj_matrix (shared_graph st)) i j = Some (F i j)" by metis
  then show ?thesis by (auto simp: post_flow_def Let_def split: sum.splits option.splits)
qed

lemma rest_step_inv:
  assumes "graph_inv (shared_graph st)"
  obtains r st' where "rest_step env req st = Some (r, st')" "graph_inv (shared_graph st')"
proof (cases req)
  case (Post_map body)
  with post_map_inv [OF assms, of "fst env" body] that show thesis
    by (cases "post_map (fst env) body st") (simp add: rest_step_def)
next
  case (Post_flow body)
  with post_flow_returns [OF assms, of "fst env" body] that assms show thesis by (auto simp: rest_step_def)
next
  case (Post_circuit body)
  with that assms post_circuit_graph [of "fst env" body st] show thesis
    by (cases "post_circuit (fst env) body st") (simp add: rest_step_def)
qed (use that assms in \<open>auto simp: rest_step_def post_request_def get_results_def\<close>)

lemma rest_run_inv:
  assumes "graph_inv (shared_graph st)"
  shows "\<exists>rs st'. rest_run env reqs st = Some (rs, st') \<and> length rs = length reqs \<and> graph_inv (shared_graph st')"
  using assms
proof (induction reqs arbitrary: st)
  case (Cons req reqs)
  obtain r st1 where s: "rest_step env req st = Some (r, st1)" "graph_inv (shared_graph st1)"
    using rest_step_inv [OF Cons.prems] by blast
  obtain rs st2 where "rest_run env reqs st1 = Some (rs, st2)" "length rs = length reqs" "graph_inv (shared_graph st2)"
    using Cons.IH [OF s(2)] by blast
  then show ?case using s(1) by auto
qed simp

definition rest_start :: "'d result_store \<Rightarrow> 'd rest_state" where
  "rest_start s = \<lparr>shared_graph = empty_graph, rest_store = s\<rparr>"



section \<open>Circuit requests\<close>

definition center_indices :: "'d GraphData \<Rightarrow> nat list" where
  "center_indices g = collect_node_indices_by_type g FULFILLMENT_CENTER_NODE_TYPE"

definition center_ids :: "'d GraphData \<Rightarrow> string list" where
  "center_ids g = map (\<lambda>i. index_to_node_id g ! i) (center_indices g)"

lemma those_map_Some: "(\<And>x. x \<in> set xs \<Longrightarrow> f x = Some (g x)) \<Longrightarrow> those (map f xs) = Some (map g xs)"
  by (induction xs) simp_all

lemma center_ids_those: "those (map (\<lambda>i. at_index (index_to_node_id g) (int i)) (center_indices g)) = Some (center_ids g)"
  unfolding center_ids_def by (rule those_map_Some) (auto simp: at_index_def center_indices_def collect_node_indices_by_type_def)

lemma first_index_Some: "x \<in> set xs \<Longrightarrow> \<exists>k. first_index x xs = Some k \<and> k < length xs \<and> xs ! k = x"
  by (induction xs) auto

lemma subgraph_square: "square (build_binary_subgraph g xs)" "length (build_binary_subgraph g xs) = length xs"
  by (simp_all add: build_binary_subgraph_def square_def)

lemma search_in_range:
  assumes "square m" "- 1 \<le> sn" "sn < int (length m) \<or> length m < 2"
  shows "\<exists>r. find_hamiltonian_circuits t m sn = Inr r
    \<and> (\<forall>c. c \<in> set (circuits r) \<longrightarrow> 2 \<le> length m \<and> hamiltonian m c \<and> (0 \<le> sn \<longrightarrow> hd c = sn) \<and> set c \<subseteq> node_set m)"
proof (cases "2 \<le> length m")
  case True
  with assms(3) have sn: "sn < int (length m)" by simp
  obtain cs where cs: "find_hamiltonian_circuits t m sn = Inr \<lparr>has_circuit = (cs \<noteq> []), circuits = cs, cr_execution_time_ms = t\<rparr>"
    "set cs \<subseteq> {c. hamiltonian m c \<and> (0 \<le> sn \<longrightarrow> hd c = sn)}"
    by (rule hamiltonian_search [OF assms(1) True assms(2) sn, of t])
  have "set c \<subseteq> node_set m" if "hamiltonian m c" for c
  proof -
    have ne: "m \<noteq> []" using True by auto
    have "set (butlast c @ [hd (butlast c)]) \<subseteq> node_set m"
      using that hamiltonian_closed(1) [OF that ne] hd_in_set [of "butlast c"] by (auto simp: hamiltonian_def)
    then show ?thesis using hamiltonian_closed(2) [OF that ne] by simp
  qed
  then show ?thesis using cs True by auto
next
  case False
  then show ?thesis using assms(1) validate_square(1) [of m]
    by (simp add: find_hamiltonian_circuits_def Let_def del: validate_square)
qed

lemma names_of_circuits:
  assumes "\<forall>c\<in>set cs. set c \<subseteq> int ` {0..<length ids}"
  shows "those (map (circuit_names ids) cs) = Some (map (map (\<lambda>i. ids ! nat i)) cs)"
proof (rule those_map_Some)
  fix c assume "c \<in> set cs"
  with assms have "set c \<subseteq> int ` {0..<length ids}" by blast
  then show "circuit_names ids c = Some (map (\<lambda>i. ids ! nat i) c)"
    unfolding circuit_names_def by (intro those_map_Some) (auto simp: at_index_def)
qed


section \<open>An example session\<close>

definition demo_env :: "(api_json, rat) rest_env" where
  "demo_env = \<lparr>re_cjson = (demo_api demo_map_json)\<lparr>cj_parse := (\<lambda>t. if t = ''m'' then Some demo_map_json
       else if t = ''f'' then Some (JO [(''source'', JS ''a''), (''sink'', JS ''b'')])
       else if t = ''c'' then Some (JO [(''start'', JS ''b'')]) else None)\<rparr>,
     kUseOpenMPFlow = False, kUseOpenMPCircuit = False, re_exec_time = 0, re_timestamp_ms = 0, re_inserted = True, re_range_text = ''''\<rparr>"

definition demo_store :: "rat result_store" where
  "demo_store = \<lparr>g_pool = True, g_db_name = ''db'', st_documents = []\<rparr>"

definition demo_loaded :: "rat rest_state" where
  "demo_loaded = snd (post_map demo_env ''m'' (rest_start demo_store))"

lemma demo_run: "rest_run (demo_env, \<lambda>_. []) [Post_map ''m''] (rest_start demo_store) = Some ([fst (post_map demo_env ''m'' (rest_start demo_store))], demo_loaded)"
  by (simp add: rest_step_def demo_loaded_def case_prod_beta)



end
