(* ===== verification/C_Library.thy ===== *)
theory C_Library
  imports Prelude "HOL-Library.Signed_Division"
begin

text \<open>
  The functions of the C library that the client, the plug-ins and the firmware call on text and
  numbers: character classes, \<^verbatim>\<open>strtol\<close>, \<^verbatim>\<open>strcasecmp\<close>, \<^verbatim>\<open>strchr\<close> and \<^verbatim>\<open>strrchr\<close>, and \<^verbatim>\<open>snprintf\<close> with its
  truncation. Strings are C strings without their terminating NUL.
\<close>

section \<open>Characters\<close>

abbreviation code :: "char \<Rightarrow> nat" where
  "code \<equiv> of_char"

definition isspace :: "char \<Rightarrow> bool" where
  "isspace c \<longleftrightarrow> code c = 32 \<or> 9 \<le> code c \<and> code c \<le> 13"

definition isdigit :: "char \<Rightarrow> bool" where
  "isdigit c \<longleftrightarrow> 48 \<le> code c \<and> code c \<le> 57"

definition lower_char :: "char \<Rightarrow> char" where
  "lower_char c = (if 65 \<le> code c \<and> code c \<le> 90 then char_of (code c + 32) else c)"

text \<open>\<^verbatim>\<open>strcasecmp(a, b) == 0\<close>\<close>

definition strcaseeq :: "string \<Rightarrow> string \<Rightarrow> bool" where
  "strcaseeq a b \<longleftrightarrow> map lower_char a = map lower_char b"

section \<open>Searching\<close>

text \<open>The parts before and after the first occurrence of a character.\<close>

definition strchr :: "char \<Rightarrow> string \<Rightarrow> (string \<times> string) option" where
  "strchr c s = (if c \<in> set s then Some (takeWhile (\<lambda>x. x \<noteq> c) s, tl (dropWhile (\<lambda>x. x \<noteq> c) s)) else None)"

text \<open>The parts before and after the last occurrence of a character.\<close>

definition strrchr :: "char \<Rightarrow> string \<Rightarrow> (string \<times> string) option" where
  "strrchr c s = map_option (\<lambda>(a, b). (rev b, rev a)) (strchr c (rev s))"

lemma strchr_SomeD: "strchr c s = Some (a, b) \<Longrightarrow> s = a @ c # b \<and> c \<notin> set a"
proof -
  assume s: "strchr c s = Some (a, b)"
  then have c: "c \<in> set s" and a: "a = takeWhile (\<lambda>x. x \<noteq> c) s" and b: "b = tl (dropWhile (\<lambda>x. x \<noteq> c) s)"
    by (auto simp: strchr_def split: if_splits)
  from c have ne: "dropWhile (\<lambda>x. x \<noteq> c) s \<noteq> []" by simp
  then have "hd (dropWhile (\<lambda>x. x \<noteq> c) s) = c" using hd_dropWhile by blast
  with ne have "dropWhile (\<lambda>x. x \<noteq> c) s = c # b" by (cases "dropWhile (\<lambda>x. x \<noteq> c) s") (simp_all add: b)
  then show ?thesis using takeWhile_dropWhile_id [of "\<lambda>x. x \<noteq> c" s] a by (auto dest: set_takeWhileD)
qed

lemma strrchr_SomeD: "strrchr c s = Some (a, b) \<Longrightarrow> s = a @ c # b \<and> c \<notin> set b"
proof -
  assume "strrchr c s = Some (a, b)"
  then have "strchr c (rev s) = Some (rev b, rev a)" by (auto simp: strrchr_def)
  then have r: "rev s = rev b @ c # rev a" and n: "c \<notin> set (rev b)" using strchr_SomeD by blast+
  from r have "rev (rev s) = a @ c # b" by simp
  with n show ?thesis by simp
qed

section \<open>Numbers\<close>

definition LONG_MAX :: int where "LONG_MAX = 2 ^ 63 - 1"
definition LONG_MIN :: int where "LONG_MIN = - (2 ^ 63)"
definition INT_MAX :: int where "INT_MAX = 2 ^ 31 - 1"

text \<open>
  The result of \<^verbatim>\<open>strtol(s, &end, 10)\<close>: the value, the text from \<^verbatim>\<open>end\<close> on, whether \<^verbatim>\<open>errno\<close> was set.
  Without a digit nothing is converted and \<^verbatim>\<open>end\<close> is the start of the text.
\<close>

definition strtol :: "string \<Rightarrow> int \<times> string \<times> bool" where
  "strtol s =
     (let t = dropWhile isspace s;
          neg = (t \<noteq> [] \<and> hd t = CHR ''-'');
          u = (if t \<noteq> [] \<and> (hd t = CHR ''-'' \<or> hd t = CHR ''+'') then tl t else t);
          ds = takeWhile isdigit u;
          v = (if neg then - int (read_nat ds) else int (read_nat ds))
      in if ds = [] then (0, s, False)
         else if v > LONG_MAX then (LONG_MAX, drop (length ds) u, True)
         else if v < LONG_MIN then (LONG_MIN, drop (length ds) u, True)
         else (v, drop (length ds) u, False))"

lemma show_nat_isdigit: "c \<in> set (show_nat n) \<Longrightarrow> isdigit c"
  using show_nat_digits by (simp add: isdigit_def)

lemma isdigit_not_space: "isdigit c \<Longrightarrow> \<not> isspace c"
  by (auto simp: isdigit_def isspace_def)

lemma takeWhile_show_nat [simp]: "takeWhile isdigit (show_nat n) = show_nat n"
  using show_nat_isdigit by (simp add: takeWhile_eq_all_conv)

lemma dropWhile_show_nat [simp]: "dropWhile isspace (show_nat n) = show_nat n"
proof (cases "show_nat n")
  case (Cons c cs)
  then have "\<not> isspace c" using isdigit_not_space [OF show_nat_isdigit [of c n]] by simp
  with Cons show ?thesis by simp
qed simp

lemma hd_show_nat: "hd (show_nat n) \<noteq> CHR ''-''" "hd (show_nat n) \<noteq> CHR ''+''"
  using show_nat_isdigit [of "hd (show_nat n)" n] by (auto simp: isdigit_def)

text \<open>Reading back the decimal rendering of a number in range.\<close>

lemma strtol_show_nat: "int n \<le> LONG_MAX \<Longrightarrow> strtol (show_nat n) = (int n, [], False)"
  using hd_show_nat [of n] by (simp add: strtol_def Let_def LONG_MIN_def)

lemma strtol_show_int:
  assumes "LONG_MIN \<le> i" "i \<le> LONG_MAX"
  shows "strtol (show_int i) = (i, [], False)"
proof (cases "i < 0")
  case True
  then have s: "show_int i = CHR ''-'' # show_nat (nat (- i))" by (simp add: show_int_def)
  have "\<not> isspace (CHR ''-'')" by (simp add: isspace_def)
  with True assms show ?thesis by (simp add: s strtol_def Let_def LONG_MAX_def)
next
  case False
  with assms strtol_show_nat [of "nat i"] show ?thesis by (simp add: show_int_def)
qed

section \<open>Formatted output\<close>

text \<open>\<^verbatim>\<open>snprintf(buf, n, ...)\<close> with formatted text \<open>s\<close>: the text stored, truncated to \<open>n - 1\<close> characters.\<close>

definition snprintf :: "nat \<Rightarrow> string \<Rightarrow> string" where
  "snprintf n s = take (n - 1) s"

lemma length_snprintf: "0 < n \<Longrightarrow> length (snprintf n s) < n"
  by (simp add: snprintf_def)

end
