(* ===== verification/Client_Timers.thy ===== *)
theory Client_Timers
  imports C_Library
begin

text \<open>
  The client's timing configuration (\<^verbatim>\<open>src/client/timers.c\<close>), the random intervals and amounts drawn from
  it (\<^verbatim>\<open>src/client/logic.c\<close>, \<^verbatim>\<open>src/client/message_handler.c\<close>) and the emergency detector
  (\<^verbatim>\<open>src/client/emergency/emergency_detector.c\<close>). The environment is a map from variable names to texts and
  every value of \<^verbatim>\<open>rand()\<close>, a number from 0 on, is an argument.
\<close>

section \<open>Configuration\<close>

record timer_config_t =
  inventory_update_interval_ms :: int
  consume_stock_min_ms :: int
  consume_stock_max_ms :: int
  consume_min_amount :: int
  consume_max_amount :: int
  low_stock_threshold :: int
  critical_stock_threshold :: int
  max_stock_per_item :: int
  emergency_check_interval_ms :: int
  ack_check_interval_sec :: int
  recv_timeout_sec :: int
  loop_timeout_sec :: int
  ack_timeout_ms :: int
  max_retries :: int
  response_delay_min_ms :: int
  response_delay_max_ms :: int

definition timer_config :: timer_config_t where
  "timer_config =
     \<lparr>inventory_update_interval_ms = 60000, consume_stock_min_ms = 10000, consume_stock_max_ms = 30000,
      consume_min_amount = 1, consume_max_amount = 20, low_stock_threshold = 20, critical_stock_threshold = 5,
      max_stock_per_item = 100, emergency_check_interval_ms = 30000, ack_check_interval_sec = 1,
      recv_timeout_sec = 1, loop_timeout_sec = 1, ack_timeout_ms = 5000, max_retries = 3,
      response_delay_min_ms = 50, response_delay_max_ms = 500\<rparr>"

type_synonym environment = "string \<Rightarrow> string option"

definition parse_positive_env :: "environment \<Rightarrow> string \<Rightarrow> int \<Rightarrow> int" where
  "parse_positive_env getenv key fallback =
     (case getenv key of
        None \<Rightarrow> fallback
      | Some val \<Rightarrow>
          if val = '''' then fallback
          else (case strtol val of (parsed, rest, err) \<Rightarrow>
                  if err \<or> rest = val \<or> rest \<noteq> '''' \<or> parsed \<le> 0 \<or> parsed > INT_MAX then fallback else parsed))"

definition read_timer_config :: "environment \<Rightarrow> timer_config_t \<Rightarrow> timer_config_t" where
  "read_timer_config env c =
     (let p = parse_positive_env env in
     \<lparr>inventory_update_interval_ms = p ''CLIENT_INVENTORY_INTERVAL_MS'' (inventory_update_interval_ms c),
      consume_stock_min_ms = p ''CLIENT_CONSUME_MIN_MS'' (consume_stock_min_ms c),
      consume_stock_max_ms = p ''CLIENT_CONSUME_MAX_MS'' (consume_stock_max_ms c),
      consume_min_amount = p ''CLIENT_CONSUME_MIN_AMOUNT'' (consume_min_amount c),
      consume_max_amount = p ''CLIENT_CONSUME_MAX_AMOUNT'' (consume_max_amount c),
      low_stock_threshold = p ''CLIENT_LOW_STOCK_THRESHOLD'' (low_stock_threshold c),
      critical_stock_threshold = p ''CLIENT_CRITICAL_STOCK_THRESHOLD'' (critical_stock_threshold c),
      max_stock_per_item = p ''CLIENT_MAX_STOCK_PER_ITEM'' (max_stock_per_item c),
      emergency_check_interval_ms = p ''CLIENT_EMERGENCY_INTERVAL_MS'' (emergency_check_interval_ms c),
      ack_check_interval_sec = p ''CLIENT_ACK_CHECK_INTERVAL_SEC'' (ack_check_interval_sec c),
      recv_timeout_sec = p ''CLIENT_RECV_TIMEOUT_SEC'' (recv_timeout_sec c),
      loop_timeout_sec = p ''CLIENT_LOOP_TIMEOUT_SEC'' (loop_timeout_sec c),
      ack_timeout_ms = p ''CLIENT_ACK_TIMEOUT_MS'' (ack_timeout_ms c),
      max_retries = p ''CLIENT_MAX_RETRIES'' (max_retries c),
      response_delay_min_ms = p ''CLIENT_RESPONSE_DELAY_MIN_MS'' (response_delay_min_ms c),
      response_delay_max_ms = p ''CLIENT_RESPONSE_DELAY_MAX_MS'' (response_delay_max_ms c)\<rparr>)"

text \<open>Limits given in the wrong order are swapped.\<close>

definition swap_limits :: "timer_config_t \<Rightarrow> timer_config_t" where
  "swap_limits c =
     (let c = (if consume_stock_min_ms c > consume_stock_max_ms c
               then c\<lparr>consume_stock_min_ms := consume_stock_max_ms c, consume_stock_max_ms := consume_stock_min_ms c\<rparr> else c);
          c = (if response_delay_min_ms c > response_delay_max_ms c
               then c\<lparr>response_delay_min_ms := response_delay_max_ms c, response_delay_max_ms := response_delay_min_ms c\<rparr> else c)
      in if consume_min_amount c > consume_max_amount c
         then c\<lparr>consume_min_amount := consume_max_amount c, consume_max_amount := consume_min_amount c\<rparr> else c)"

definition load_timer_config :: "environment \<Rightarrow> timer_config_t \<Rightarrow> timer_config_t" where
  "load_timer_config env c = swap_limits (read_timer_config env c)"

text \<open>A one-shot timer: seconds and nanoseconds of \<^verbatim>\<open>it_value\<close>; \<^verbatim>\<open>it_interval\<close> is zero.\<close>

record timer_spec =
  value_sec :: int
  value_nsec :: int
  interval_sec :: int
  interval_nsec :: int

definition ms_to_itimerspec :: "int \<Rightarrow> timer_spec" where
  "ms_to_itimerspec ms = \<lparr>value_sec = ms sdiv 1000, value_nsec = (ms smod 1000) * 1000000, interval_sec = 0, interval_nsec = 0\<rparr>"

text \<open>The periodic timers: the first expiry at an offset, then at every interval.\<close>

definition periodic_spec :: "int \<Rightarrow> int \<Rightarrow> timer_spec" where
  "periodic_spec offset interval =
     (ms_to_itimerspec offset)\<lparr>interval_sec := interval sdiv 1000, interval_nsec := (interval smod 1000) * 1000000\<rparr>"

section \<open>Random draws\<close>

definition get_random_consume_interval :: "timer_config_t \<Rightarrow> nat \<Rightarrow> int" where
  "get_random_consume_interval cfg r =
     consume_stock_min_ms cfg + int r smod (consume_stock_max_ms cfg - consume_stock_min_ms cfg + 1)"

definition get_random_phase_offset :: "int \<Rightarrow> nat \<Rightarrow> int" where
  "get_random_phase_offset interval_ms r =
     (let min_offset = interval_ms sdiv 2;
          min_offset = (if min_offset \<le> 0 then 1 else min_offset)
      in min_offset + int r smod (interval_ms - min_offset + 1))"

definition get_random_consume_amount :: "timer_config_t \<Rightarrow> nat \<Rightarrow> int" where
  "get_random_consume_amount cfg r =
     consume_min_amount cfg + int r smod (consume_max_amount cfg - consume_min_amount cfg + 1)"

text \<open>The nanoseconds handed to \<^verbatim>\<open>nanosleep\<close>, which rejects a \<^verbatim>\<open>tv_nsec\<close> of a second or more without sleeping.\<close>

definition response_delay_nsec :: "timer_config_t \<Rightarrow> nat \<Rightarrow> int" where
  "response_delay_nsec cfg r =
     (response_delay_min_ms cfg + int r smod (response_delay_max_ms cfg - response_delay_min_ms cfg + 1)) * 1000000"

definition nanosleep :: "int \<Rightarrow> int \<Rightarrow> int option" where
  "nanosleep sec nsec = (if sec < 0 \<or> nsec < 0 \<or> nsec > 999999999 then None else Some (sec * 1000000000 + nsec))"

definition random_response_delay :: "timer_config_t \<Rightarrow> nat \<Rightarrow> int option" where
  "random_response_delay cfg r = nanosleep 0 (response_delay_nsec cfg r)"

section \<open>The emergency detector\<close>

definition EMERGENCY_CODE_NONE :: int where "EMERGENCY_CODE_NONE = 0"
definition EMERGENCY_CODE_WEATHER :: int where "EMERGENCY_CODE_WEATHER = 2001"
definition EMERGENCY_CODE_INFECTION :: int where "EMERGENCY_CODE_INFECTION = 2002"
definition EMERGENCY_CODE_ENEMY_THREAT :: int where "EMERGENCY_CODE_ENEMY_THREAT = 2003"
definition SEVERITY_HIGH :: int where "SEVERITY_HIGH = 3"
definition SEVERITY_CRITICAL :: int where "SEVERITY_CRITICAL = 4"
definition DEFAULT_EMERGENCY_PROBABILITY :: int where "DEFAULT_EMERGENCY_PROBABILITY = 2"
definition EMERGENCY_TYPE_COUNT :: nat where "EMERGENCY_TYPE_COUNT = 3"

record emergency_result_t =
  emergency_code :: int
  emergency_type :: string
  severity :: int

definition evaluate_emergency :: "int option \<Rightarrow> nat \<Rightarrow> nat \<Rightarrow> emergency_result_t" where
  "evaluate_emergency config rand1 rand2 =
     (let none = \<lparr>emergency_code = EMERGENCY_CODE_NONE, emergency_type = '''', severity = 0\<rparr>;
          probability = (case config of Some p \<Rightarrow> p | None \<Rightarrow> DEFAULT_EMERGENCY_PROBABILITY);
          probability = (if probability < 0 then 0 else probability);
          probability = (if probability > 100 then 100 else probability);
          roll = rand1 mod 1000
      in if int roll \<ge> probability then none
         else let type_roll = rand2 mod EMERGENCY_TYPE_COUNT
              in if type_roll = 0
                 then \<lparr>emergency_code = EMERGENCY_CODE_WEATHER, emergency_type = ''WEATHER'', severity = SEVERITY_HIGH\<rparr>
                 else if type_roll = 1
                 then \<lparr>emergency_code = EMERGENCY_CODE_INFECTION, emergency_type = ''INFECTION'', severity = SEVERITY_CRITICAL\<rparr>
                 else \<lparr>emergency_code = EMERGENCY_CODE_ENEMY_THREAT, emergency_type = ''ENEMY_THREAT'', severity = SEVERITY_CRITICAL\<rparr>)"

lemmas emergency_defs = EMERGENCY_CODE_NONE_def EMERGENCY_CODE_WEATHER_def EMERGENCY_CODE_INFECTION_def
  EMERGENCY_CODE_ENEMY_THREAT_def SEVERITY_HIGH_def SEVERITY_CRITICAL_def DEFAULT_EMERGENCY_PROBABILITY_def
  EMERGENCY_TYPE_COUNT_def

section \<open>Every loaded configuration is usable\<close>

definition config_ok :: "timer_config_t \<Rightarrow> bool" where
  "config_ok c \<longleftrightarrow>
     (\<forall>x\<in>{inventory_update_interval_ms c, consume_stock_min_ms c, consume_stock_max_ms c, consume_min_amount c,
           consume_max_amount c, low_stock_threshold c, critical_stock_threshold c, max_stock_per_item c,
           emergency_check_interval_ms c, ack_check_interval_sec c, recv_timeout_sec c, loop_timeout_sec c,
           ack_timeout_ms c, max_retries c, response_delay_min_ms c, response_delay_max_ms c}. 0 < x \<and> x \<le> INT_MAX)
     \<and> consume_stock_min_ms c \<le> consume_stock_max_ms c
     \<and> response_delay_min_ms c \<le> response_delay_max_ms c
     \<and> consume_min_amount c \<le> consume_max_amount c"

lemma timer_config_ok: "config_ok timer_config"
  by (simp add: config_ok_def timer_config_def INT_MAX_def)

lemma parse_positive_env_range:
  "0 < fallback \<Longrightarrow> fallback \<le> INT_MAX
   \<Longrightarrow> 0 < parse_positive_env env key fallback \<and> parse_positive_env env key fallback \<le> INT_MAX"
  by (auto simp: parse_positive_env_def split: option.splits prod.splits)

text \<open>A variable that holds the decimal rendering of a positive \<^verbatim>\<open>int\<close> is taken as that number.\<close>

lemma parse_positive_env_reads:
  assumes "env key = Some (show_int n)" "0 < n" "n \<le> INT_MAX"
  shows "parse_positive_env env key fallback = n"
proof -
  have "strtol (show_int n) = (n, [], False)"
    by (rule strtol_show_int) (use assms in \<open>simp_all add: LONG_MIN_def LONG_MAX_def INT_MAX_def\<close>)
  moreover have "show_int n \<noteq> []" by (simp add: show_int_def)
  ultimately show ?thesis using assms by (simp add: parse_positive_env_def)
qed

lemma load_timer_config_ok: "config_ok c \<Longrightarrow> config_ok (load_timer_config env c)"
proof -
  assume "config_ok c"
  then have r: "\<forall>x\<in>{inventory_update_interval_ms d, consume_stock_min_ms d, consume_stock_max_ms d, consume_min_amount d,
           consume_max_amount d, low_stock_threshold d, critical_stock_threshold d, max_stock_per_item d,
           emergency_check_interval_ms d, ack_check_interval_sec d, recv_timeout_sec d, loop_timeout_sec d,
           ack_timeout_ms d, max_retries d, response_delay_min_ms d, response_delay_max_ms d}. 0 < x \<and> x \<le> INT_MAX"
    if "d = read_timer_config env c" for d
    unfolding that config_ok_def by (simp add: read_timer_config_def Let_def parse_positive_env_range)
  show ?thesis
    using r [OF refl] unfolding load_timer_config_def swap_limits_def config_ok_def by (auto simp: Let_def)
qed

lemma smod_range: "0 < m \<Longrightarrow> 0 \<le> int r smod m \<and> int r smod m < m"
  by (simp add: signed_modulo_int_def sgn_if)

text \<open>The seconds and nanoseconds of a one-shot timer are those of its milliseconds.\<close>

lemma ms_to_itimerspec_exact:
  assumes "0 \<le> ms"
  shows "value_sec (ms_to_itimerspec ms) * 1000000000 + value_nsec (ms_to_itimerspec ms) = ms * 1000000"
    and "0 \<le> value_nsec (ms_to_itimerspec ms) \<and> value_nsec (ms_to_itimerspec ms) < 1000000000"
proof -
  have e: "ms sdiv 1000 = ms div 1000" "ms smod 1000 = ms mod 1000"
    using assms by (simp_all add: signed_divide_int_def signed_modulo_int_def sgn_if)
  show "value_sec (ms_to_itimerspec ms) * 1000000000 + value_nsec (ms_to_itimerspec ms) = ms * 1000000"
    using mult_div_mod_eq [of 1000 ms] unfolding ms_to_itimerspec_def e timer_spec.simps by linarith
  show "0 \<le> value_nsec (ms_to_itimerspec ms) \<and> value_nsec (ms_to_itimerspec ms) < 1000000000"
    using pos_mod_bound [of 1000 ms] by (simp add: ms_to_itimerspec_def e)
qed

text \<open>C31: Whatever the environment holds, the configuration the client loads has only positive values that
  fit an \<^verbatim>\<open>int\<close> and limits in order, so that every random draw stays within its limits: consumption
  intervals and amounts between their configured minimum and maximum, the phase of a periodic timer between
  half its interval (at least 1 ms) and the interval.\<close>

theorem loaded_draws_within_limits:
  "let cfg = load_timer_config env timer_config in
     config_ok cfg
    \<and> get_random_consume_interval cfg r \<in> {consume_stock_min_ms cfg .. consume_stock_max_ms cfg}
    \<and> get_random_consume_amount cfg r \<in> {consume_min_amount cfg .. consume_max_amount cfg}
    \<and> get_random_phase_offset (inventory_update_interval_ms cfg) r
        \<in> {max 1 (inventory_update_interval_ms cfg div 2) .. inventory_update_interval_ms cfg}
    \<and> get_random_phase_offset (emergency_check_interval_ms cfg) r
        \<in> {max 1 (emergency_check_interval_ms cfg div 2) .. emergency_check_interval_ms cfg}"
proof -
  define cfg where "cfg = load_timer_config env timer_config"
  have ok: "config_ok cfg" unfolding cfg_def by (rule load_timer_config_ok [OF timer_config_ok])
  have phase: "get_random_phase_offset i r \<in> {max 1 (i div 2) .. i}" if "0 < i" for i
  proof -
    have e: "i sdiv 2 = i div 2" using that by (simp add: signed_divide_int_def sgn_if)
    define m where "m = (if i div 2 \<le> 0 then 1 else i div 2)"
    have m: "m = max 1 (i div 2)" "m \<le> i" using that by (auto simp: m_def)
    have "get_random_phase_offset i r = m + int r smod (i - m + 1)"
      by (simp add: get_random_phase_offset_def Let_def e m_def)
    then show ?thesis using smod_range [of "i - m + 1" r] m by simp
  qed
  have "0 < inventory_update_interval_ms cfg" "0 < emergency_check_interval_ms cfg"
    using ok by (simp_all add: config_ok_def)
  then show ?thesis
    using ok phase smod_range [of "consume_stock_max_ms cfg - consume_stock_min_ms cfg + 1" r]
      smod_range [of "consume_max_amount cfg - consume_min_amount cfg + 1" r]
    unfolding Let_def cfg_def [symmetric]
    by (simp add: config_ok_def get_random_consume_interval_def get_random_consume_amount_def)
qed

section \<open>How likely an emergency is\<close>

text \<open>
  Of the thousand equally likely rolls exactly as many raise an emergency as the configured number, so that a
  \<^verbatim>\<open>probability_percent\<close> of 2 is a chance of 2 in 1000.
\<close>

theorem emergency_rate_per_mille:
  "card {roll. roll < 1000 \<and> emergency_code (evaluate_emergency (Some p) roll rand2) \<noteq> EMERGENCY_CODE_NONE}
   = nat (min 100 p)"
proof -
  have "roll < 1000 \<and> emergency_code (evaluate_emergency (Some p) roll rand2) \<noteq> EMERGENCY_CODE_NONE
      \<longleftrightarrow> roll < nat (min 100 p)" for roll
  proof (cases "roll < 1000")
    case True
    then show ?thesis by (auto simp: evaluate_emergency_def Let_def emergency_defs)
  qed auto
  then have "{roll. roll < 1000 \<and> emergency_code (evaluate_emergency (Some p) roll rand2) \<noteq> EMERGENCY_CODE_NONE}
    = {..<nat (min 100 p)}"
    by (simp only: lessThan_def)
  then show ?thesis by simp
qed

text \<open>A configured response delay of a second or more is not slept at all.\<close>

theorem long_response_delay_skipped:
  assumes "config_ok cfg" "1000 \<le> response_delay_min_ms cfg"
  shows "random_response_delay cfg r = None"
proof -
  have "0 \<le> int r smod (response_delay_max_ms cfg - response_delay_min_ms cfg + 1)"
    using smod_range [of "response_delay_max_ms cfg - response_delay_min_ms cfg + 1" r] assms by (simp add: config_ok_def)
  then show ?thesis using assms by (simp add: random_response_delay_def nanosleep_def response_delay_nsec_def)
qed

end
