(* ===== verification/Client_State.thy ===== *)
theory Client_State
  imports Json_Manager Client_Timers
begin

text \<open>
  The state the client's process and threads share (\<^verbatim>\<open>include/client/shared_state.h\<close>,
  \<^verbatim>\<open>src/client/shared_state.c\<close>): the inventory, the queue of messages to send, the table of messages whose
  acknowledgement is outstanding. Every operation holds \<^verbatim>\<open>inventory_sem\<close> while it touches the state, so each is
  one function on the state record; \<^verbatim>\<open>message_available_sem\<close> is a counter of that record. Readings of the
  clocks are arguments, \<open>None\<close> being a failed call. Quantities are integers; a sum that leaves the range of
  \<^verbatim>\<open>int\<close>, undefined in C, is not represented.
\<close>

section \<open>State\<close>

definition MAX_PENDING_ACKS :: nat where "MAX_PENDING_ACKS = 10"
definition MAX_PENDING_MESSAGES :: nat where "MAX_PENDING_MESSAGES = 10"
definition IPC_NAME_BUFFER_SIZE :: nat where "IPC_NAME_BUFFER_SIZE = 64"

record timespec =
  ts_sec :: int
  ts_nsec :: int

record pending_ack_t =
  pa_send_time :: timespec
  pa_msg_id :: string
  pa_msg_type :: string
  pa_message_json :: string
  pa_retry_count :: int
  pa_active :: bool

record shared_data_t =
  client_role :: string
  client_id :: string
  inventory_item :: "inventory_item_t list"
  pending_stock_request :: "bool list"
  pending_messages :: "string list"
  message_count :: nat
  pending_acks :: "pending_ack_t list"
  ack_timeout_occurred :: bool
  inventory_updated :: bool
  emergency_active :: bool
  should_exit :: bool
  message_available_sem :: nat

definition elapsed_ms :: "timespec \<Rightarrow> timespec \<Rightarrow> int" where
  "elapsed_ms start stop =
     (ts_sec stop - ts_sec start) * 1000 + (ts_nsec stop - ts_nsec start) sdiv 1000000"

section \<open>Setting up and releasing the segment\<close>

definition client_item_names :: "string list" where
  "client_item_names = [''food'', ''water'', ''medicine'', ''tools'', ''guns'', ''ammo'']"

definition initial_inventory :: "inventory_item_t list" where
  "initial_inventory =
     map (\<lambda>i. \<lparr>item_id = int i + 1, item_name = strncpy_field ITEM_NAME_SIZE (client_item_names ! i), quantity = 0\<rparr>) [0..<QUANTITY_ITEMS]"

definition zero_ack :: pending_ack_t where
  "zero_ack = \<lparr>pa_send_time = \<lparr>ts_sec = 0, ts_nsec = 0\<rparr>, pa_msg_id = '''', pa_msg_type = '''', pa_message_json = '''',
     pa_retry_count = 0, pa_active = False\<rparr>"

text \<open>The zeroed segment with the item names filled in, and the message semaphore at zero.\<close>

definition fresh_shared_data :: shared_data_t where
  "fresh_shared_data =
     \<lparr>client_role = '''', client_id = '''', inventory_item = initial_inventory,
      pending_stock_request = replicate QUANTITY_ITEMS False,
      pending_messages = replicate MAX_PENDING_MESSAGES '''', message_count = 0,
      pending_acks = replicate MAX_PENDING_ACKS zero_ack, ack_timeout_occurred = False, inventory_updated = False,
      emergency_active = False, should_exit = False, message_available_sem = 0\<rparr>"

text \<open>Which system calls succeed, and what the process holds: descriptor and name of the segment, mapping, semaphores.\<close>

record ipc_calls =
  shm_open_ok :: bool
  ftruncate_ok :: bool
  mmap_ok :: bool
  inventory_sem_ok :: bool
  message_sem_ok :: bool

record ipc_handles =
  shm_name :: string
  inventory_sem_name :: string
  message_sem_name :: string
  shm_fd_open :: bool
  shared_mapped :: bool
  inventory_sem_open :: bool
  message_sem_open :: bool

definition no_handles :: ipc_handles where
  "no_handles = \<lparr>shm_name = '''', inventory_sem_name = '''', message_sem_name = '''', shm_fd_open = False,
     shared_mapped = False, inventory_sem_open = False, message_sem_open = False\<rparr>"

definition ipc_init :: "ipc_calls \<Rightarrow> string \<Rightarrow> ipc_handles \<Rightarrow> shared_data_t option \<times> ipc_handles" where
  "ipc_init calls cid h =
     (if cid = '''' then (None, h)
      else
        let h = h\<lparr>shm_name := snprintf IPC_NAME_BUFFER_SIZE (''/dhl_client_shm_'' @ cid),
                  inventory_sem_name := snprintf IPC_NAME_BUFFER_SIZE (''/dhl_inventory_sem_'' @ cid),
                  message_sem_name := snprintf IPC_NAME_BUFFER_SIZE (''/dhl_msg_available_sem_'' @ cid)\<rparr> in
        if \<not> shm_open_ok calls then (None, h)
        else let h = h\<lparr>shm_fd_open := True\<rparr> in
        if \<not> ftruncate_ok calls then (None, h)
        else if \<not> mmap_ok calls then (None, h)
        else let h = h\<lparr>shared_mapped := True\<rparr> in
        if \<not> inventory_sem_ok calls then (None, h)
        else let h = h\<lparr>inventory_sem_open := True\<rparr> in
        if \<not> message_sem_ok calls then (None, h)
        else (Some fresh_shared_data, h\<lparr>message_sem_open := True\<rparr>))"

definition ipc_cleanup :: "ipc_handles \<Rightarrow> ipc_handles" where
  "ipc_cleanup h = h\<lparr>shared_mapped := False, shm_fd_open := False, inventory_sem_open := False, message_sem_open := False\<rparr>"

section \<open>The queue of messages to send\<close>

definition has_pending_messages :: "shared_data_t \<Rightarrow> bool" where
  "has_pending_messages d \<longleftrightarrow> message_count d > 0"

definition enqueue_pending_message_json :: "string \<Rightarrow> shared_data_t \<Rightarrow> int \<times> shared_data_t" where
  "enqueue_pending_message_json json_message d =
     (if message_count d \<ge> MAX_PENDING_MESSAGES then (- 1, d)
      else (0, d\<lparr>pending_messages := (pending_messages d)[message_count d := strncpy_field BUFFER_SIZE json_message],
                 message_count := message_count d + 1,
                 message_available_sem := message_available_sem d + 1\<rparr>))"

definition enqueue_pending_message :: "'j cjson \<Rightarrow> message_t \<Rightarrow> shared_data_t \<Rightarrow> int \<times> shared_data_t" where
  "enqueue_pending_message cj msg d =
     (if message_count d \<ge> MAX_PENDING_MESSAGES then (- 1, d)
      else case serialize_message_to_json cj msg of
             Inl _ \<Rightarrow> (- 1, d)
           | Inr json_buffer \<Rightarrow>
               (0, d\<lparr>pending_messages := (pending_messages d)[message_count d := strncpy_field BUFFER_SIZE json_buffer],
                     message_count := message_count d + 1,
                     message_available_sem := message_available_sem d + 1\<rparr>))"

text \<open>
  The popped text is copied with \<^verbatim>\<open>strncpy\<close> into a buffer on the stack that is not initialised: 1023 bytes are
  written, padded with NUL, and what follows is whatever the stack holds (\<open>stack\<close>).
\<close>

definition shift_down :: "nat \<Rightarrow> string list \<Rightarrow> string list" where
  "shift_down count m = fold (\<lambda>i m. m[i := m ! (i + 1)]) [0..<count - 1] m"

definition pop_text :: "string \<Rightarrow> string \<Rightarrow> string" where
  "pop_text stack msg =
     (let t = take (BUFFER_SIZE - 1) msg in c_str (t @ replicate (BUFFER_SIZE - 1 - length t) NUL @ stack))"

definition pop_pending_message :: "'j cjson \<Rightarrow> string \<Rightarrow> shared_data_t \<Rightarrow> (int + message_t) \<times> shared_data_t" where
  "pop_pending_message cj stack d =
     (if message_count d = 0 then (Inl (- 1), d)
      else let json_buffer = pop_text stack (pending_messages d ! 0);
               d = d\<lparr>pending_messages := shift_down (message_count d) (pending_messages d),
                     message_count := message_count d - 1\<rparr>
           in (deserialize_message_from_json cj json_buffer, d))"

text \<open>
  \<^verbatim>\<open>sem_timedwait\<close> takes the semaphore at once when it is positive; otherwise it may end with a timeout, an
  interruption or another error, or go on waiting until a later call finds the semaphore positive.
\<close>

datatype wait_result = Wait_timeout | Wait_interrupted | Wait_failed

definition wait_for_message :: "bool \<Rightarrow> wait_result \<Rightarrow> shared_data_t \<Rightarrow> int \<times> shared_data_t" where
  "wait_for_message clock_ok r d =
     (if \<not> clock_ok then (- 1, d)
      else if message_available_sem d > 0 then (0, d\<lparr>message_available_sem := message_available_sem d - 1\<rparr>)
      else if r = Wait_timeout \<or> r = Wait_interrupted then (1, d)
      else (- 1, d))"

definition wake_sender_thread :: "shared_data_t \<Rightarrow> shared_data_t" where
  "wake_sender_thread d = d\<lparr>message_available_sem := message_available_sem d + 1\<rparr>"

section \<open>The inventory\<close>

text \<open>A loop that changes the first element that matches and breaks.\<close>

fun update_first :: "('a \<Rightarrow> bool) \<Rightarrow> ('a \<Rightarrow> 'a) \<Rightarrow> 'a list \<Rightarrow> 'a list" where
  "update_first P f [] = []"
| "update_first P f (x # xs) = (if P x then f x # xs else x # update_first P f xs)"

datatype inventory_operation_t = INVENTORY_ADD | INVENTORY_REDUCE

definition modify_item :: "inventory_operation_t \<Rightarrow> inventory_item_t \<Rightarrow> inventory_item_t list \<Rightarrow> inventory_item_t list" where
  "modify_item op it inventory =
     (if item_id it = 0 \<or> quantity it = 0 then inventory
      else update_first (\<lambda>s. item_id s = item_id it)
        (\<lambda>s. case op of
               INVENTORY_ADD \<Rightarrow> s\<lparr>quantity := quantity s + quantity it\<rparr>
             | INVENTORY_REDUCE \<Rightarrow>
                 (let requested_qty = quantity it; available_qty = quantity s;
                      actual_qty = (if requested_qty \<le> available_qty then requested_qty else available_qty)
                  in s\<lparr>quantity := quantity s - actual_qty\<rparr>)) inventory)"

definition modify_inventory :: "inventory_item_t list \<Rightarrow> inventory_operation_t \<Rightarrow> shared_data_t \<Rightarrow> int \<times> shared_data_t" where
  "modify_inventory its op d =
     (0, d\<lparr>inventory_item := fold (modify_item op) (take QUANTITY_ITEMS its) (inventory_item d), inventory_updated := True\<rparr>)"

definition get_inventory_count :: "int \<Rightarrow> shared_data_t \<Rightarrow> int" where
  "get_inventory_count k d =
     (case find (\<lambda>s. item_id s = k) (inventory_item d) of Some s \<Rightarrow> quantity s | None \<Rightarrow> - 1)"

definition get_inventory_snapshot :: "shared_data_t \<Rightarrow> inventory_item_t list" where
  "get_inventory_snapshot d =
     map (\<lambda>s. \<lparr>item_id = item_id s, item_name = strncpy_field ITEM_NAME_SIZE (item_name s), quantity = quantity s\<rparr>) (inventory_item d)"

definition count_items_above_threshold :: "int \<Rightarrow> shared_data_t \<Rightarrow> nat" where
  "count_items_above_threshold threshold d = length (filter (\<lambda>s. quantity s \<ge> threshold) (inventory_item d))"

text \<open>Low items with the amount to request, their positions, and the number of critically low items.\<close>

definition get_low_stock_report :: "int \<Rightarrow> int \<Rightarrow> int \<Rightarrow> shared_data_t \<Rightarrow> inventory_item_t list \<times> nat list \<times> nat" where
  "get_low_stock_report low_threshold critical_threshold max_stock d =
     (let inventory = inventory_item d;
          idx = filter (\<lambda>i. quantity (inventory ! i) < low_threshold \<and> \<not> pending_stock_request d ! i) [0..<QUANTITY_ITEMS];
          low = map (\<lambda>i. let s = inventory ! i; needed = max_stock - quantity s
                         in \<lparr>item_id = item_id s, item_name = strncpy_field ITEM_NAME_SIZE (item_name s),
                             quantity = (if needed > 0 then needed else 0)\<rparr>) idx
      in (low, idx, length (filter (\<lambda>i. quantity (inventory ! i) < critical_threshold) [0..<QUANTITY_ITEMS])))"

definition build_full_request_payload :: "inventory_item_t list \<Rightarrow> shared_data_t \<Rightarrow> inventory_item_t list" where
  "build_full_request_payload low_items d =
     fold (\<lambda>low. update_first (\<lambda>s. item_id s = item_id low) (\<lambda>s. s\<lparr>quantity := quantity low\<rparr>)) low_items
       (map (\<lambda>s. s\<lparr>quantity := 0\<rparr>) (get_inventory_snapshot d))"

definition mark_pending_stock_requests :: "nat list \<Rightarrow> shared_data_t \<Rightarrow> shared_data_t" where
  "mark_pending_stock_requests item_indices d =
     d\<lparr>pending_stock_request :=
         fold (\<lambda>idx p. if idx \<ge> QUANTITY_ITEMS then p else p[idx := True]) item_indices (pending_stock_request d)\<rparr>"

definition clear_pending_stock_requests :: "inventory_item_t list \<Rightarrow> shared_data_t \<Rightarrow> shared_data_t" where
  "clear_pending_stock_requests its d =
     d\<lparr>pending_stock_request :=
         fold (\<lambda>it p. if quantity it \<le> 0 then p
                      else let item_index = item_id it - 1
                           in if item_index < 0 \<or> item_index \<ge> int QUANTITY_ITEMS then p else p[nat item_index := False])
           its (pending_stock_request d)\<rparr>"

section \<open>Outstanding acknowledgements\<close>

definition collect_retryable_messages :: "nat \<Rightarrow> shared_data_t \<Rightarrow> string list" where
  "collect_retryable_messages max_count d =
     take max_count (map (\<lambda>a. strncpy_field BUFFER_SIZE (pa_message_json a))
       (filter (\<lambda>a. pa_active a \<and> pa_retry_count a > 0) (pending_acks d)))"

definition add_pending_ack :: "timespec option \<Rightarrow> string \<Rightarrow> string \<Rightarrow> string \<Rightarrow> shared_data_t \<Rightarrow> int \<times> shared_data_t" where
  "add_pending_ack clock msg_id mtype message_json d =
     (case clock of
        None \<Rightarrow> (- 1, d)
      | Some now \<Rightarrow>
          let same = (\<lambda>a. pa_active a \<and> pa_msg_id a = msg_id \<and> pa_msg_type a = mtype) in
          if list_ex same (pending_acks d)
          then (0, d\<lparr>pending_acks := update_first same (\<lambda>a. a\<lparr>pa_send_time := now\<rparr>) (pending_acks d)\<rparr>)
          else if list_ex (\<lambda>a. \<not> pa_active a) (pending_acks d)
          then (0, d\<lparr>pending_acks := update_first (\<lambda>a. \<not> pa_active a)
                      (\<lambda>a. \<lparr>pa_send_time = now, pa_msg_id = strncpy_field TIMESTAMP_SIZE msg_id,
                            pa_msg_type = strncpy_field MESSAGE_TYPE_SIZE mtype,
                            pa_message_json = strncpy_field BUFFER_SIZE message_json,
                            pa_retry_count = 0, pa_active = True\<rparr>) (pending_acks d)\<rparr>)
          else (- 1, d))"

definition remove_pending_ack :: "string \<Rightarrow> shared_data_t \<Rightarrow> int \<times> shared_data_t" where
  "remove_pending_ack msg_id d =
     (let same = (\<lambda>a. pa_active a \<and> pa_msg_id a = msg_id) in
      if list_ex same (pending_acks d)
      then (0, d\<lparr>pending_acks := update_first same (\<lambda>a. a\<lparr>pa_active := False\<rparr>) (pending_acks d)\<rparr>)
      else (- 1, d))"

text \<open>
  The scan of \<^verbatim>\<open>check_ack_timeouts\<close>: the new table, and \<open>None\<close> when a message reached the maximal number of
  retries (the scan stops there), else whether some message must be sent again.
\<close>

fun scan_acks :: "timer_config_t \<Rightarrow> timespec \<Rightarrow> pending_ack_t list \<Rightarrow> bool option \<times> pending_ack_t list" where
  "scan_acks cfg now [] = (Some False, [])"
| "scan_acks cfg now (a # as) =
     (if pa_active a \<and> elapsed_ms (pa_send_time a) now \<ge> ack_timeout_ms cfg
      then let a = a\<lparr>pa_retry_count := pa_retry_count a + 1\<rparr>
           in if pa_retry_count a \<ge> max_retries cfg then (None, a # as)
              else let a = a\<lparr>pa_send_time := now\<rparr>
                   in case scan_acks cfg now as of (r, as') \<Rightarrow> (map_option (\<lambda>_. True) r, a # as')
      else case scan_acks cfg now as of (r, as') \<Rightarrow> (r, a # as'))"

definition check_ack_timeouts :: "timer_config_t \<Rightarrow> timespec option \<Rightarrow> shared_data_t \<Rightarrow> int \<times> shared_data_t" where
  "check_ack_timeouts cfg clock d =
     (case clock of
        None \<Rightarrow> (- 1, d)
      | Some now \<Rightarrow>
          case scan_acks cfg now (pending_acks d) of
            (None, as) \<Rightarrow> (- 1, d\<lparr>pending_acks := as, ack_timeout_occurred := True\<rparr>)
          | (Some needs, as) \<Rightarrow> (if needs then 1 else 0, d\<lparr>pending_acks := as\<rparr>))"

section \<open>The queue is a bounded FIFO\<close>

definition queued :: "shared_data_t \<Rightarrow> string list" where
  "queued d = take (message_count d) (pending_messages d)"

definition queue_ok :: "shared_data_t \<Rightarrow> bool" where
  "queue_ok d \<longleftrightarrow> length (pending_messages d) = MAX_PENDING_MESSAGES \<and> message_count d \<le> MAX_PENDING_MESSAGES
     \<and> (\<forall>t\<in>set (pending_messages d). fits BUFFER_SIZE t)"

lemma length_shift_down [simp]: "length (shift_down n m) = length m"
proof -
  have "length (fold (\<lambda>i m. m[i := m ! (i + 1)]) is m) = length m" for "is" and m :: "string list"
    by (induction "is" arbitrary: m) simp_all
  then show ?thesis by (simp add: shift_down_def)
qed

lemma nth_shift_loop:
  "k < length m \<Longrightarrow> j < length m
   \<Longrightarrow> fold (\<lambda>i m. m[i := m ! (i + 1)]) [0..<k] m ! j = (if j < k then m ! (j + 1) else (m :: string list) ! j)"
proof (induction k arbitrary: j)
  case (Suc k)
  define f where "f = (\<lambda>i (m :: string list). m[i := m ! (i + 1)])"
  define m' where "m' = fold f [0..<k] m"
  have l: "length m' = length m" using length_shift_down [of "k + 1" m] by (simp add: m'_def f_def shift_down_def)
  have ih: "m' ! i = (if i < k then m ! (i + 1) else m ! i)" if "i < length m" for i
    using Suc that by (simp add: m'_def f_def)
  have "fold f [0..<Suc k] m = m'[k := m' ! (k + 1)]" by (simp add: m'_def f_def)
  then show ?case using Suc.prems ih l unfolding f_def by (auto simp: nth_list_update)
qed simp

lemma take_shift_down:
  assumes "0 < n" "n \<le> length m"
  shows "take (n - 1) (shift_down n m) = tl (take n m)"
proof (rule nth_equalityI)
  fix i assume "i < length (take (n - 1) (shift_down n m))"
  then have i: "i < n - 1" by simp
  with assms have "shift_down n m ! i = m ! (i + 1)"
    using nth_shift_loop [of "n - 1" m i] by (simp add: shift_down_def)
  with i assms show "take (n - 1) (shift_down n m) ! i = tl (take n m) ! i" by (simp add: nth_tl)
qed (use assms in simp)

lemma set_shift_down: "n \<le> length m \<Longrightarrow> set (shift_down n m) \<subseteq> set m"
proof
  fix x assume n: "n \<le> length m" and "x \<in> set (shift_down n m)"
  then obtain j where j: "j < length m" "x = shift_down n m ! j" by (auto simp: in_set_conv_nth)
  show "x \<in> set m"
  proof (cases "n = 0")
    case True
    with j show ?thesis by (simp add: shift_down_def)
  next
    case False
    with n j nth_shift_loop [of "n - 1" m j] have "x = (if j < n - 1 then m ! (j + 1) else m ! j)"
      by (simp add: shift_down_def)
    moreover have "(if j < n - 1 then m ! (j + 1) else m ! j) \<in> set m" using j n by (auto intro!: nth_mem)
    ultimately show ?thesis by (simp only:)
  qed
qed

text \<open>A queued text is terminated inside its slot; unless it fills the slot, popping it ignores the stack.\<close>

lemma pop_text_short: "NUL \<notin> set t \<Longrightarrow> length t < BUFFER_SIZE - 1 \<Longrightarrow> pop_text stack t = t"
proof -
  assume t: "NUL \<notin> set t" "length t < BUFFER_SIZE - 1"
  then obtain n where "BUFFER_SIZE - 1 - length t = Suc n" by (cases "BUFFER_SIZE - 1 - length t") auto
  then have "t @ replicate (BUFFER_SIZE - 1 - length t) NUL @ stack = t @ NUL # (replicate n NUL @ stack)" by simp
  then show ?thesis using t c_str_append_NUL [of t] by (simp add: pop_text_def Let_def)
qed

lemma enqueue_json_room:
  assumes "queue_ok d" "message_count d < MAX_PENDING_MESSAGES"
  shows "\<exists>d'. enqueue_pending_message_json t d = (0, d') \<and> queued d' = queued d @ [strncpy_field BUFFER_SIZE t]
    \<and> queue_ok d' \<and> message_available_sem d' = message_available_sem d + 1"
  using assms strncpy_field_fits [of BUFFER_SIZE t]
  by (auto simp: enqueue_pending_message_json_def queued_def queue_ok_def take_Suc_conv_app_nth nth_list_update
      BUFFER_SIZE_def dest!: subsetD [OF set_update_subset_insert])

text \<open>A message of the client is queued as its text.\<close>

lemma enqueue_message:
  "enqueue_pending_message cj msg d =
     (case serialize_message_to_json cj msg of Inl _ \<Rightarrow> (- 1, d) | Inr t \<Rightarrow> enqueue_pending_message_json t d)"
  by (auto simp: enqueue_pending_message_def enqueue_pending_message_json_def split: sum.splits)

lemma pop_first:
  assumes "queue_ok d" "queued d = t # ts"
  shows "fst (pop_pending_message cj stack d) = deserialize_message_from_json cj (pop_text stack t)"
    and "queued (snd (pop_pending_message cj stack d)) = ts"
    and "queue_ok (snd (pop_pending_message cj stack d))"
proof -
  have c: "0 < message_count d" "message_count d \<le> length (pending_messages d)"
    using assms by (auto simp: queued_def queue_ok_def intro: Nat.gr0I)
  then have t: "pending_messages d ! 0 = t" using assms(2) unfolding queued_def
    by (metis nth_Cons_0 nth_take)
  show "fst (pop_pending_message cj stack d) = deserialize_message_from_json cj (pop_text stack t)"
    using c t by (simp add: pop_pending_message_def Let_def)
  show "queued (snd (pop_pending_message cj stack d)) = ts"
    using c assms(2) take_shift_down [of "message_count d" "pending_messages d"]
    by (simp add: pop_pending_message_def Let_def queued_def)
  show "queue_ok (snd (pop_pending_message cj stack d))"
    using c assms(1) set_shift_down [of "message_count d" "pending_messages d"]
    by (auto simp: pop_pending_message_def Let_def queue_ok_def)
qed

section \<open>Stock levels\<close>

lemma find_update_first:
  assumes "\<And>s. item_id (f s) = item_id s"
  shows "find (\<lambda>s. item_id s = k) (update_first (\<lambda>s. item_id s = j) f xs) =
    (if k = j then map_option f (find (\<lambda>s. item_id s = k) xs) else find (\<lambda>s. item_id s = k) xs)"
  by (induction xs) (auto simp: assms)

lemma ids_update_first:
  "(\<And>s. item_id (f s) = item_id s) \<Longrightarrow> map item_id (update_first P f xs) = map item_id xs"
  by (induction xs) auto

lemma set_update_first: "set (update_first P f xs) \<subseteq> set xs \<union> f ` {x \<in> set xs. P x}"
  by (induction xs) auto

lemma length_update_first [simp]: "length (update_first P f xs) = length xs"
  by (induction xs) auto

definition level :: "inventory_item_t list \<Rightarrow> int \<Rightarrow> int option" where
  "level inventory k = map_option quantity (find (\<lambda>s. item_id s = k) inventory)"

text \<open>What a list of items asks for of one article.\<close>

definition amount :: "inventory_item_t list \<Rightarrow> int \<Rightarrow> int" where
  "amount its k = sum_list (map quantity (filter (\<lambda>it. item_id it = k) its))"

definition no_negative :: "inventory_item_t list \<Rightarrow> bool" where
  "no_negative its \<longleftrightarrow> (\<forall>it\<in>set its. 0 \<le> quantity it)"

lemma level_modify_item:
  "level (modify_item op it inventory) k =
     (if k = item_id it \<and> k \<noteq> 0 then map_option (\<lambda>q. case op of INVENTORY_ADD \<Rightarrow> q + quantity it
                                             | INVENTORY_REDUCE \<Rightarrow> if quantity it = 0 then q else q - min (quantity it) q) (level inventory k)
      else level inventory k)"
proof (cases "item_id it = 0 \<or> quantity it = 0")
  case True
  then show ?thesis
    by (cases op; cases "find (\<lambda>s. item_id s = k) inventory") (auto simp: modify_item_def level_def)
next
  case False
  define f where "f = (\<lambda>s :: inventory_item_t. case op of
       INVENTORY_ADD \<Rightarrow> s\<lparr>quantity := quantity s + quantity it\<rparr>
     | INVENTORY_REDUCE \<Rightarrow>
         (let requested_qty = quantity it; available_qty = quantity s;
              actual_qty = (if requested_qty \<le> available_qty then requested_qty else available_qty)
          in s\<lparr>quantity := quantity s - actual_qty\<rparr>))"
  have f: "item_id (f s) = item_id s" "quantity (f s) = (case op of INVENTORY_ADD \<Rightarrow> quantity s + quantity it
      | INVENTORY_REDUCE \<Rightarrow> if quantity it = 0 then quantity s else quantity s - min (quantity it) (quantity s))" for s
    using False by (simp_all add: f_def Let_def min_def split: inventory_operation_t.splits)
  have "modify_item op it inventory = update_first (\<lambda>s. item_id s = item_id it) f inventory"
    using False by (simp add: modify_item_def f_def)
  then show ?thesis
    using False by (simp add: level_def find_update_first f option.map_comp o_def)
qed

lemma level_fold_add:
  "k \<noteq> 0 \<Longrightarrow> level (fold (modify_item INVENTORY_ADD) its inventory) k = map_option (\<lambda>q. q + amount its k) (level inventory k)"
  by (induction its arbitrary: inventory)
     (auto simp: amount_def level_modify_item option.map_comp o_def option.map_ident algebra_simps)

lemma level_fold_reduce:
  assumes "no_negative its" "k \<noteq> 0" "level inventory k = Some q" "0 \<le> q"
  shows "level (fold (modify_item INVENTORY_REDUCE) its inventory) k = Some (max 0 (q - amount its k))"
  using assms
proof (induction its arbitrary: inventory q)
  case Nil
  then show ?case by (simp add: amount_def)
next
  case (Cons it its)
  have n: "0 \<le> amount its k" using Cons.prems(1) unfolding amount_def no_negative_def
    by (intro sum_list_nonneg) auto
  have l: "level (modify_item INVENTORY_REDUCE it inventory) k = Some (if k = item_id it then q - min (quantity it) q else q)"
    using Cons.prems by (auto simp: level_modify_item no_negative_def min_def)
  have "0 \<le> (if k = item_id it then q - min (quantity it) q else q)" using Cons.prems by simp
  from Cons.IH [OF _ _ l this] Cons.prems n show ?case
    by (auto simp: no_negative_def amount_def)
qed

lemma no_negative_modify:
  assumes "no_negative inventory" "no_negative its"
  shows "no_negative (fold (modify_item op) its inventory)"
  using assms
proof (induction its arbitrary: inventory)
  case (Cons it its)
  have "no_negative (modify_item op it inventory)"
    using Cons.prems unfolding no_negative_def modify_item_def
    by (auto simp: Let_def split: inventory_operation_t.splits if_splits dest!: subsetD [OF set_update_first])
  moreover have "no_negative its" using Cons.prems(2) by (simp add: no_negative_def)
  ultimately show ?case using Cons.IH [of "modify_item op it inventory"] by simp
qed simp

lemma ids_modify [simp]: "map item_id (fold (modify_item op) its inventory) = map item_id inventory"
proof (induction its arbitrary: inventory)
  case (Cons it its)
  have "map item_id (modify_item op it inventory) = map item_id inventory"
    unfolding modify_item_def by (auto simp: Let_def intro!: ids_update_first split: inventory_operation_t.splits)
  with Cons show ?case by simp
qed simp

section \<open>The table of outstanding acknowledgements\<close>

definition due :: "timer_config_t \<Rightarrow> timespec \<Rightarrow> pending_ack_t \<Rightarrow> bool" where
  "due cfg now a \<longleftrightarrow> pa_active a \<and> elapsed_ms (pa_send_time a) now \<ge> ack_timeout_ms cfg"

definition retried :: "timespec \<Rightarrow> pending_ack_t \<Rightarrow> pending_ack_t" where
  "retried now a = a\<lparr>pa_retry_count := pa_retry_count a + 1, pa_send_time := now\<rparr>"

definition exhausted :: "timer_config_t \<Rightarrow> timespec \<Rightarrow> pending_ack_t \<Rightarrow> bool" where
  "exhausted cfg now a \<longleftrightarrow> due cfg now a \<and> pa_retry_count a + 1 \<ge> max_retries cfg"

lemma scan_acks_fails: "fst (scan_acks cfg now as) = None \<longleftrightarrow> (\<exists>a\<in>set as. exhausted cfg now a)"
  by (induction as) (auto simp: due_def exhausted_def Let_def split: prod.splits)

lemma scan_acks_goes_on:
  assumes "\<not> (\<exists>a\<in>set as. exhausted cfg now a)"
  shows "scan_acks cfg now as =
    (Some (\<exists>a\<in>set as. due cfg now a), map (\<lambda>a. if due cfg now a then retried now a else a) as)"
  using assms by (induction as) (auto simp: due_def exhausted_def retried_def Let_def)

text \<open>Two active entries never stand for the same message.\<close>

definition ack_key_of :: "pending_ack_t \<Rightarrow> string \<times> string" where
  "ack_key_of a = (pa_msg_id a, pa_msg_type a)"

definition acks_ok :: "shared_data_t \<Rightarrow> bool" where
  "acks_ok d \<longleftrightarrow> length (pending_acks d) = MAX_PENDING_ACKS
     \<and> distinct (map ack_key_of (filter pa_active (pending_acks d)))
     \<and> (\<forall>a\<in>set (pending_acks d). fits TIMESTAMP_SIZE (pa_msg_id a) \<and> fits MESSAGE_TYPE_SIZE (pa_msg_type a)
          \<and> fits BUFFER_SIZE (pa_message_json a))"

text \<open>The scan keeps which messages are outstanding.\<close>

lemma scan_acks_keeps:
  "list_all2 (\<lambda>a b. ack_key_of b = ack_key_of a \<and> pa_active b = pa_active a \<and> pa_message_json b = pa_message_json a)
     as (snd (scan_acks cfg now as))"
  by (induction as) (auto simp: ack_key_of_def Let_def list_all2_same split: prod.splits)

lemma keys_list_all2:
  "list_all2 (\<lambda>a b. ack_key_of b = ack_key_of a \<and> pa_active b = pa_active a \<and> pa_message_json b = pa_message_json a) as bs
   \<Longrightarrow> map ack_key_of (filter pa_active bs) = map ack_key_of (filter pa_active as)"
  by (induction rule: list_all2_induct) auto

lemma keys_deactivate:
  "set (map ack_key_of (filter pa_active (update_first P (\<lambda>a. a\<lparr>pa_active := False\<rparr>) as)))
     \<subseteq> set (map ack_key_of (filter pa_active as))
   \<and> (distinct (map ack_key_of (filter pa_active as))
      \<longrightarrow> distinct (map ack_key_of (filter pa_active (update_first P (\<lambda>a. a\<lparr>pa_active := False\<rparr>) as))))"
  by (induction as) auto

lemma keys_update_same:
  "(\<And>a. pa_active (f a) = pa_active a \<and> ack_key_of (f a) = ack_key_of a)
   \<Longrightarrow> map ack_key_of (filter pa_active (update_first P f as)) = map ack_key_of (filter pa_active as)"
  by (induction as) auto

lemma set_keys_activate:
  "list_ex (\<lambda>a. \<not> pa_active a) as \<Longrightarrow> pa_active b \<Longrightarrow>
   set (map ack_key_of (filter pa_active (update_first (\<lambda>a. \<not> pa_active a) (\<lambda>a. b) as)))
     = insert (ack_key_of b) (set (map ack_key_of (filter pa_active as)))
   \<and> (distinct (map ack_key_of (filter pa_active as)) \<longrightarrow> ack_key_of b \<notin> set (map ack_key_of (filter pa_active as))
      \<longrightarrow> distinct (map ack_key_of (filter pa_active (update_first (\<lambda>a. \<not> pa_active a) (\<lambda>a. b) as))))"
  by (induction as) auto

section \<open>The contract of an operation\<close>

text \<open>
  The invariant of the shared state. Stock is never negative, the six articles keep their numbers, the queue and
  the table of acknowledgements keep their shape.
\<close>

definition shared_ok :: "shared_data_t \<Rightarrow> bool" where
  "shared_ok d \<longleftrightarrow> queue_ok d \<and> acks_ok d \<and> map item_id (inventory_item d) = [1, 2, 3, 4, 5, 6]
     \<and> no_negative (inventory_item d) \<and> length (pending_stock_request d) = QUANTITY_ITEMS"

text \<open>
  What every thread but the sender promises: it keeps the invariant, and posts the semaphore at least as often
  as it queues a message. The handlers of the client are sequences of such operations.
\<close>

locale client_op =
  fixes run :: "shared_data_t \<Rightarrow> shared_data_t"
  assumes keeps: "shared_ok d \<Longrightarrow> shared_ok (run d)"
    and posts: "shared_ok d \<Longrightarrow> message_count (run d) + message_available_sem d \<le> message_count d + message_available_sem (run d)"
begin

lemma still_posted:
  "shared_ok d \<Longrightarrow> message_count d \<le> message_available_sem d + n \<Longrightarrow> message_count (run d) \<le> message_available_sem (run d) + n"
  using posts [of d] by linarith

lemma then_op:
  assumes g: "client_op g"
  shows "client_op (\<lambda>d. g (run d))"
proof
  fix d assume d: "shared_ok d"
  show "shared_ok (g (run d))" by (rule client_op.keeps [OF g keeps [OF d]])
  show "message_count (g (run d)) + message_available_sem d \<le> message_count d + message_available_sem (g (run d))"
    using client_op.posts [OF g keeps [OF d]] posts [OF d] by linarith
qed

end

lemma client_op_id: "client_op (\<lambda>d. d)"
  by unfold_locales simp_all

lemma client_op_same_queue:
  assumes "\<And>d. shared_ok d \<Longrightarrow> shared_ok (f d)"
    and "\<And>d. message_count (f d) = message_count d" "\<And>d. message_available_sem (f d) = message_available_sem d"
  shows "client_op f"
  using assms by unfold_locales simp_all

lemma client_op_if: "client_op f \<Longrightarrow> client_op g \<Longrightarrow> client_op (\<lambda>d. if P d then f d else g d)"
  unfolding client_op_def by simp

lemma client_op_case_int:
  assumes "client_op (\<lambda>d. snd (f d))" "\<And>r. client_op (g r)"
  shows "client_op (\<lambda>d. case f d of (r, d') \<Rightarrow> g r d')"
proof (unfold_locales)
  fix d assume d: "shared_ok d"
  obtain r d' where r: "f d = (r, d')" by (cases "f d")
  have f: "shared_ok d'" "message_count d' + message_available_sem d \<le> message_count d + message_available_sem d'"
    using client_op.keeps [OF assms(1) d] client_op.posts [OF assms(1) d] r by simp_all
  show "shared_ok (case f d of (r, d') \<Rightarrow> g r d')"
    using client_op.keeps [OF assms(2) f(1)] r by simp
  show "message_count (case f d of (r, d') \<Rightarrow> g r d') + message_available_sem d
      \<le> message_count d + message_available_sem (case f d of (r, d') \<Rightarrow> g r d')"
    using client_op.posts [OF assms(2) f(1), of r] f(2) r by simp
qed

lemma shared_ok_fresh: "shared_ok fresh_shared_data"
proof -
  have "[0..<6] = [0, 1, 2, 3, 4, 5 :: nat]" by (simp add: upt_conv_Cons)
  then show ?thesis
    by (simp add: shared_ok_def queue_ok_def acks_ok_def fresh_shared_data_def initial_inventory_def no_negative_def
        MAX_PENDING_MESSAGES_def MAX_PENDING_ACKS_def zero_ack_def fits_def size_defs)
qed

section \<open>Every operation fulfils the contract\<close>

interpretation enqueue_json: client_op "\<lambda>d. snd (enqueue_pending_message_json t d)" for t
proof
  fix d assume d: "shared_ok d"
  show "shared_ok (snd (enqueue_pending_message_json t d))"
  proof (cases "message_count d < MAX_PENDING_MESSAGES")
    case True
    with d obtain d' where "enqueue_pending_message_json t d = (0, d')" "queue_ok d'"
      using enqueue_json_room [of d t] by (auto simp: shared_ok_def)
    with d show ?thesis by (auto simp: shared_ok_def acks_ok_def enqueue_pending_message_json_def split: if_splits)
  qed (use d in \<open>simp add: enqueue_pending_message_json_def\<close>)
  show "message_count (snd (enqueue_pending_message_json t d)) + message_available_sem d
      \<le> message_count d + message_available_sem (snd (enqueue_pending_message_json t d))"
    by (simp add: enqueue_pending_message_json_def)
qed

interpretation enqueue: client_op "\<lambda>d. snd (enqueue_pending_message cj msg d)" for cj msg
  by unfold_locales
     (auto simp: enqueue_message enqueue_json.keeps enqueue_json.posts split: sum.splits)

interpretation wake: client_op wake_sender_thread
  by unfold_locales (simp_all add: wake_sender_thread_def shared_ok_def queue_ok_def acks_ok_def)

interpretation mark: client_op "mark_pending_stock_requests idx" for idx
proof (rule client_op_same_queue)
  fix d assume "shared_ok d"
  moreover have "length (fold (\<lambda>i p. if i \<ge> QUANTITY_ITEMS then p else p[i := True]) idx p) = length p" for p
    by (induction idx arbitrary: p) simp_all
  ultimately show "shared_ok (mark_pending_stock_requests idx d)"
    by (simp add: shared_ok_def mark_pending_stock_requests_def queue_ok_def acks_ok_def)
qed (simp_all add: mark_pending_stock_requests_def)

interpretation clear: client_op "clear_pending_stock_requests its" for its
proof (rule client_op_same_queue)
  fix d assume d: "shared_ok d"
  have "length (fold (\<lambda>it p. if quantity it \<le> 0 then p else let item_index = item_id it - 1
      in if item_index < 0 \<or> item_index \<ge> int QUANTITY_ITEMS then p else p[nat item_index := False]) its p) = length p" for p
    by (induction its arbitrary: p) (simp_all add: Let_def)
  with d show "shared_ok (clear_pending_stock_requests its d)"
    by (simp add: shared_ok_def clear_pending_stock_requests_def queue_ok_def acks_ok_def)
qed (simp_all add: clear_pending_stock_requests_def)

lemma client_op_modify:
  assumes "no_negative its"
  shows "client_op (\<lambda>d. snd (modify_inventory its op d))"
proof (rule client_op_same_queue)
  fix d assume "shared_ok d"
  moreover have "no_negative (take QUANTITY_ITEMS its)" using assms by (auto simp: no_negative_def dest: in_set_takeD)
  ultimately show "shared_ok (snd (modify_inventory its op d))"
    by (simp add: shared_ok_def modify_inventory_def queue_ok_def acks_ok_def no_negative_modify)
qed (simp_all add: modify_inventory_def)

interpretation remove_ack: client_op "\<lambda>d. snd (remove_pending_ack i d)" for i
proof (rule client_op_same_queue)
  fix d assume d: "shared_ok d"
  define P where "P = (\<lambda>a :: pending_ack_t. pa_active a \<and> pa_msg_id a = i)"
  define acks where "acks = update_first P (\<lambda>a. a\<lparr>pa_active := False\<rparr>) (pending_acks d)"
  have "distinct (map ack_key_of (filter pa_active acks))"
    using d keys_deactivate [of P "pending_acks d"] by (simp add: acks_def shared_ok_def acks_ok_def)
  moreover have "\<forall>a\<in>set acks. fits TIMESTAMP_SIZE (pa_msg_id a) \<and> fits MESSAGE_TYPE_SIZE (pa_msg_type a) \<and> fits BUFFER_SIZE (pa_message_json a)"
    using d set_update_first [of P "\<lambda>a. a\<lparr>pa_active := False\<rparr>" "pending_acks d"] by (auto simp: acks_def shared_ok_def acks_ok_def)
  ultimately have "acks_ok (d\<lparr>pending_acks := acks\<rparr>)" using d by (simp add: acks_ok_def shared_ok_def acks_def)
  with d show "shared_ok (snd (remove_pending_ack i d))"
    by (simp add: remove_pending_ack_def Let_def P_def acks_def shared_ok_def queue_ok_def)
qed (simp_all add: remove_pending_ack_def Let_def)

interpretation check_acks: client_op "\<lambda>d. snd (check_ack_timeouts cfg clock d)" for cfg clock
proof (rule client_op_same_queue)
  fix d assume d: "shared_ok d"
  show "shared_ok (snd (check_ack_timeouts cfg clock d))"
  proof (cases clock)
    case (Some now)
    define acks where "acks = snd (scan_acks cfg now (pending_acks d))"
    have k: "list_all2 (\<lambda>a b. ack_key_of b = ack_key_of a \<and> pa_active b = pa_active a \<and> pa_message_json b = pa_message_json a)
        (pending_acks d) acks"
      unfolding acks_def by (rule scan_acks_keeps)
    have "\<forall>b\<in>set acks. fits TIMESTAMP_SIZE (pa_msg_id b) \<and> fits MESSAGE_TYPE_SIZE (pa_msg_type b) \<and> fits BUFFER_SIZE (pa_message_json b)"
      using k d by (fastforce simp: list_all2_conv_all_nth in_set_conv_nth ack_key_of_def shared_ok_def acks_ok_def)
    then have "acks_ok (d\<lparr>pending_acks := acks\<rparr>)"
      using d keys_list_all2 [OF k] list_all2_lengthD [OF k] by (simp add: acks_ok_def shared_ok_def)
    with d show ?thesis
      by (auto simp: check_ack_timeouts_def Some acks_def shared_ok_def queue_ok_def acks_ok_def split: prod.splits option.splits)
  qed (use d in \<open>simp add: check_ack_timeouts_def\<close>)
qed (auto simp: check_ack_timeouts_def split: option.splits prod.splits)

lemma client_op_add_ack:
  assumes f: "fits TIMESTAMP_SIZE i" "fits MESSAGE_TYPE_SIZE ty"
  shows "client_op (\<lambda>d. snd (add_pending_ack clock i ty json d))"
proof (rule client_op_same_queue)
  fix d assume d: "shared_ok d"
  show "shared_ok (snd (add_pending_ack clock i ty json d))"
  proof (cases clock)
    case (Some now)
    define P where "P = (\<lambda>a :: pending_ack_t. pa_active a \<and> pa_msg_id a = i \<and> pa_msg_type a = ty)"
    define b where "b = \<lparr>pa_send_time = now, pa_msg_id = i, pa_msg_type = ty,
      pa_message_json = strncpy_field BUFFER_SIZE json, pa_retry_count = 0, pa_active = True\<rparr>"
    have "strncpy_field TIMESTAMP_SIZE i = i" "strncpy_field MESSAGE_TYPE_SIZE ty = ty"
      using f by (simp_all add: strncpy_field_id)
    then have e: "snd (add_pending_ack clock i ty json d) =
       (if list_ex P (pending_acks d) then d\<lparr>pending_acks := update_first P (\<lambda>a. a\<lparr>pa_send_time := now\<rparr>) (pending_acks d)\<rparr>
        else if list_ex (\<lambda>a. \<not> pa_active a) (pending_acks d)
        then d\<lparr>pending_acks := update_first (\<lambda>a. \<not> pa_active a) (\<lambda>a. b) (pending_acks d)\<rparr> else d)"
      by (simp add: add_pending_ack_def Some Let_def P_def b_def)
    have "acks_ok (d\<lparr>pending_acks := update_first P (\<lambda>a. a\<lparr>pa_send_time := now\<rparr>) (pending_acks d)\<rparr>)"
      using d set_update_first [of P "\<lambda>a. a\<lparr>pa_send_time := now\<rparr>" "pending_acks d"]
      by (auto simp: acks_ok_def shared_ok_def keys_update_same ack_key_of_def)
    moreover have "acks_ok (d\<lparr>pending_acks := update_first (\<lambda>a. \<not> pa_active a) (\<lambda>a. b) (pending_acks d)\<rparr>)"
      if free: "list_ex (\<lambda>a. \<not> pa_active a) (pending_acks d)" and new: "\<not> list_ex P (pending_acks d)"
    proof -
      have "ack_key_of b \<notin> set (map ack_key_of (filter pa_active (pending_acks d)))"
        using new by (auto simp: list_ex_iff P_def b_def ack_key_of_def)
      moreover have "pa_active b" by (simp add: b_def)
      moreover have "fits BUFFER_SIZE (pa_message_json b)" by (simp add: b_def strncpy_field_fits BUFFER_SIZE_def)
      ultimately show ?thesis
        using d f set_keys_activate [OF free, of b] set_update_first [of "\<lambda>a. \<not> pa_active a" "\<lambda>a. b" "pending_acks d"]
        by (auto simp: acks_ok_def shared_ok_def b_def)
    qed
    ultimately show ?thesis using d by (auto simp: e shared_ok_def queue_ok_def)
  qed (use d in \<open>simp add: add_pending_ack_def\<close>)
qed (auto simp: add_pending_ack_def Let_def split: option.splits)

end
