(* ===== verification/Client_Connection.thy ===== *)
theory Client_Connection
  imports Json_Manager Client_Timers
begin

text \<open>
  The client's connection to the server (\<^verbatim>\<open>src/client/connection.c\<close>), its configuration file and its login
  (\<^verbatim>\<open>src/client/client.c\<close>). What the system calls deliver is given as arguments; what a send puts on the
  wire is returned.
\<close>

section \<open>Connecting\<close>

datatype client_protocol = PROTO_TCP | PROTO_UDP

datatype ip_version = AF_UNSPEC | AF_INET | AF_INET6

record client_context =
  sockfd :: int
  ctx_protocol :: client_protocol

record client_config =
  cc_host :: string
  cc_port :: string
  cc_protocol :: client_protocol
  cc_ip_version :: ip_version

text \<open>For each address found: the descriptor of \<^verbatim>\<open>socket\<close> or its failure, and whether \<^verbatim>\<open>connect\<close> succeeds.\<close>

fun try_addresses :: "client_protocol \<Rightarrow> (int option \<times> bool) list \<Rightarrow> int option" where
  "try_addresses proto [] = None"
| "try_addresses proto ((sock, connects) # rest) =
     (case sock of
        None \<Rightarrow> try_addresses proto rest
      | Some fd \<Rightarrow> if proto = PROTO_TCP \<and> \<not> connects then try_addresses proto rest else Some fd)"

text \<open>\<open>None\<close> for a failing \<^verbatim>\<open>getaddrinfo\<close>.\<close>

definition client_init :: "client_config \<Rightarrow> (int option \<times> bool) list option \<Rightarrow> client_context option" where
  "client_init config addresses =
     (case addresses of
        None \<Rightarrow> None
      | Some as \<Rightarrow> map_option (\<lambda>fd. \<lparr>sockfd = fd, ctx_protocol = cc_protocol config\<rparr>) (try_addresses (cc_protocol config) as))"

section \<open>Sending and receiving\<close>

text \<open>The 1024 bytes of a TCP message: the text, cut to 1023 characters, and NULs up to the end.\<close>

definition tcp_buffer :: "string \<Rightarrow> string" where
  "tcp_buffer msg = (let t = snprintf BUFFER_SIZE msg in t @ replicate (BUFFER_SIZE - length t) NUL)"

text \<open>
  The result, and the bytes the kernel took: \<open>sent\<close> is what \<^verbatim>\<open>send\<close> or \<^verbatim>\<open>sendto\<close> returns, \<open>None\<close> for -1. The
  code looks at nothing but the failure.
\<close>

definition client_send :: "client_context \<Rightarrow> bool \<Rightarrow> nat option \<Rightarrow> string \<Rightarrow> int \<times> string" where
  "client_send ctx malloc_ok sent msg =
     (if ctx_protocol ctx = PROTO_TCP then
        (if \<not> malloc_ok then (- 1, '''')
         else case sent of None \<Rightarrow> (- 1, '''') | Some n \<Rightarrow> (0, take n (tcp_buffer msg)))
      else case sent of None \<Rightarrow> (- 1, '''') | Some _ \<Rightarrow> (0, msg))"

datatype client_recv = Got string | Recv_eof | Recv_would_block | Recv_failed

text \<open>
  How \<^verbatim>\<open>client_receive\<close> ends: a message of so many bytes, -1 with \<^verbatim>\<open>EAGAIN\<close>, -1 with another error, -2. \<open>Blocked\<close>
  stands for a call that has not returned yet.
\<close>

datatype receive_result = Message string nat | Again | Failed | Closed | Blocked

fun tcp_receive :: "string \<Rightarrow> client_recv list \<Rightarrow> receive_result" where
  "tcp_receive buffer [] = (if length buffer < BUFFER_SIZE then Blocked else Message (c_str (take (BUFFER_SIZE - 1) buffer)) (length buffer))"
| "tcp_receive buffer (r # rs) =
     (if length buffer < BUFFER_SIZE then
        (case r of
           Got bs \<Rightarrow> tcp_receive (buffer @ take (BUFFER_SIZE - length buffer) bs) rs
         | Recv_eof \<Rightarrow> Closed
         | Recv_would_block \<Rightarrow> Again
         | Recv_failed \<Rightarrow> Failed)
      else Message (c_str (take (BUFFER_SIZE - 1) buffer)) (length buffer))"

definition udp_receive :: "client_recv list \<Rightarrow> receive_result" where
  "udp_receive rs =
     (case rs of
        [] \<Rightarrow> Blocked
      | Got bs # _ \<Rightarrow> (let data = take (BUFFER_SIZE - 1) bs in Message (c_str data) (length data))
      | Recv_eof # _ \<Rightarrow> Message '''' 0
      | Recv_would_block # _ \<Rightarrow> Again
      | Recv_failed # _ \<Rightarrow> Failed)"

definition client_receive :: "client_context \<Rightarrow> client_recv list \<Rightarrow> receive_result" where
  "client_receive ctx rs = (if ctx_protocol ctx = PROTO_TCP then tcp_receive '''' rs else udp_receive rs)"

definition client_close :: "client_context \<Rightarrow> client_context" where
  "client_close ctx = (if sockfd ctx \<ge> 0 then ctx\<lparr>sockfd := - 1\<rparr> else ctx)"

section \<open>The configuration file\<close>

definition LINE_SIZE :: nat where "LINE_SIZE = 512"
definition FILE_PATH :: nat where "FILE_PATH = 256"

record client_credentials =
  cr_type :: string
  cr_username :: string
  cr_password :: string

text \<open>The pieces \<^verbatim>\<open>fgets\<close> delivers: up to a newline, at most 511 characters at a time.\<close>

definition fgets_piece :: "string \<Rightarrow> string" where
  "fgets_piece s = (let l = takeWhile (\<lambda>c. c \<noteq> CHR 0x0A) s
                    in take (LINE_SIZE - 1) (if length l < length s then l @ [CHR 0x0A] else l))"

lemma fgets_piece_Nil_iff: "fgets_piece s = [] \<longleftrightarrow> s = []"
  by (cases s) (auto simp: fgets_piece_def Let_def LINE_SIZE_def take_Cons')

function fgets_lines :: "string \<Rightarrow> string list" where
  "fgets_lines s = (if s = [] then [] else fgets_piece s # fgets_lines (drop (length (fgets_piece s)) s))"
  by pat_completeness auto

termination fgets_lines
proof (relation "measure length")
  fix s :: string assume "s \<noteq> []"
  then have "0 < length (fgets_piece s)" "0 < length s" using fgets_piece_Nil_iff [of s] by simp_all
  then show "(drop (length (fgets_piece s)) s, s) \<in> measure length" by simp
qed simp

declare fgets_lines.simps [simp del]

definition is_blank :: "char \<Rightarrow> bool" where
  "is_blank c \<longleftrightarrow> c = CHR '' '' \<or> c = CHR 0x09"

definition strip_key :: "string \<Rightarrow> string" where
  "strip_key k = rev (dropWhile is_blank (rev (dropWhile is_blank k)))"

definition strip_value :: "string \<Rightarrow> string" where
  "strip_value v = rev (dropWhile (\<lambda>c. is_blank c \<or> c = CHR 0x0A \<or> c = CHR 0x0D) (rev (dropWhile is_blank v)))"

definition assign_option :: "string \<Rightarrow> string \<Rightarrow> client_config \<times> client_credentials \<Rightarrow> client_config \<times> client_credentials" where
  "assign_option key val state =
     (case state of (config, creds) \<Rightarrow>
      if strcaseeq key ''host'' then (config\<lparr>cc_host := strncpy_field 256 val\<rparr>, creds)
      else if strcaseeq key ''port'' then (config\<lparr>cc_port := strncpy_field 16 val\<rparr>, creds)
      else if strcaseeq key ''protocol'' then
        (config\<lparr>cc_protocol := (if strcaseeq val ''tcp'' then PROTO_TCP else PROTO_UDP)\<rparr>, creds)
      else if strcaseeq key ''ipversion'' then
        (config\<lparr>cc_ip_version := (if strcaseeq val ''v6'' \<or> strcaseeq val ''ipv6'' then AF_INET6
                                  else if strcaseeq val ''v4'' \<or> strcaseeq val ''ipv4'' then AF_INET
                                  else AF_UNSPEC)\<rparr>, creds)
      else if strcaseeq key ''type'' then (config, creds\<lparr>cr_type := strncpy_field 32 val\<rparr>)
      else if strcaseeq key ''username'' then (config, creds\<lparr>cr_username := strncpy_field 64 val\<rparr>)
      else if strcaseeq key ''password'' then (config, creds\<lparr>cr_password := strncpy_field 64 val\<rparr>)
      else (config, creds))"

definition parse_conf_line :: "string \<Rightarrow> client_config \<times> client_credentials \<Rightarrow> client_config \<times> client_credentials" where
  "parse_conf_line line state =
     (case strchr (CHR ''='') (c_str line) of
        None \<Rightarrow> state
      | Some (k, v) \<Rightarrow> assign_option (strip_key k) (strip_value v) state)"

text \<open>\<open>None\<close> for a file that cannot be opened, and for missing fields.\<close>

definition parse_conf :: "string option \<Rightarrow> (client_config \<times> client_credentials) option" where
  "parse_conf content =
     (case content of
        None \<Rightarrow> None
      | Some s \<Rightarrow>
          (case fold parse_conf_line (fgets_lines s)
             (\<lparr>cc_host = '''', cc_port = '''', cc_protocol = PROTO_TCP, cc_ip_version = AF_UNSPEC\<rparr>,
              \<lparr>cr_type = '''', cr_username = '''', cr_password = ''''\<rparr>) of
             (config, creds) \<Rightarrow>
               if cc_host config = '''' \<or> cc_port config = '''' \<or> cr_username creds = '''' \<or> cr_password creds = ''''
               then None else Some (config, creds)))"

text \<open>The path of the log file, or \<open>None\<close> when it does not fit.\<close>

definition build_log_file_path :: "nat \<Rightarrow> string \<Rightarrow> string \<Rightarrow> string option" where
  "build_log_file_path n log_dir log_stem =
     (let dir = rev (dropWhile (\<lambda>c. c = CHR ''/'') (rev (take n log_dir)));
          stem = take n log_stem
      in if length dir + 1 + length stem + length ''.log'' \<ge> n then None else Some (dir @ ''/'' @ stem @ ''.log''))"

section \<open>Logging in\<close>

definition MAX_ATTEMPTS :: nat where "MAX_ATTEMPTS = 3"

definition CLIENT_OK :: int where "CLIENT_OK = 200"

text \<open>What the network does in one attempt: the send of the request, the receive, the send of the acknowledgement.\<close>

record attempt_io =
  ai_send :: "nat option"
  ai_recv :: "client_recv list"
  ai_ack :: "nat option"

text \<open>The result, and the texts handed to \<open>client_send\<close>. \<open>Wait_receive\<close>: a receive has not returned yet.\<close>

datatype login_result = Logged_in | Login_failed | Wait_receive

fun login_attempts :: "nat \<Rightarrow> 'j cjson \<Rightarrow> client_context \<Rightarrow> client_credentials \<Rightarrow> (nat \<Rightarrow> timeval) \<Rightarrow> (nat \<Rightarrow> attempt_io)
    \<Rightarrow> login_result \<times> string list" where
  "login_attempts 0 cj ctx creds tv io = (Login_failed, [])"
| "login_attempts (Suc n) cj ctx creds tv io =
     (let i = MAX_ATTEMPTS - Suc n;
          again = login_attempts n cj ctx creds tv io
      in case create_auth_request_message (tv (2 * i)) (cr_type creds) (cr_username creds) (cr_username creds) (cr_password creds) of
           Inl _ \<Rightarrow> (Login_failed, [])
         | Inr msg \<Rightarrow>
      case serialize_message_to_json cj msg of
           Inl _ \<Rightarrow> (Login_failed, [])
         | Inr json \<Rightarrow>
      if fst (client_send ctx True (ai_send (io i)) json) \<noteq> 0 then map_prod id (Cons json) again
      else case client_receive ctx (ai_recv (io i)) of
           Blocked \<Rightarrow> (Wait_receive, [json])
         | Message response bytes \<Rightarrow>
             if bytes = 0 then map_prod id (Cons json) again
             else (case deserialize_message_from_json cj response of
                     Inl _ \<Rightarrow> map_prod id (Cons json) again
                   | Inr response_msg \<Rightarrow>
                       if msg_type response_msg = ''SERVER_TO_HUB__AUTH_RESPONSE''
                          \<or> msg_type response_msg = ''SERVER_TO_WAREHOUSE__AUTH_RESPONSE'' then
                         (if ar_status_code (load_auth_response (payload response_msg)) = CLIENT_OK then
                            (case create_acknowledgment_message (tv (2 * i + 1)) (cr_type creds) (cr_username creds)
                                    ''SERVER'' ''SERVER'' (timestamp response_msg) CLIENT_OK of
                               Inl _ \<Rightarrow> (Login_failed, [json])
                             | Inr ack_msg \<Rightarrow>
                                 (Logged_in, json # (case serialize_message_to_json cj ack_msg of Inl _ \<Rightarrow> [] | Inr a \<Rightarrow> [a])))
                          else (Login_failed, [json]))
                       else map_prod id (Cons json) again)
         | _ \<Rightarrow> map_prod id (Cons json) again)"

definition client_authenticate :: "'j cjson \<Rightarrow> client_context \<Rightarrow> client_credentials \<Rightarrow> (nat \<Rightarrow> timeval) \<Rightarrow> (nat \<Rightarrow> attempt_io)
    \<Rightarrow> login_result \<times> string list" where
  "client_authenticate cj ctx creds tv io = login_attempts MAX_ATTEMPTS cj ctx creds tv io"

section \<open>The program\<close>

definition log_stem_of :: "string \<Rightarrow> string" where
  "log_stem_of config_path =
     (let basename = (case strrchr (CHR ''/'') config_path of Some (_, b) \<Rightarrow> b | None \<Rightarrow> config_path);
          log_stem = take (FILE_PATH - 1) basename
      in case strrchr (CHR ''.'') log_stem of Some (a, _) \<Rightarrow> a | None \<Rightarrow> log_stem)"

text \<open>
  The exit code: \<open>logger_ok\<close> is the result of \<^verbatim>\<open>log_init\<close> for a path, \<open>content\<close> the configuration file,
  \<open>addresses\<close> what \<open>client_init\<close> finds, \<open>login\<close> and \<open>logic\<close> the results of \<open>client_authenticate\<close> and
  \<open>logic_init\<close> for the configuration; \<open>None\<close> while one of them has not returned.
\<close>

definition run_client :: "environment \<Rightarrow> (string \<Rightarrow> bool) \<Rightarrow> string option \<Rightarrow> (int option \<times> bool) list option
    \<Rightarrow> (client_context \<Rightarrow> client_credentials \<Rightarrow> login_result) \<Rightarrow> (client_context \<Rightarrow> client_credentials \<Rightarrow> int option)
    \<Rightarrow> string \<Rightarrow> int option" where
  "run_client getenv logger_ok content addresses login logic config_path =
     (let log_dir = (case getenv ''LOG_DIR'' of Some d \<Rightarrow> d | None \<Rightarrow> ''/tmp'')
      in case build_log_file_path FILE_PATH log_dir (log_stem_of config_path) of
           None \<Rightarrow> Some 1
         | Some path \<Rightarrow>
      if \<not> logger_ok path then Some 1
      else case parse_conf content of
           None \<Rightarrow> Some 1
         | Some (config, creds) \<Rightarrow>
      case client_init config addresses of
           None \<Rightarrow> Some 1
         | Some ctx \<Rightarrow>
      case login ctx creds of
           Wait_receive \<Rightarrow> None
         | Login_failed \<Rightarrow> Some (- 1)
         | Logged_in \<Rightarrow> map_option (\<lambda>r. if r \<noteq> 0 then - 1 else 0) (logic ctx creds))"

section \<open>Frames\<close>

lemma length_tcp_buffer [simp]: "length (tcp_buffer msg) = BUFFER_SIZE"
  by (simp add: tcp_buffer_def Let_def snprintf_def BUFFER_SIZE_def)

lemma tcp_buffer_text:
  assumes "fits BUFFER_SIZE msg"
  shows "c_str (take (BUFFER_SIZE - 1) (tcp_buffer msg)) = msg"
proof -
  have l: "length msg \<le> BUFFER_SIZE - 1" and n: "NUL \<notin> set msg" using assms by (auto simp: fits_def)
  have b: "tcp_buffer msg = msg @ replicate (BUFFER_SIZE - length msg) NUL"
    using l by (simp add: tcp_buffer_def snprintf_def Let_def)
  show ?thesis
  proof (cases "length msg = BUFFER_SIZE - 1")
    case True
    then show ?thesis using n by (simp add: b c_str_id)
  next
    case False
    with l obtain k where k: "BUFFER_SIZE - 1 - length msg = Suc k" by (cases "BUFFER_SIZE - 1 - length msg") auto
    have "take (BUFFER_SIZE - 1) (tcp_buffer msg) = msg @ replicate (BUFFER_SIZE - 1 - length msg) NUL"
      using l by (simp add: b min_def)
    also have "\<dots> = msg @ NUL # replicate k NUL" by (simp only: k replicate_Suc)
    finally show ?thesis using c_str_append_NUL [OF n] by simp
  qed
qed

text \<open>The loop around \<^verbatim>\<open>recv\<close> puts a frame together however it is split.\<close>

lemma tcp_receive_frame:
  assumes "length (buf @ concat cs) = BUFFER_SIZE"
  shows "tcp_receive buf (map Got cs @ rs) = Message (c_str (take (BUFFER_SIZE - 1) (buf @ concat cs))) BUFFER_SIZE"
  using assms
proof (induction cs arbitrary: buf)
  case Nil
  then show ?case by (cases rs) simp_all
next
  case (Cons x cs)
  show ?case
  proof (cases "length buf < BUFFER_SIZE")
    case True
    with Cons.prems have "take (BUFFER_SIZE - length buf) x = x" by simp
    with True Cons.IH [of "buf @ x"] Cons.prems show ?thesis by simp
  next
    case False
    with Cons.prems have "length buf = BUFFER_SIZE" "length x = 0" "length (concat cs) = 0"
      by (simp_all only: length_append concat.simps list.map)
    then have "length buf = BUFFER_SIZE" "x @ concat cs = []" by simp_all
    then show ?thesis by simp
  qed
qed

text \<open>
  A receive that times out in the middle of a frame drops the bytes it has read: the next call starts with an
  empty buffer and takes the rest of that frame for the start of the next.
\<close>

theorem timeout_loses_half_frame:
  assumes "length a < BUFFER_SIZE" "ctx_protocol ctx = PROTO_TCP"
    and "length (b @ c) = BUFFER_SIZE"
  shows "client_receive ctx [Got a, Recv_would_block] = Again"
    and "client_receive ctx [Got b, Got c] = Message (c_str (take (BUFFER_SIZE - 1) (b @ c))) BUFFER_SIZE"
  using assms tcp_receive_frame [of "[]" "[b, c]" "[]"] by (simp_all add: client_receive_def BUFFER_SIZE_def)

text \<open>\<^verbatim>\<open>client_send\<close> reports success however few bytes the kernel took.\<close>

theorem partial_send_reported_as_success:
  "ctx_protocol ctx = PROTO_TCP \<Longrightarrow> n < BUFFER_SIZE
   \<Longrightarrow> fst (client_send ctx True (Some n) msg) = 0 \<and> length (snd (client_send ctx True (Some n) msg)) < BUFFER_SIZE"
  by (simp add: client_send_def)

section \<open>The login\<close>

text \<open>The server's answer in attempt \<open>i\<close> accepts the login.\<close>

definition login_accepted :: "'j cjson \<Rightarrow> client_context \<Rightarrow> attempt_io \<Rightarrow> bool" where
  "login_accepted cj ctx io =
     (case client_receive ctx (ai_recv io) of
        Message response bytes \<Rightarrow>
          (case deserialize_message_from_json cj response of
             Inr msg \<Rightarrow> (msg_type msg = ''SERVER_TO_HUB__AUTH_RESPONSE'' \<or> msg_type msg = ''SERVER_TO_WAREHOUSE__AUTH_RESPONSE'')
                 \<and> ar_status_code (load_auth_response (payload msg)) = CLIENT_OK
           | Inl _ \<Rightarrow> False)
      | _ \<Rightarrow> False)"

lemma login_attempts_step:
  "(\<exists>sent. login_attempts (Suc n) cj ctx creds tv io = (Logged_in, sent) \<and> length sent \<le> 2 \<and> login_accepted cj ctx (io (MAX_ATTEMPTS - Suc n)))
   \<or> (\<exists>r sent. login_attempts (Suc n) cj ctx creds tv io = (r, sent) \<and> r \<noteq> Logged_in \<and> length sent \<le> 1)
   \<or> (\<exists>json. login_attempts (Suc n) cj ctx creds tv io = map_prod id (Cons json) (login_attempts n cj ctx creds tv io))"
  by (auto simp: Let_def login_accepted_def split: sum.splits receive_result.splits)

lemma login_attempts_sound:
  "length (snd (login_attempts n cj ctx creds tv io)) \<le> n + 1
   \<and> (fst (login_attempts n cj ctx creds tv io) = Logged_in
      \<longrightarrow> (\<exists>i. MAX_ATTEMPTS - n \<le> i \<and> i < MAX_ATTEMPTS \<and> login_accepted cj ctx (io i)))"
proof (induction n)
  case (Suc n)
  from login_attempts_step [of n cj ctx creds tv io] show ?case
  proof (elim disjE exE conjE)
    fix json assume e: "login_attempts (Suc n) cj ctx creds tv io = map_prod id (Cons json) (login_attempts n cj ctx creds tv io)"
    have "MAX_ATTEMPTS - Suc n \<le> MAX_ATTEMPTS - n" by simp
    with Suc show ?thesis unfolding e by (auto intro: order_trans)
  qed (auto simp: MAX_ATTEMPTS_def intro!: exI [of _ "2 - n"])
qed simp

section \<open>Writing and reading a configuration\<close>

abbreviation NL :: char where "NL \<equiv> CHR 0x0A"

definition conf_line :: "string \<Rightarrow> string \<Rightarrow> string" where
  "conf_line k v = k @ ''='' @ v @ [NL]"

definition show_protocol :: "client_protocol \<Rightarrow> string" where
  "show_protocol p = (case p of PROTO_TCP \<Rightarrow> ''tcp'' | PROTO_UDP \<Rightarrow> ''udp'')"

definition show_ip_version :: "ip_version \<Rightarrow> string" where
  "show_ip_version v = (case v of AF_INET6 \<Rightarrow> ''v6'' | AF_INET \<Rightarrow> ''v4'' | AF_UNSPEC \<Rightarrow> ''any'')"

definition conf_lines :: "client_config \<Rightarrow> client_credentials \<Rightarrow> string list" where
  "conf_lines config creds =
     [conf_line ''host'' (cc_host config), conf_line ''port'' (cc_port config),
      conf_line ''protocol'' (show_protocol (cc_protocol config)), conf_line ''ipversion'' (show_ip_version (cc_ip_version config)),
      conf_line ''type'' (cr_type creds), conf_line ''username'' (cr_username creds), conf_line ''password'' (cr_password creds)]"

text \<open>A value that fits its field, on one line, without blanks or a carriage return at its ends.\<close>

definition value_ok :: "nat \<Rightarrow> string \<Rightarrow> bool" where
  "value_ok n v \<longleftrightarrow> fits n v \<and> NL \<notin> set v
     \<and> (v \<noteq> '''' \<longrightarrow> \<not> is_blank (hd v) \<and> \<not> is_blank (last v) \<and> last v \<noteq> CHR 0x0D)"

definition conf_ok :: "client_config \<Rightarrow> client_credentials \<Rightarrow> bool" where
  "conf_ok config creds \<longleftrightarrow> value_ok 256 (cc_host config) \<and> value_ok 16 (cc_port config) \<and> value_ok 32 (cr_type creds)
     \<and> value_ok 64 (cr_username creds) \<and> value_ok 64 (cr_password creds)
     \<and> cc_host config \<noteq> '''' \<and> cc_port config \<noteq> '''' \<and> cr_username creds \<noteq> '''' \<and> cr_password creds \<noteq> ''''"

lemma fgets_lines_line:
  assumes "NL \<notin> set l" "length l < LINE_SIZE - 1"
  shows "fgets_lines (l @ NL # rest) = (l @ [NL]) # fgets_lines rest"
proof -
  have "takeWhile (\<lambda>c. c \<noteq> NL) (l @ NL # rest) = l" using assms(1) by (subst takeWhile_append2) auto
  then have "fgets_piece (l @ NL # rest) = l @ [NL]"
    using assms(2) by (simp add: fgets_piece_def Let_def)
  then show ?thesis by (subst fgets_lines.simps) simp
qed

lemma fgets_lines_concat:
  assumes "\<forall>l\<in>set ls. NL \<notin> set l \<and> length l < LINE_SIZE - 1"
  shows "fgets_lines (concat (map (\<lambda>l. l @ [NL]) ls)) = map (\<lambda>l. l @ [NL]) ls"
  using assms by (induction ls) (simp_all add: fgets_lines_line fgets_lines.simps [of "[]"])

lemma strip_value_line: "value_ok n v \<Longrightarrow> strip_value (v @ [NL]) = v"
proof (cases v rule: rev_cases)
  case Nil
  then show ?thesis by (simp add: strip_value_def is_blank_def)
next
  case (snoc u c)
  assume v: "value_ok n v"
  then have h: "dropWhile is_blank (v @ [NL]) = v @ [NL]"
    using snoc by (cases u) (auto simp: value_ok_def)
  from v snoc have "c \<noteq> NL" "\<not> is_blank c" "c \<noteq> CHR 0x0D" by (auto simp: value_ok_def)
  then have "dropWhile (\<lambda>c. is_blank c \<or> c = NL \<or> c = CHR 0x0D) (rev (v @ [NL])) = rev v"
    using snoc by (simp add: is_blank_def)
  then show ?thesis by (simp add: strip_value_def h del: rev_append)
qed

lemma parse_value_line:
  assumes "value_ok n v" "CHR ''='' \<notin> set k" "NUL \<notin> set k" "strip_key k = k"
  shows "parse_conf_line (conf_line k v) = assign_option k v"
proof -
  have "NUL \<notin> set (conf_line k v)" using assms by (auto simp: conf_line_def value_ok_def fits_def)
  then have c: "c_str (conf_line k v) = k @ CHR ''='' # v @ [NL]" by (simp add: c_str_id) (simp add: conf_line_def)
  have t: "takeWhile (\<lambda>x. x \<noteq> CHR ''='') (k @ CHR ''='' # v @ [NL]) = k" using assms(2) by (subst takeWhile_append2) auto
  have d: "dropWhile (\<lambda>x. x \<noteq> CHR ''='') (k @ CHR ''='' # v @ [NL]) = CHR ''='' # v @ [NL]" using assms(2) by (subst dropWhile_append2) auto
  show ?thesis
    using assms(4) strip_value_line [OF assms(1)] by (intro ext) (simp add: parse_conf_line_def c strchr_def t d)
qed

lemma fgets_lines_conf:
  assumes "value_ok 256 (cc_host config)" "value_ok 16 (cc_port config)" "value_ok 32 (cr_type creds)"
    "value_ok 64 (cr_username creds)" "value_ok 64 (cr_password creds)"
    "value_ok 16 (show_protocol (cc_protocol config))" "value_ok 16 (show_ip_version (cc_ip_version config))"
  shows "fgets_lines (concat (conf_lines config creds)) = conf_lines config creds"
proof -
  let ?ls = "[''host='' @ cc_host config, ''port='' @ cc_port config, ''protocol='' @ show_protocol (cc_protocol config),
      ''ipversion='' @ show_ip_version (cc_ip_version config), ''type='' @ cr_type creds, ''username='' @ cr_username creds,
      ''password='' @ cr_password creds]"
  have "conf_lines config creds = map (\<lambda>l. l @ [NL]) ?ls" by (simp add: conf_lines_def conf_line_def)
  moreover have "\<forall>l\<in>set ?ls. NL \<notin> set l \<and> length l < LINE_SIZE - 1"
    using assms by (simp add: value_ok_def fits_def LINE_SIZE_def)
  ultimately show ?thesis using fgets_lines_concat [of ?ls] by simp
qed

lemma option_keys_differ:
  "strcaseeq ''port'' ''host'' = False" "strcaseeq ''protocol'' ''host'' = False" "strcaseeq ''protocol'' ''port'' = False"
  "strcaseeq ''ipversion'' ''host'' = False" "strcaseeq ''ipversion'' ''port'' = False" "strcaseeq ''ipversion'' ''protocol'' = False"
  "strcaseeq ''type'' ''host'' = False" "strcaseeq ''type'' ''port'' = False" "strcaseeq ''type'' ''protocol'' = False"
  "strcaseeq ''type'' ''ipversion'' = False" "strcaseeq ''username'' ''host'' = False" "strcaseeq ''username'' ''port'' = False"
  "strcaseeq ''username'' ''protocol'' = False" "strcaseeq ''username'' ''ipversion'' = False" "strcaseeq ''username'' ''type'' = False"
  "strcaseeq ''password'' ''host'' = False" "strcaseeq ''password'' ''port'' = False" "strcaseeq ''password'' ''protocol'' = False"
  "strcaseeq ''password'' ''ipversion'' = False" "strcaseeq ''password'' ''type'' = False" "strcaseeq ''password'' ''username'' = False"
  "strcaseeq k k"
  by (simp_all add: strcaseeq_def lower_char_def)

lemma read_show_protocol:
  "(if strcaseeq (show_protocol p) ''tcp'' then PROTO_TCP else PROTO_UDP) = p"
    by (cases p) (simp_all add: show_protocol_def strcaseeq_def lower_char_def)

lemma read_show_ip_version:
  "(if strcaseeq (show_ip_version v) ''v6'' \<or> strcaseeq (show_ip_version v) ''ipv6'' then AF_INET6
      else if strcaseeq (show_ip_version v) ''v4'' \<or> strcaseeq (show_ip_version v) ''ipv4'' then AF_INET
      else AF_UNSPEC) = v"
    by (cases v) (simp_all add: show_ip_version_def strcaseeq_def lower_char_def)

lemma option_keys_stripped:
  "strip_key ''host'' = ''host''" "strip_key ''port'' = ''port''" "strip_key ''protocol'' = ''protocol''"
    "strip_key ''ipversion'' = ''ipversion''" "strip_key ''type'' = ''type''" "strip_key ''username'' = ''username''"
    "strip_key ''password'' = ''password''"
  by (simp_all add: strip_key_def is_blank_def)

text \<open>C32: A configuration written with one option per line is read back exactly, for all values that fit their
  fields and have no blanks at their ends.\<close>

theorem parse_conf_round_trip:
  assumes "conf_ok config creds"
  shows "parse_conf (Some (concat (conf_lines config creds))) = Some (config, creds)"
proof -
  have v: "value_ok 256 (cc_host config)" "value_ok 16 (cc_port config)" "value_ok 32 (cr_type creds)"
    "value_ok 64 (cr_username creds)" "value_ok 64 (cr_password creds)"
    and p: "value_ok 16 (show_protocol (cc_protocol config))" "value_ok 16 (show_ip_version (cc_ip_version config))"
    using assms by (auto simp: conf_ok_def value_ok_def fits_def show_protocol_def show_ip_version_def is_blank_def
        split: client_protocol.splits ip_version.splits)
  have f: "strncpy_field 256 (cc_host config) = cc_host config" "strncpy_field 16 (cc_port config) = cc_port config"
    "strncpy_field 32 (cr_type creds) = cr_type creds" "strncpy_field 64 (cr_username creds) = cr_username creds"
    "strncpy_field 64 (cr_password creds) = cr_password creds"
    using v by (simp_all add: value_ok_def strncpy_field_id)
  note line = parse_value_line [OF v(1) _ _ option_keys_stripped(1)] parse_value_line [OF v(2) _ _ option_keys_stripped(2)]
    parse_value_line [OF p(1) _ _ option_keys_stripped(3)] parse_value_line [OF p(2) _ _ option_keys_stripped(4)] parse_value_line [OF v(3) _ _ option_keys_stripped(5)]
    parse_value_line [OF v(4) _ _ option_keys_stripped(6)] parse_value_line [OF v(5) _ _ option_keys_stripped(7)]
  have "fgets_lines (concat (conf_lines config creds)) = conf_lines config creds"
    by (rule fgets_lines_conf) (use v p in simp_all)
  moreover have "fold parse_conf_line (conf_lines config creds) (c0, d0) = (config, creds)" for c0 d0
    by (simp add: conf_lines_def line assign_option_def option_keys_differ f read_show_protocol read_show_ip_version)
  ultimately show ?thesis using assms by (simp add: parse_conf_def conf_ok_def)
qed

definition demo_client_config :: client_config where
  "demo_client_config = \<lparr>cc_host = ''10.0.0.5'', cc_port = ''9999'', cc_protocol = PROTO_UDP, cc_ip_version = AF_INET6\<rparr>"

definition demo_credentials :: client_credentials where
  "demo_credentials = \<lparr>cr_type = ''HUB'', cr_username = ''client_0001'', cr_password = ''a=b c''\<rparr>"

theorem parse_conf_round_trip_witness:
  "parse_conf (Some (concat (conf_lines demo_client_config demo_credentials))) = Some (demo_client_config, demo_credentials)"
  by (rule parse_conf_round_trip) (simp add: conf_ok_def value_ok_def fits_def is_blank_def demo_client_config_def demo_credentials_def)

end
