(* ===== verification/Client_Logic.thy ===== *)
theory Client_Logic
  imports Client_State Client_Connection
begin

text \<open>
  The client at work (\<^verbatim>\<open>src/client/message_handler.c\<close>, \<^verbatim>\<open>src/client/logic.c\<close>): the handler of the server's
  messages, the periodic tasks of the business process and the three threads of the network process, each as one
  iteration of its loop. \<open>tv n\<close> is the time read when the \<open>n\<close>-th message of a call is built; the random delays
  between two messages only take time and are left out.
\<close>

section \<open>Messages of the server\<close>

text \<open>Building a message and queueing it: -1 when either fails.\<close>

definition create_and_enqueue :: "'j cjson \<Rightarrow> int + message_t \<Rightarrow> shared_data_t \<Rightarrow> int \<times> shared_data_t" where
  "create_and_enqueue cj created d =
     (case created of
        Inl _ \<Rightarrow> (- 1, d)
      | Inr msg \<Rightarrow> (case enqueue_pending_message cj msg d of (r, d) \<Rightarrow> (if r \<noteq> 0 then - 1 else 0, d)))"

definition send_ack_to_server :: "'j cjson \<Rightarrow> timeval \<Rightarrow> string \<Rightarrow> shared_data_t \<Rightarrow> int \<times> shared_data_t" where
  "send_ack_to_server cj tv msg_timestamp d =
     create_and_enqueue cj (create_acknowledgment_message tv (client_role d) (client_id d) ''SERVER'' ''SERVER'' msg_timestamp CLIENT_OK) d"

definition send_items :: "'j cjson \<Rightarrow> timeval \<Rightarrow> string \<Rightarrow> string \<Rightarrow> inventory_item_t list \<Rightarrow> string option \<Rightarrow> shared_data_t \<Rightarrow> int \<times> shared_data_t" where
  "send_items cj tv mt target its ots d =
     create_and_enqueue cj (create_items_message tv mt (client_id d) target its (int QUANTITY_ITEMS) ots) d"

text \<open>Running a second step unless the first failed.\<close>

definition and_then :: "(shared_data_t \<Rightarrow> int \<times> shared_data_t) \<Rightarrow> (shared_data_t \<Rightarrow> int \<times> shared_data_t) \<Rightarrow> shared_data_t \<Rightarrow> int \<times> shared_data_t" where
  "and_then f g d = (case f d of (r, d) \<Rightarrow> if r \<noteq> 0 then (- 1, d) else g d)"

text \<open>After a dispatch the warehouse asks for what has run low; a failure here is only logged.\<close>

definition request_replenishment :: "'j cjson \<Rightarrow> timer_config_t \<Rightarrow> timeval \<Rightarrow> shared_data_t \<Rightarrow> int \<times> shared_data_t" where
  "request_replenishment cj cfg tv d =
     (case get_low_stock_report (low_stock_threshold cfg) (critical_stock_threshold cfg) (max_stock_per_item cfg) d of
        (low_items, low_indices, _) \<Rightarrow>
          if low_items = [] then (0, d)
          else case send_items cj tv ''WAREHOUSE_TO_SERVER__REPLENISH_REQUEST'' ''SERVER''
                      (build_full_request_payload low_items d) None d of
                 (r, d) \<Rightarrow> (0, if r = 0 then mark_pending_stock_requests low_indices d else d))"

definition dispatch_to_hub :: "'j cjson \<Rightarrow> timer_config_t \<Rightarrow> (nat \<Rightarrow> timeval) \<Rightarrow> message_t \<Rightarrow> shared_data_t \<Rightarrow> int \<times> shared_data_t" where
  "dispatch_to_hub cj cfg tv msg =
     (let order = items (load_items_list (payload msg)) in
      and_then (send_ack_to_server cj (tv 0) (timestamp msg))
       (and_then (modify_inventory order INVENTORY_REDUCE)
         (and_then (send_items cj (tv 1) ''WAREHOUSE_TO_SERVER__SHIPMENT_NOTICE'' (target_id msg) order None)
           (request_replenishment cj cfg (tv 2)))))"

definition dispatch_from_hub :: "'j cjson \<Rightarrow> (nat \<Rightarrow> timeval) \<Rightarrow> message_t \<Rightarrow> shared_data_t \<Rightarrow> int \<times> shared_data_t" where
  "dispatch_from_hub cj tv msg =
     (let order = items (load_items_list (payload msg)) in
      and_then (send_ack_to_server cj (tv 0) (timestamp msg))
       (and_then (modify_inventory order INVENTORY_REDUCE)
         (and_then (send_items cj (tv 1) ''HUB_TO_SERVER__DISPATCH_CONFIRMATION'' ''SERVER'' order (Some (timestamp msg)))
           (\<lambda>d. (0, d)))))"

definition receipt_type :: "shared_data_t \<Rightarrow> string" where
  "receipt_type d = (if client_role d = ''HUB'' then ''HUB_TO_SERVER__STOCK_RECEIPT_CONFIRMATION''
                     else ''WAREHOUSE_TO_SERVER__STOCK_RECEIPT_CONFIRMATION'')"

definition take_delivery :: "'j cjson \<Rightarrow> (nat \<Rightarrow> timeval) \<Rightarrow> message_t \<Rightarrow> shared_data_t \<Rightarrow> int \<times> shared_data_t" where
  "take_delivery cj tv msg =
     (let restock = load_items_list (payload msg) in
      and_then (send_ack_to_server cj (tv 0) (timestamp msg))
       (and_then (modify_inventory (items restock) INVENTORY_ADD)
         (\<lambda>d. let d = clear_pending_stock_requests (items restock) d
              in and_then (send_items cj (tv 1) (receipt_type d) ''SERVER'' (items restock) (Some (order_timestamp restock)))
                   (\<lambda>d. (0, d)) d)))"

definition handle_server_message ::
  "'j cjson \<Rightarrow> timer_config_t \<Rightarrow> (nat \<Rightarrow> timeval) \<Rightarrow> message_t \<Rightarrow> shared_data_t \<Rightarrow> int \<times> shared_data_t" where
  "handle_server_message cj cfg tv msg d =
     (let mt = msg_type msg in
      if strstr mt ''ACK'' then (0, snd (remove_pending_ack (ack_for_timestamp (load_acknowledgment (payload msg))) d))
      else if mt = ''SERVER_TO_WAREHOUSE__AUTH_RESPONSE'' \<or> mt = ''SERVER_TO_HUB__AUTH_RESPONSE''
      then send_ack_to_server cj (tv 0) (timestamp msg) d
      else if mt = ''SERVER_TO_WAREHOUSE__INVENTORY_UPDATE'' \<or> mt = ''SERVER_TO_HUB__INVENTORY_UPDATE''
      then and_then (modify_inventory (items (load_items_list (payload msg))) INVENTORY_ADD)
             (send_ack_to_server cj (tv 0) (timestamp msg)) d
      else if mt = ''SERVER_TO_WAREHOUSE__ORDER_TO_DISPATCH_STOCK_TO_HUB'' then dispatch_to_hub cj cfg tv msg d
      else if mt = ''SERVER_TO_HUB__ORDER_TO_DISPATCH_STOCK'' then dispatch_from_hub cj tv msg d
      else if mt = ''SERVER_TO_WAREHOUSE__RESTOCK_NOTICE'' \<or> mt = ''SERVER_TO_HUB__INCOMING_STOCK_NOTICE''
      then take_delivery cj tv msg d
      else (0, d))"

section \<open>Periodic tasks\<close>

text \<open>\<open>detector\<close> is the result of the dynamically loaded detector, \<open>None\<close> without the library.\<close>

definition do_emergency_check :: "'j cjson \<Rightarrow> timeval \<Rightarrow> emergency_result_t option \<Rightarrow> shared_data_t \<Rightarrow> shared_data_t" where
  "do_emergency_check cj tv detector d =
     (case detector of
        None \<Rightarrow> d
      | Some result \<Rightarrow>
          if emergency_active d then d
          else if emergency_code result = EMERGENCY_CODE_NONE then d
          else case create_and_enqueue cj (create_client_emergency_message tv (client_role d) (client_id d)
                      (emergency_code result) (emergency_type result)) d of
                 (r, d) \<Rightarrow> if r \<noteq> 0 then d else d\<lparr>emergency_active := True\<rparr>)"

definition do_inventory_update :: "'j cjson \<Rightarrow> (nat \<Rightarrow> timeval) \<Rightarrow> shared_data_t \<Rightarrow> shared_data_t" where
  "do_inventory_update cj tv d =
     (case create_and_enqueue cj (create_keepalive_message (tv 0) (client_role d) (client_id d) ''ALIVE'') d of
        (r, d) \<Rightarrow>
          if r \<noteq> 0 then d
          else let its = get_inventory_snapshot d;
                   mt = (if client_role d = ''HUB'' then ''HUB_TO_SERVER__INVENTORY_UPDATE''
                         else ''WAREHOUSE_TO_SERVER__INVENTORY_UPDATE'')
               in snd (send_items cj (tv 1) mt ''SERVER'' its None d))"

text \<open>\<open>rand i\<close> is the value drawn for the \<open>i\<close>-th article.\<close>

definition items_to_reduce :: "timer_config_t \<Rightarrow> (nat \<Rightarrow> nat) \<Rightarrow> inventory_item_t list \<Rightarrow> inventory_item_t list" where
  "items_to_reduce cfg rand snapshot =
     map (\<lambda>(i, s). \<lparr>item_id = item_id s, item_name = strncpy_field ITEM_NAME_SIZE (item_name s),
                    quantity = (if quantity s > 0 then get_random_consume_amount cfg (rand i) else 0)\<rparr>)
       (enumerate 0 snapshot)"

definition do_consume_stock :: "timer_config_t \<Rightarrow> (nat \<Rightarrow> nat) \<Rightarrow> shared_data_t \<Rightarrow> shared_data_t" where
  "do_consume_stock cfg rand d =
     (let snapshot = get_inventory_snapshot d
      in if list_ex (\<lambda>s. quantity s > 0) snapshot
         then snd (modify_inventory (items_to_reduce cfg rand snapshot) INVENTORY_REDUCE d) else d)"

text \<open>The result says whether every article is critically low.\<close>

definition do_check_low_stock :: "'j cjson \<Rightarrow> timer_config_t \<Rightarrow> timeval \<Rightarrow> shared_data_t \<Rightarrow> bool \<times> shared_data_t" where
  "do_check_low_stock cj cfg tv d =
     (if client_role d \<noteq> ''HUB'' then (False, d)
      else case get_low_stock_report (low_stock_threshold cfg) (critical_stock_threshold cfg) (max_stock_per_item cfg) d of
             (low_items, indices, critically_low_count) \<Rightarrow>
               let all_low = (critically_low_count = QUANTITY_ITEMS) in
               if low_items = [] then (all_low, d)
               else case send_items cj tv ''HUB_TO_SERVER__STOCK_REQUEST'' ''SERVER''
                           (build_full_request_payload low_items d) None d of
                      (r, d) \<Rightarrow> (all_low, if r = 0 then mark_pending_stock_requests indices d else d))"

section \<open>The business process\<close>

datatype timer_fd = Inventory_timer | Consume_timer | Emergency_timer

text \<open>Which \<^verbatim>\<open>timerfd_create\<close> and \<^verbatim>\<open>timerfd_settime\<close> calls succeed.\<close>

record setup_calls =
  create_inventory :: bool
  create_consume :: bool
  create_emergency :: bool
  arm_inventory :: bool
  arm_consume :: bool
  arm_emergency :: bool

record child_timers =
  inventory_spec :: timer_spec
  consume_spec :: timer_spec
  emergency_spec :: timer_spec
  consume_timer_active :: bool

text \<open>The descriptors still open after a failure, or the timers as armed.\<close>

definition child_setup :: "timer_config_t \<Rightarrow> setup_calls \<Rightarrow> nat \<Rightarrow> nat \<Rightarrow> nat \<Rightarrow> timer_fd list + child_timers" where
  "child_setup cfg calls rand1 rand2 rand3 =
     (if \<not> create_inventory calls then Inl []
      else if \<not> create_consume calls then Inl []
      else if \<not> create_emergency calls then Inl []
      else if \<not> arm_inventory calls then Inl [Emergency_timer]
      else if \<not> arm_consume calls then Inl []
      else if \<not> arm_emergency calls then Inl []
      else Inr \<lparr>inventory_spec = periodic_spec (get_random_phase_offset (inventory_update_interval_ms cfg) rand1)
                                  (inventory_update_interval_ms cfg),
                consume_spec = ms_to_itimerspec (get_random_consume_interval cfg rand2),
                emergency_spec = periodic_spec (get_random_phase_offset (emergency_check_interval_ms cfg) rand3)
                                  (emergency_check_interval_ms cfg),
                consume_timer_active = True\<rparr>)"

text \<open>\<open>Sel_ready\<close>: which of the three timers is readable and was read.\<close>

datatype select_result = Sel_interrupted | Sel_failed | Sel_timeout | Sel_ready bool bool bool

record child_io =
  io_resume_ok :: bool
  io_settime_ok :: bool
  io_select :: select_result
  io_rand :: nat
  io_amounts :: "nat \<Rightarrow> nat"
  io_time :: "nat \<Rightarrow> timeval"
  io_detector :: "emergency_result_t option"

definition resume_consumption :: "timer_config_t \<Rightarrow> child_io \<Rightarrow> child_timers \<times> shared_data_t \<Rightarrow> child_timers \<times> shared_data_t" where
  "resume_consumption cfg io state =
     (case state of (t, d) \<Rightarrow>
        if inventory_updated d \<and> \<not> consume_timer_active t
        then let d = d\<lparr>inventory_updated := False\<rparr>
             in if count_items_above_threshold (critical_stock_threshold cfg) d > 0 \<and> io_resume_ok io
                then (t\<lparr>consume_spec := ms_to_itimerspec (get_random_consume_interval cfg (io_rand io)), consume_timer_active := True\<rparr>, d)
                else (t, d)
        else (t, d))"

definition on_consume_timer :: "'j cjson \<Rightarrow> timer_config_t \<Rightarrow> child_io \<Rightarrow> child_timers \<times> shared_data_t \<Rightarrow> child_timers \<times> shared_data_t" where
  "on_consume_timer cj cfg io state =
     (case state of (t, d) \<Rightarrow>
        if client_role d = ''HUB'' then
          (case do_check_low_stock cj cfg (io_time io 2) (do_consume_stock cfg (io_amounts io) d) of
             (all_low, d) \<Rightarrow>
               if \<not> io_settime_ok io then (t, d)
               else if all_low then (t\<lparr>consume_spec := ms_to_itimerspec 0, consume_timer_active := False\<rparr>, d)
               else (t\<lparr>consume_spec := ms_to_itimerspec (get_random_consume_interval cfg (io_rand io))\<rparr>, d))
        else (t, d))"

text \<open>One round of the loop: whether it goes on, the timers and the shared state.\<close>

definition child_iteration :: "'j cjson \<Rightarrow> timer_config_t \<Rightarrow> child_io \<Rightarrow> child_timers \<times> shared_data_t
    \<Rightarrow> bool \<times> child_timers \<times> shared_data_t" where
  "child_iteration cj cfg io state =
     (if should_exit (snd state) then (False, state)
      else case resume_consumption cfg io state of (t, d) \<Rightarrow>
        (case io_select io of
           Sel_interrupted \<Rightarrow> (True, t, d)
         | Sel_failed \<Rightarrow> (False, t, d)
         | Sel_timeout \<Rightarrow> (True, t, d)
         | Sel_ready inventory consume emergency \<Rightarrow>
             (let d = (if inventory then do_inventory_update cj (io_time io) d else d)
              in case (if consume then on_consume_timer cj cfg io (t, d) else (t, d)) of (t, d) \<Rightarrow>
                 (True, t, if emergency then do_emergency_check cj (io_time io 3) (io_detector io) d else d))))"

section \<open>The network process\<close>

definition ack_checker_iteration :: "timer_config_t \<Rightarrow> timespec option \<Rightarrow> shared_data_t \<Rightarrow> bool \<times> shared_data_t" where
  "ack_checker_iteration cfg clock d =
     (case check_ack_timeouts cfg clock d of (result, d) \<Rightarrow>
        if result < 0 then (False, wake_sender_thread (d\<lparr>should_exit := True\<rparr>))
        else if result > 0
        then (True, fold (\<lambda>t d. snd (enqueue_pending_message_json t d)) (collect_retryable_messages MAX_PENDING_ACKS d) d)
        else (True, d))"

definition receiver_iteration :: "'j cjson \<Rightarrow> timer_config_t \<Rightarrow> (nat \<Rightarrow> timeval) \<Rightarrow> receive_result \<Rightarrow> shared_data_t \<Rightarrow> bool \<times> shared_data_t" where
  "receiver_iteration cj cfg tv received d =
     (case received of
        Message buffer bytes \<Rightarrow>
          if bytes > 0
          then (case deserialize_message_from_json cj buffer of
                  Inr msg \<Rightarrow> (True, snd (handle_server_message cj cfg tv msg d))
                | Inl _ \<Rightarrow> (True, d))
          else (True, d)
      | Again \<Rightarrow> (True, d)
      | Blocked \<Rightarrow> (True, d)
      | Failed \<Rightarrow> (False, d)
      | Closed \<Rightarrow> (False, d\<lparr>should_exit := True\<rparr>))"

definition wants_ack :: "string \<Rightarrow> bool" where
  "wants_ack mt \<longleftrightarrow> \<not> strstr mt ''ACK'' \<and> \<not> strstr mt ''AUTH_REQUEST'' \<and> \<not> strstr mt ''KEEPALIVE''"

text \<open>What the sender does once the semaphore let it through: the text it sent, if any, and the state.\<close>

definition sender_deliver :: "'j cjson \<Rightarrow> client_context \<Rightarrow> string \<Rightarrow> nat option \<Rightarrow> timespec option \<Rightarrow> shared_data_t
    \<Rightarrow> string option \<times> shared_data_t" where
  "sender_deliver cj ctx stack sent clock d =
     (case pop_pending_message cj stack d of
        (Inl _, d) \<Rightarrow> (None, d)
      | (Inr msg, d) \<Rightarrow>
          (case serialize_message_to_json cj msg of
             Inl _ \<Rightarrow> (None, d)
           | Inr json_buffer \<Rightarrow>
               if fst (client_send ctx True sent json_buffer) = 0
               then (Some json_buffer,
                     if wants_ack (msg_type msg) then snd (add_pending_ack clock (timestamp msg) (msg_type msg) json_buffer d) else d)
               else (None, d)))"

definition sender_iteration :: "'j cjson \<Rightarrow> client_context \<Rightarrow> string \<Rightarrow> nat option \<Rightarrow> timespec option \<Rightarrow> bool \<Rightarrow> wait_result
    \<Rightarrow> shared_data_t \<Rightarrow> bool \<times> string option \<times> shared_data_t" where
  "sender_iteration cj ctx stack sent clock clock_ok r d =
     (case wait_for_message clock_ok r d of (sem_result, d) \<Rightarrow>
        if sem_result = 0 then (True, sender_deliver cj ctx stack sent clock d)
        else if sem_result = 1 then (True, None, d)
        else (False, None, d))"

section \<open>Starting and stopping the processes\<close>

datatype fork_result = Fork_failed | Fork_child | Fork_parent

datatype net_thread = Receiver | Sender | Ack_checker

text \<open>Which calls succeed, and what the program holds: the IPC handles, its running threads, its child.\<close>

record logic_calls =
  lc_ipc :: ipc_calls
  lc_fork :: fork_result
  lc_receiver :: bool
  lc_sender :: bool
  lc_ack_checker :: bool

record logic_world =
  lw_handles :: ipc_handles
  lw_threads :: "net_thread list"
  lw_child :: bool

definition start_thread :: "net_thread \<Rightarrow> logic_world \<Rightarrow> logic_world" where
  "start_thread t w = w\<lparr>lw_threads := lw_threads w @ [t]\<rparr>"

definition join_thread :: "net_thread \<Rightarrow> logic_world \<Rightarrow> logic_world" where
  "join_thread t w = w\<lparr>lw_threads := remove1 t (lw_threads w)\<rparr>"

definition reap_child :: "logic_world \<Rightarrow> logic_world" where
  "reap_child w = w\<lparr>lw_child := False\<rparr>"

definition clean_up :: "logic_world \<Rightarrow> logic_world" where
  "clean_up w = w\<lparr>lw_handles := ipc_cleanup (lw_handles w)\<rparr>"

text \<open>The result of \<^verbatim>\<open>logic_init\<close>, or of \<^verbatim>\<open>exit\<close> in the child, once the child and the threads have ended.\<close>

definition logic_init :: "logic_calls \<Rightarrow> int \<Rightarrow> string \<Rightarrow> string \<Rightarrow> int \<times> shared_data_t option \<times> logic_world" where
  "logic_init calls child_result role cid =
     (case ipc_init (lc_ipc calls) cid no_handles of
        (None, h) \<Rightarrow> (- 1, None, \<lparr>lw_handles = h, lw_threads = [], lw_child = False\<rparr>)
      | (Some d, h) \<Rightarrow>
          (let d = d\<lparr>client_role := strncpy_field ROLE_SIZE role, client_id := strncpy_field ID_SIZE cid\<rparr>;
               w = \<lparr>lw_handles = h, lw_threads = [], lw_child = False\<rparr>
           in case lc_fork calls of
                Fork_failed \<Rightarrow> (- 1, Some d, clean_up w)
              | Fork_child \<Rightarrow> (child_result, Some d, clean_up w)
              | Fork_parent \<Rightarrow>
                  (let w = w\<lparr>lw_child := True\<rparr> in
                   if \<not> lc_receiver calls then (- 1, Some d, clean_up (reap_child w))
                   else let w = start_thread Receiver w in
                   if \<not> lc_sender calls
                   then (- 1, Some (d\<lparr>should_exit := True\<rparr>), clean_up (reap_child (join_thread Receiver w)))
                   else let w = start_thread Sender w in
                   if \<not> lc_ack_checker calls
                   then (- 1, Some (wake_sender_thread (d\<lparr>should_exit := True\<rparr>)),
                         clean_up (reap_child (join_thread Sender (join_thread Receiver w))))
                   else let w = start_thread Ack_checker w in
                   (0, Some (wake_sender_thread (d\<lparr>should_exit := True\<rparr>)),
                    clean_up (join_thread Ack_checker (join_thread Sender (join_thread Receiver (reap_child w))))))))"

lemma logic_init_releases:
  assumes "fst (ipc_init (lc_ipc calls) cid no_handles) \<noteq> None"
  shows "case logic_init calls res role cid of (r, d, w) \<Rightarrow>
    \<not> shared_mapped (lw_handles w) \<and> \<not> shm_fd_open (lw_handles w) \<and> \<not> inventory_sem_open (lw_handles w)
    \<and> \<not> message_sem_open (lw_handles w) \<and> lw_threads w = [] \<and> \<not> lw_child w"
  using assms
  by (auto simp: logic_init_def Let_def clean_up_def reap_child_def join_thread_def start_thread_def ipc_cleanup_def
      split: option.splits prod.splits fork_result.splits)

text \<open>A set-up that fails half-way leaves the segment behind: nothing calls \<^verbatim>\<open>ipc_cleanup\<close> then.\<close>

theorem failed_init_leaks_segment:
  assumes "cid \<noteq> ''''" "shm_open_ok (lc_ipc calls)" "\<not> ftruncate_ok (lc_ipc calls)"
  shows "case logic_init calls res role cid of (r, d, w) \<Rightarrow> r = - 1 \<and> shm_fd_open (lw_handles w)"
  using assms by (simp add: logic_init_def ipc_init_def Let_def)

section \<open>The handlers keep the contract of the shared state\<close>

lemma client_op_and_then:
  "client_op (\<lambda>d. snd (f d)) \<Longrightarrow> client_op (\<lambda>d. snd (g d)) \<Longrightarrow> client_op (\<lambda>d. snd (and_then f g d))"
proof -
  assume f: "client_op (\<lambda>d. snd (f d))" and g: "client_op (\<lambda>d. snd (g d))"
  have "client_op (\<lambda>d. case f d of (r, d') \<Rightarrow> if r \<noteq> 0 then d' else snd (g d'))"
    by (rule client_op_case_int [OF f]) (rule client_op_if [OF client_op_id g])
  moreover have "(\<lambda>d. snd (and_then f g d)) = (\<lambda>d. case f d of (r, d') \<Rightarrow> if r \<noteq> 0 then d' else snd (g d'))"
    by (auto simp: and_then_def split: prod.splits)
  ultimately show ?thesis by simp
qed

text \<open>An operation chosen by looking at the state.\<close>

lemma client_op_choose: "(\<And>x. client_op (f x)) \<Longrightarrow> client_op (\<lambda>d. f (h d) d)"
  unfolding client_op_def by blast

lemma client_op_create: "client_op (\<lambda>d. snd (create_and_enqueue cj c d))"
proof (cases c)
  case (Inr msg)
  then have "(\<lambda>d. snd (create_and_enqueue cj c d)) = (\<lambda>d. snd (enqueue_pending_message cj msg d))"
    by (auto simp: create_and_enqueue_def split: prod.splits)
  then show ?thesis using enqueue.client_op_axioms by simp
qed (simp add: create_and_enqueue_def client_op_id)

interpretation ack_server: client_op "\<lambda>d. snd (send_ack_to_server cj tv ts d)" for cj tv ts
  unfolding send_ack_to_server_def
  by (rule client_op_choose [where h = "\<lambda>d. create_acknowledgment_message tv (client_role d) (client_id d) ''SERVER'' ''SERVER'' ts CLIENT_OK"])
     (rule client_op_create)

interpretation items_sent: client_op "\<lambda>d. snd (send_items cj tv mt target its ots d)" for cj tv mt target its ots
  unfolding send_items_def
  by (rule client_op_choose [where h = "\<lambda>d. create_items_message tv mt (client_id d) target its (int QUANTITY_ITEMS) ots"])
     (rule client_op_create)

lemma client_op_request_if:
  "client_op (\<lambda>d. case send_items cj tv mt target its ots d of (r, d) \<Rightarrow> if r = 0 then mark_pending_stock_requests idx d else d)"
  by (rule client_op_case_int [OF items_sent.client_op_axioms])
     (rule client_op_if [OF mark.client_op_axioms client_op_id])

interpretation replenish: client_op "\<lambda>d. snd (request_replenishment cj cfg tv d)" for cj cfg tv
proof -
  define P where "P d = get_low_stock_report (low_stock_threshold cfg) (critical_stock_threshold cfg) (max_stock_per_item cfg) d" for d
  define f where "f = (\<lambda>x d. if fst x = [] then d else case send_items cj tv ''WAREHOUSE_TO_SERVER__REPLENISH_REQUEST'' ''SERVER''
      (snd x) None d of (r, d) \<Rightarrow> if r = 0 then mark_pending_stock_requests (fst x) d else d)"
  have "client_op (f x)" for x
    unfolding f_def by (rule client_op_if [OF client_op_id client_op_request_if])
  then have "client_op (\<lambda>d. f (fst (snd (P d)), build_full_request_payload (fst (P d)) d) d)" by (rule client_op_choose)
  moreover have "(\<lambda>d. snd (request_replenishment cj cfg tv d)) = (\<lambda>d. f (fst (snd (P d)), build_full_request_payload (fst (P d)) d) d)"
    by (auto simp: request_replenishment_def P_def f_def get_low_stock_report_def Let_def split: prod.splits)
  ultimately show "client_op (\<lambda>d. snd (request_replenishment cj cfg tv d))" by simp
qed

lemma client_op_snd_if:
  "client_op (\<lambda>d. snd (f d)) \<Longrightarrow> client_op (\<lambda>d. snd (g d)) \<Longrightarrow> client_op (\<lambda>d. snd (if P then f d else g d))"
  by (cases P) simp_all

lemma client_op_dispatch_to_hub:
  "no_negative (items (load_items_list (payload msg))) \<Longrightarrow> client_op (\<lambda>d. snd (dispatch_to_hub cj cfg tv msg d))"
  unfolding dispatch_to_hub_def Let_def
  by (intro client_op_and_then client_op_modify ack_server.client_op_axioms items_sent.client_op_axioms replenish.client_op_axioms)

lemma client_op_dispatch_from_hub:
  "no_negative (items (load_items_list (payload msg))) \<Longrightarrow> client_op (\<lambda>d. snd (dispatch_from_hub cj tv msg d))"
  unfolding dispatch_from_hub_def Let_def
  by (intro client_op_and_then client_op_modify ack_server.client_op_axioms items_sent.client_op_axioms)
     (simp_all add: client_op_id)

lemma client_op_take_delivery:
  assumes "no_negative (items (load_items_list (payload msg)))"
  shows "client_op (\<lambda>d. snd (take_delivery cj tv msg d))"
proof -
  define its where "its = items (load_items_list (payload msg))"
  define g where "g = (\<lambda>mt d. snd (and_then (send_items cj (tv 1) mt ''SERVER'' its (Some (order_timestamp (load_items_list (payload msg)))))
      (\<lambda>d. (0, d)) d))"
  have g: "client_op (g mt)" for mt
    unfolding g_def by (intro client_op_and_then items_sent.client_op_axioms) (simp add: client_op_id)
  have "client_op (\<lambda>d. g (receipt_type d) d)" using g by (rule client_op_choose)
  then have "client_op (\<lambda>d. (\<lambda>d. g (receipt_type d) d) (clear_pending_stock_requests its d))"
    by (rule clear.then_op)
  then show ?thesis
    using assms unfolding take_delivery_def Let_def g_def its_def
    by (intro client_op_and_then client_op_modify ack_server.client_op_axioms) simp_all
qed

text \<open>Deliveries and orders carry no negative amounts; then the handler fulfils the contract for every message.\<close>

lemma client_op_handle_server_message:
  assumes "no_negative (items (load_items_list (payload msg)))"
  shows "client_op (\<lambda>d. snd (handle_server_message cj cfg tv msg d))"
proof -
  have ack: "client_op (\<lambda>d. snd (and_then (modify_inventory (items (load_items_list (payload msg))) INVENTORY_ADD)
      (send_ack_to_server cj (tv 0) (timestamp msg)) d))"
    by (intro client_op_and_then client_op_modify assms ack_server.client_op_axioms)
  show ?thesis
    unfolding handle_server_message_def Let_def
    by (intro client_op_snd_if ack_server.client_op_axioms ack client_op_dispatch_to_hub [OF assms]
          client_op_dispatch_from_hub [OF assms] client_op_take_delivery [OF assms])
       (simp_all add: remove_ack.client_op_axioms client_op_id)
qed

lemma client_op_flag:
  assumes "\<And>d. shared_ok (f d) = shared_ok d" "\<And>d. message_count (f d) = message_count d"
    "\<And>d. message_available_sem (f d) = message_available_sem d"
  shows "client_op f"
  using assms by unfold_locales simp_all

lemma shared_ok_flags [simp]:
  "shared_ok (d\<lparr>emergency_active := b\<rparr>) = shared_ok d" "shared_ok (d\<lparr>should_exit := b\<rparr>) = shared_ok d"
  "shared_ok (d\<lparr>inventory_updated := b\<rparr>) = shared_ok d"
  by (simp_all add: shared_ok_def queue_ok_def acks_ok_def)

interpretation emergency: client_op "do_emergency_check cj tv det" for cj tv det
proof (cases det)
  case None
  then have "do_emergency_check cj tv det = (\<lambda>d. d)" by (simp add: do_emergency_check_def fun_eq_iff)
  then show "client_op (do_emergency_check cj tv det)" by (simp add: client_op_id)
next
  case (Some result)
  define f where "f = (\<lambda>c d. case create_and_enqueue cj c d of (r, d) \<Rightarrow> if r \<noteq> 0 then d else d\<lparr>emergency_active := True\<rparr>)"
  have "client_op (\<lambda>d. d\<lparr>emergency_active := True\<rparr>)" by (rule client_op_flag) simp_all
  then have f: "client_op (f c)" for c
    unfolding f_def by (intro client_op_case_int client_op_create client_op_if client_op_id)
  have "client_op (\<lambda>d. f (create_client_emergency_message tv (client_role d) (client_id d) (emergency_code result) (emergency_type result)) d)"
    using f by (rule client_op_choose)
  then show "client_op (do_emergency_check cj tv det)"
    unfolding do_emergency_check_def Some f_def option.case by (intro client_op_if client_op_id)
qed

interpretation inventory_sent: client_op "do_inventory_update cj tv" for cj tv
proof -
  define g where "g = (\<lambda>(its, mt) d. snd (send_items cj (tv 1) mt ''SERVER'' its None d))"
  define h where "h d = (get_inventory_snapshot d, if client_role d = ''HUB'' then ''HUB_TO_SERVER__INVENTORY_UPDATE''
      else ''WAREHOUSE_TO_SERVER__INVENTORY_UPDATE'')" for d
  have "client_op (g x)" for x by (cases x) (simp add: g_def items_sent.client_op_axioms)
  then have "client_op (\<lambda>d. g (h d) d)" by (rule client_op_choose)
  then have "client_op (\<lambda>d. case create_and_enqueue cj c d of (r, d) \<Rightarrow> if r \<noteq> 0 then d else g (h d) d)" for c
    by (intro client_op_case_int client_op_create client_op_if client_op_id)
  then have "client_op (\<lambda>d. (\<lambda>c d. case create_and_enqueue cj c d of (r, d) \<Rightarrow> if r \<noteq> 0 then d else g (h d) d)
      (create_keepalive_message (tv 0) (client_role d) (client_id d) ''ALIVE'') d)"
    by (rule client_op_choose)
  moreover have "do_inventory_update cj tv = (\<lambda>d. (\<lambda>c d. case create_and_enqueue cj c d of (r, d) \<Rightarrow> if r \<noteq> 0 then d else g (h d) d)
      (create_keepalive_message (tv 0) (client_role d) (client_id d) ''ALIVE'') d)"
    by (auto simp: do_inventory_update_def fun_eq_iff g_def h_def Let_def split: prod.splits)
  ultimately show "client_op (do_inventory_update cj tv)" by simp
qed

interpretation low_stock: client_op "\<lambda>d. snd (do_check_low_stock cj cfg tv d)" for cj cfg tv
proof -
  define P where "P d = get_low_stock_report (low_stock_threshold cfg) (critical_stock_threshold cfg) (max_stock_per_item cfg) d" for d
  define f where "f = (\<lambda>x d. if fst x = [] then d else case send_items cj tv ''HUB_TO_SERVER__STOCK_REQUEST'' ''SERVER''
      (snd x) None d of (r, d) \<Rightarrow> if r = 0 then mark_pending_stock_requests (fst x) d else d)"
  have "client_op (f x)" for x
    unfolding f_def by (rule client_op_if [OF client_op_id client_op_request_if])
  then have "client_op (\<lambda>d. f (fst (snd (P d)), build_full_request_payload (fst (P d)) d) d)" by (rule client_op_choose)
  then have "client_op (\<lambda>d. if client_role d \<noteq> ''HUB'' then d else f (fst (snd (P d)), build_full_request_payload (fst (P d)) d) d)"
    by (rule client_op_if [OF client_op_id])
  moreover have "(\<lambda>d. snd (do_check_low_stock cj cfg tv d)) =
      (\<lambda>d. if client_role d \<noteq> ''HUB'' then d else f (fst (snd (P d)), build_full_request_payload (fst (P d)) d) d)"
    by (auto simp: do_check_low_stock_def P_def f_def get_low_stock_report_def Let_def split: prod.splits)
  ultimately show "client_op (\<lambda>d. snd (do_check_low_stock cj cfg tv d))" by simp
qed

lemma no_negative_consumption: "config_ok cfg \<Longrightarrow> no_negative (items_to_reduce cfg rand snapshot)"
proof -
  assume "config_ok cfg"
  then have "0 \<le> get_random_consume_amount cfg r" for r
    using smod_range [of "consume_max_amount cfg - consume_min_amount cfg + 1" r]
    by (simp add: config_ok_def get_random_consume_amount_def)
  then show ?thesis by (auto simp: no_negative_def items_to_reduce_def)
qed

lemma client_op_consume: "config_ok cfg \<Longrightarrow> client_op (do_consume_stock cfg rand)"
proof -
  assume c: "config_ok cfg"
  have "client_op (\<lambda>d. snd (modify_inventory (items_to_reduce cfg rand s) INVENTORY_REDUCE d))" for s
    by (rule client_op_modify [OF no_negative_consumption [OF c]])
  then have "client_op (\<lambda>d. (\<lambda>s d. snd (modify_inventory (items_to_reduce cfg rand s) INVENTORY_REDUCE d)) (get_inventory_snapshot d) d)"
    by (rule client_op_choose)
  then show ?thesis unfolding do_consume_stock_def [abs_def] Let_def by (rule client_op_if [OF _ client_op_id])
qed

section \<open>All interleavings of the threads\<close>

text \<open>
  The critical sections through which the business process, the receiver, the sender and the checker of
  acknowledgements change the shared state, and the flags they set without the semaphore.
\<close>

datatype client_action =
    A_enqueue string
  | A_modify "inventory_item_t list" inventory_operation_t
  | A_mark "nat list"
  | A_clear "inventory_item_t list"
  | A_add_ack "timespec option" string string string
  | A_remove_ack string
  | A_check_acks "timespec option"
  | A_wake
  | A_exit
  | A_emergency
  | A_inventory_seen

fun perform :: "timer_config_t \<Rightarrow> client_action \<Rightarrow> shared_data_t \<Rightarrow> shared_data_t" where
  "perform cfg (A_enqueue t) d = snd (enqueue_pending_message_json t d)"
| "perform cfg (A_modify its op) d = snd (modify_inventory its op d)"
| "perform cfg (A_mark idx) d = mark_pending_stock_requests idx d"
| "perform cfg (A_clear its) d = clear_pending_stock_requests its d"
| "perform cfg (A_add_ack clock i ty json) d = snd (add_pending_ack clock i ty json d)"
| "perform cfg (A_remove_ack i) d = snd (remove_pending_ack i d)"
| "perform cfg (A_check_acks clock) d = snd (check_ack_timeouts cfg clock d)"
| "perform cfg A_wake d = wake_sender_thread d"
| "perform cfg A_exit d = d\<lparr>should_exit := True\<rparr>"
| "perform cfg A_emergency d = d\<lparr>emergency_active := True\<rparr>"
| "perform cfg A_inventory_seen d = d\<lparr>inventory_updated := False\<rparr>"

text \<open>Amounts are not negative, and the keys of an acknowledgement come from the fields of a message.\<close>

fun action_ok :: "client_action \<Rightarrow> bool" where
  "action_ok (A_modify its op) = no_negative its"
| "action_ok (A_add_ack clock i ty json) = (fits TIMESTAMP_SIZE i \<and> fits MESSAGE_TYPE_SIZE ty)"
| "action_ok _ = True"

text \<open>The sender either waits for the semaphore or has passed it and is about to take a message.\<close>

datatype sender_pc = Waiting | Popping

inductive client_step :: "timer_config_t \<Rightarrow> 'j cjson \<Rightarrow> shared_data_t \<times> sender_pc \<Rightarrow> shared_data_t \<times> sender_pc \<Rightarrow> bool"
  for cfg :: timer_config_t and cj :: "'j cjson" where
  act: "action_ok a \<Longrightarrow> client_step cfg cj (d, pc) (perform cfg a d, pc)"
| wait: "wait_for_message True r d = (0, d') \<Longrightarrow> client_step cfg cj (d, Waiting) (d', Popping)"
| pop: "client_step cfg cj (d, Popping) (snd (pop_pending_message cj stack d), Waiting)"

inductive_cases client_stepE: "client_step cfg cj s s'"

definition start_state :: "string \<Rightarrow> string \<Rightarrow> shared_data_t" where
  "start_state role cid = fresh_shared_data\<lparr>client_role := role, client_id := cid\<rparr>"

definition system_ok :: "shared_data_t \<times> sender_pc \<Rightarrow> bool" where
  "system_ok s = (case s of (d, pc) \<Rightarrow>
     shared_ok d \<and> message_count d \<le> message_available_sem d + (if pc = Popping then 1 else 0))"

lemma client_op_perform: "action_ok a \<Longrightarrow> client_op (perform cfg a)"
proof (cases a)
  case (A_modify its op)
  assume "action_ok a"
  then show ?thesis using client_op_modify [of its op] by (simp add: A_modify perform.simps [abs_def])
next
  case (A_add_ack clock i ty json)
  assume "action_ok a"
  then show ?thesis using client_op_add_ack [of i ty clock json] by (simp add: A_add_ack perform.simps [abs_def])
qed (auto simp: perform.simps [abs_def] enqueue_json.client_op_axioms mark.client_op_axioms clear.client_op_axioms
       remove_ack.client_op_axioms check_acks.client_op_axioms wake.client_op_axioms intro!: client_op_flag)

lemma shared_ok_pop: "shared_ok d \<Longrightarrow> shared_ok (snd (pop_pending_message cj stack d))"
proof -
  assume d: "shared_ok d"
  show ?thesis
  proof (cases "queued d")
    case Nil
    with d have "message_count d = 0" by (auto simp: queued_def shared_ok_def queue_ok_def MAX_PENDING_MESSAGES_def)
    with d show ?thesis by (simp add: pop_pending_message_def)
  next
    case (Cons t ts)
    then have "queue_ok (snd (pop_pending_message cj stack d))" using d pop_first(3) [of d t ts cj stack] by (simp add: shared_ok_def)
    with d show ?thesis by (auto simp: shared_ok_def acks_ok_def pop_pending_message_def Let_def)
  qed
qed

lemma client_step_ok: "client_step cfg cj s s' \<Longrightarrow> system_ok s \<Longrightarrow> system_ok s'"
proof (induction rule: client_step.induct)
  case (act a d pc)
  show ?case using client_op.keeps [OF client_op_perform [OF act(1)], of d cfg]
      client_op.still_posted [OF client_op_perform [OF act(1)], of d] act(2)
    by (auto simp: system_ok_def)
next
  case (wait r d d')
  then show ?case
    by (auto simp: system_ok_def wait_for_message_def shared_ok_def queue_ok_def acks_ok_def split: if_splits)
next
  case (pop d stack)
  then show ?case using shared_ok_pop [of d cj stack]
    by (auto simp: system_ok_def pop_pending_message_def Let_def)
qed

lemma client_reach_ok:
  assumes "(client_step cfg cj)\<^sup>*\<^sup>* (start_state role cid, Waiting) s"
  shows "system_ok s"
  using assms
proof (induction rule: rtranclp_induct)
  case base
  have "shared_ok (start_state role cid)" using shared_ok_fresh by (simp add: start_state_def shared_ok_def queue_ok_def acks_ok_def)
  then show ?case by (simp add: system_ok_def start_state_def fresh_shared_data_def)
qed (rule client_step_ok)


end
