(* ===== verification/Client_Proofs.thy ===== *)
theory Client_Proofs
  imports Client_Logic
begin

text \<open>
  What the client's tasks achieve: retransmission of unacknowledged messages, deliveries and orders booked into
  the stock, requests for exactly the missing amounts, and instances of the statements of \<open>Client_Logic\<close>.
\<close>

section \<open>Queueing several texts\<close>

lemma length_queued: "queue_ok d \<Longrightarrow> length (queued d) = message_count d"
  by (simp add: queued_def queue_ok_def)

lemma enqueue_full: "message_count d \<ge> MAX_PENDING_MESSAGES \<Longrightarrow> enqueue_pending_message_json t d = (- 1, d)"
  by (simp add: enqueue_pending_message_json_def)

lemma enqueue_frame:
  "pending_acks (snd (enqueue_pending_message_json t d)) = pending_acks d"
  "inventory_item (snd (enqueue_pending_message_json t d)) = inventory_item d"
  "pending_stock_request (snd (enqueue_pending_message_json t d)) = pending_stock_request d"
  "client_role (snd (enqueue_pending_message_json t d)) = client_role d"
  "client_id (snd (enqueue_pending_message_json t d)) = client_id d"
  "should_exit (snd (enqueue_pending_message_json t d)) = should_exit d"
  by (simp_all add: enqueue_pending_message_json_def)

lemma enqueue_all:
  "queue_ok d \<Longrightarrow>
   let d' = fold (\<lambda>t d. snd (enqueue_pending_message_json t d)) ts d in
     queued d' = queued d @ take (MAX_PENDING_MESSAGES - length (queued d)) (map (strncpy_field BUFFER_SIZE) ts)
     \<and> pending_acks d' = pending_acks d \<and> should_exit d' = should_exit d"
proof (induction ts arbitrary: d)
  case (Cons t ts)
  show ?case
  proof (cases "message_count d < MAX_PENDING_MESSAGES")
    case True
    then obtain d1 where d1: "enqueue_pending_message_json t d = (0, d1)" "queued d1 = queued d @ [strncpy_field BUFFER_SIZE t]" "queue_ok d1"
      using enqueue_json_room [OF Cons.prems, of t] by blast
    have "MAX_PENDING_MESSAGES - length (queued d) = Suc (MAX_PENDING_MESSAGES - length (queued d1))"
      using True length_queued [OF Cons.prems] by (simp add: d1(2))
    with Cons.IH [OF d1(3)] d1 enqueue_frame [of t d] show ?thesis by (simp add: Let_def)
  next
    case False
    with Cons.prems have "length (queued d) = MAX_PENDING_MESSAGES" by (simp add: length_queued queue_ok_def)
    with False Cons.IH [OF Cons.prems] show ?thesis by (simp add: enqueue_full Let_def)
  qed
qed simp

section \<open>Retransmission\<close>

text \<open>The round when no message has used up its retries.\<close>

lemma ack_checker_goes_on:
  assumes ok: "shared_ok d" and False: "\<not> (\<exists>a\<in>set (pending_acks d). exhausted cfg now a)"
  shows "let again = map (\<lambda>a. if due cfg now a then retried now a else a) (pending_acks d);
             r = ack_checker_iteration cfg (Some now) d
         in fst r \<and> pending_acks (snd r) = again
              \<and> queued (snd r) = queued d @ (if \<exists>a\<in>set (pending_acks d). due cfg now a
                   then take (MAX_PENDING_MESSAGES - length (queued d))
                          (map pa_message_json (filter (\<lambda>a. pa_active a \<and> pa_retry_count a > 0) again))
                   else [])"
proof -
  define again where "again = map (\<lambda>a. if due cfg now a then retried now a else a) (pending_acks d)"
  define d1 where "d1 = d\<lparr>pending_acks := again\<rparr>"
  define resent where "resent = map pa_message_json (filter (\<lambda>a. pa_active a \<and> pa_retry_count a > 0) again)"
  have check: "check_ack_timeouts cfg (Some now) d = (if \<exists>a\<in>set (pending_acks d). due cfg now a then 1 else 0, d1)"
    using scan_acks_goes_on [OF False] by (simp add: check_ack_timeouts_def d1_def again_def)
  have d1: "queue_ok d1" "queued d1 = queued d" using ok by (simp_all add: d1_def shared_ok_def queue_ok_def queued_def)
  have fit: "fits BUFFER_SIZE (pa_message_json a)" if "a \<in> set again" for a
  proof -
    from that obtain b where "b \<in> set (pending_acks d)" "pa_message_json a = pa_message_json b"
      by (auto simp: again_def retried_def)
    with ok show ?thesis by (simp add: shared_ok_def acks_ok_def)
  qed
  have resent: "map (strncpy_field BUFFER_SIZE) resent = resent"
    unfolding resent_def map_map by (rule map_cong) (simp_all add: fit strncpy_field_id)
  have "length again = MAX_PENDING_ACKS" using ok by (simp add: again_def shared_ok_def acks_ok_def)
  then have "length resent \<le> MAX_PENDING_ACKS"
    using length_filter_le [of "\<lambda>a. pa_active a \<and> pa_retry_count a > 0" again] by (simp add: resent_def)
  moreover have "collect_retryable_messages MAX_PENDING_ACKS d1 = take MAX_PENDING_ACKS (map (strncpy_field BUFFER_SIZE) resent)"
    by (simp add: collect_retryable_messages_def resent_def d1_def o_def)
  ultimately have collect: "collect_retryable_messages MAX_PENDING_ACKS d1 = resent" unfolding resent by simp
  show ?thesis
  proof (cases "\<exists>a\<in>set (pending_acks d). due cfg now a")
    case True
    then have "ack_checker_iteration cfg (Some now) d = (True, fold (\<lambda>t d. snd (enqueue_pending_message_json t d)) resent d1)"
      unfolding ack_checker_iteration_def check by (simp add: collect)
    moreover have "pending_acks d1 = again" by (simp add: d1_def)
    ultimately show ?thesis
      using True enqueue_all [OF d1(1), of resent] unfolding d1(2) resent Let_def
      by (simp only: again_def [symmetric] resent_def [symmetric] fst_conv snd_conv if_True simp_thms)
  next
    case no_due: False
    then have "ack_checker_iteration cfg (Some now) d = (True, d1)"
      unfolding ack_checker_iteration_def check by simp
    with no_due show ?thesis unfolding Let_def again_def [symmetric] using d1(2) by (simp add: d1_def)
  qed
qed

text \<open>C36: One round of the acknowledgement checker at time \<open>now\<close>. When a message has been due for the last allowed
  time, the checker stops and raises the exit flag and the timeout flag. Otherwise every due message gets its next
  retry number and the current time, the others are left alone, and if anything was due the texts of all messages
  that have been retried so far and are still unacknowledged are queued again, in table order, as far as the queue
  has room.\<close>

theorem ack_checker_exact:
  assumes "shared_ok d"
  shows "let again = map (\<lambda>a. if due cfg now a then retried now a else a) (pending_acks d);
             r = ack_checker_iteration cfg (Some now) d
         in if \<exists>a\<in>set (pending_acks d). exhausted cfg now a
            then \<not> fst r \<and> should_exit (snd r) \<and> ack_timeout_occurred (snd r)
            else fst r \<and> pending_acks (snd r) = again
              \<and> queued (snd r) = queued d @ (if \<exists>a\<in>set (pending_acks d). due cfg now a
                   then take (MAX_PENDING_MESSAGES - length (queued d))
                          (map pa_message_json (filter (\<lambda>a. pa_active a \<and> pa_retry_count a > 0) again))
                   else [])"
proof (cases "\<exists>a\<in>set (pending_acks d). exhausted cfg now a")
  case True
  then obtain as where "scan_acks cfg now (pending_acks d) = (None, as)"
    using scan_acks_fails [of cfg now "pending_acks d"] by (cases "scan_acks cfg now (pending_acks d)") auto
  then have "ack_checker_iteration cfg (Some now) d =
      (False, wake_sender_thread (d\<lparr>pending_acks := as, ack_timeout_occurred := True, should_exit := True\<rparr>))"
    by (simp add: ack_checker_iteration_def check_ack_timeouts_def)
  with True show ?thesis by (simp add: Let_def wake_sender_thread_def)
next
  case False
  with ack_checker_goes_on [OF assms False] show ?thesis by (simp add: Let_def)
qed

text \<open>
  So a message that is not due is sent again whenever another one is, once it has been retried: with two entries,
  one retried and still within its time, the other due for the first time, both are queued.
\<close>

theorem not_due_message_resent:
  assumes "shared_ok d" "filter pa_active (pending_acks d) = [a, b]" "queued d = []"
    and "\<not> due cfg now a" "pa_retry_count a > 0" "due cfg now b" "0 \<le> pa_retry_count b" "pa_retry_count b + 1 < max_retries cfg"
  shows "queued (snd (ack_checker_iteration cfg (Some now) d)) = [pa_message_json a, pa_message_json b]"
proof -
  define f where "f = (\<lambda>x. if due cfg now x then retried now x else x)"
  have act: "pa_active (f x) = pa_active x" for x by (simp add: f_def retried_def)
  have ne: "\<not> (\<exists>x\<in>set (pending_acks d). exhausted cfg now x)"
  proof
    assume "\<exists>x\<in>set (pending_acks d). exhausted cfg now x"
    then obtain x where x: "x \<in> set (pending_acks d)" "exhausted cfg now x" by blast
    then have "x \<in> set (filter pa_active (pending_acks d))" by (simp add: exhausted_def due_def)
    then have "x = a \<or> x = b" unfolding assms(2) by simp
    with x(2) assms(4,8) show False by (auto simp: exhausted_def)
  qed
  have "b \<in> set (filter pa_active (pending_acks d))" unfolding assms(2) by simp
  then have b: "\<exists>x\<in>set (pending_acks d). due cfg now x" using assms(6) by auto
  have "filter (\<lambda>x. pa_active x \<and> pa_retry_count x > 0) (map f xs) = filter (\<lambda>x. pa_retry_count x > 0) (map f (filter pa_active xs))" for xs
    by (induction xs) (simp_all add: act)
  then have "filter (\<lambda>x. pa_active x \<and> pa_retry_count x > 0) (map f (pending_acks d)) = [a, retried now b]"
    using assms by (simp add: f_def retried_def)
  then show ?thesis
    using ack_checker_goes_on [OF assms(1) ne] b assms(3) unfolding f_def Let_def
    by (simp add: retried_def MAX_PENDING_MESSAGES_def)
qed

section \<open>Messages that are queued\<close>

text \<open>The text under which a built message is queued, if it could be built and serialized.\<close>

definition text_of :: "'j cjson \<Rightarrow> int + message_t \<Rightarrow> string option" where
  "text_of cj created = (case created of Inl _ \<Rightarrow> None | Inr msg \<Rightarrow>
     (case serialize_message_to_json cj msg of Inl _ \<Rightarrow> None | Inr t \<Rightarrow> Some (strncpy_field BUFFER_SIZE t)))"

definition posted :: "string \<Rightarrow> shared_data_t \<Rightarrow> shared_data_t" where
  "posted t d = snd (enqueue_pending_message_json t d)"

lemma posted_frame [simp]:
  "inventory_item (posted t d) = inventory_item d" "pending_stock_request (posted t d) = pending_stock_request d"
  "client_role (posted t d) = client_role d" "client_id (posted t d) = client_id d" "pending_acks (posted t d) = pending_acks d"
  by (simp_all add: posted_def enqueue_frame)

lemma enqueue_json_truncates:
  "enqueue_pending_message_json (strncpy_field BUFFER_SIZE t) d = enqueue_pending_message_json t d"
  by (simp add: enqueue_pending_message_json_def)

lemma create_posts:
  assumes "text_of cj created = Some t" "message_count d < MAX_PENDING_MESSAGES"
  shows "create_and_enqueue cj created d = (0, posted t d)"
proof -
  obtain msg u where m: "created = Inr msg" "serialize_message_to_json cj msg = Inr u" "t = strncpy_field BUFFER_SIZE u"
    using assms(1) by (auto simp: text_of_def split: sum.splits)
  obtain d' where "enqueue_pending_message_json u d = (0, d')" using assms(2) by (simp add: enqueue_pending_message_json_def)
  with m show ?thesis
    by (simp add: create_and_enqueue_def enqueue_message posted_def enqueue_json_truncates)
qed

lemma posted_queue:
  assumes "queue_ok d" "message_count d < MAX_PENDING_MESSAGES"
  shows "queued (posted t d) = queued d @ [strncpy_field BUFFER_SIZE t]" "queue_ok (posted t d)"
    "message_count (posted t d) = message_count d + 1"
proof -
  from enqueue_json_room [OF assms, of t] obtain d' where d': "enqueue_pending_message_json t d = (0, d')"
    "queued d' = queued d @ [strncpy_field BUFFER_SIZE t]" "queue_ok d'" by blast
  then show "queued (posted t d) = queued d @ [strncpy_field BUFFER_SIZE t]" "queue_ok (posted t d)" by (simp_all add: posted_def)
  show "message_count (posted t d) = message_count d + 1" using assms(2) by (simp add: posted_def enqueue_pending_message_json_def)
qed

lemma text_of_fits: "text_of cj c = Some t \<Longrightarrow> strncpy_field BUFFER_SIZE t = t"
  by (auto simp: text_of_def split: sum.splits)

lemma modify_queue [simp]:
  "queued (snd (modify_inventory its op d)) = queued d" "message_count (snd (modify_inventory its op d)) = message_count d"
  "queue_ok (snd (modify_inventory its op d)) = queue_ok d" "client_role (snd (modify_inventory its op d)) = client_role d"
  "client_id (snd (modify_inventory its op d)) = client_id d"
  "pending_stock_request (snd (modify_inventory its op d)) = pending_stock_request d"
  "fst (modify_inventory its op d) = 0"
  by (simp_all add: modify_inventory_def queued_def queue_ok_def)

lemma clear_queue [simp]:
  "queued (clear_pending_stock_requests its d) = queued d" "message_count (clear_pending_stock_requests its d) = message_count d"
  "queue_ok (clear_pending_stock_requests its d) = queue_ok d" "client_role (clear_pending_stock_requests its d) = client_role d"
  "client_id (clear_pending_stock_requests its d) = client_id d"
  "inventory_item (clear_pending_stock_requests its d) = inventory_item d"
  by (simp_all add: clear_pending_stock_requests_def queued_def queue_ok_def)

lemma mark_queue [simp]:
  "queued (mark_pending_stock_requests idx d) = queued d" "client_role (mark_pending_stock_requests idx d) = client_role d"
  "inventory_item (mark_pending_stock_requests idx d) = inventory_item d"
  by (simp_all add: mark_pending_stock_requests_def queued_def)

lemma and_then_beta: "and_then f g d = (if fst (f d) \<noteq> 0 then (- 1, snd (f d)) else g (snd (f d)))"
  by (simp add: and_then_def case_prod_beta)

lemma length_items [simp]: "length (items (load_items_list m)) = QUANTITY_ITEMS"
  by (simp add: load_items_list_def)

lemma level_modify:
  "length its = QUANTITY_ITEMS \<Longrightarrow> level (inventory_item (snd (modify_inventory its op d))) = level (fold (modify_item op) its (inventory_item d))"
  by (simp add: modify_inventory_def)

lemma level_wf: "shared_ok d \<Longrightarrow> 1 \<le> k \<Longrightarrow> k \<le> 6 \<Longrightarrow> \<exists>q. level (inventory_item d) k = Some q \<and> 0 \<le> q"
proof -
  assume d: "shared_ok d" and k: "1 \<le> k" "k \<le> 6"
  have "k \<in> set (map item_id (inventory_item d))" using d k by (auto simp: shared_ok_def)
  then have "find (\<lambda>s. item_id s = k) (inventory_item d) \<noteq> None" by (auto simp: find_None_iff)
  then obtain s where s: "find (\<lambda>s. item_id s = k) (inventory_item d) = Some s" by auto
  then have "s \<in> set (inventory_item d)" by (auto simp: find_Some_iff)
  with d s show ?thesis by (auto simp: level_def shared_ok_def no_negative_def)
qed

section \<open>Deliveries\<close>

lemma clear_nth:
  assumes "i < QUANTITY_ITEMS" "length (pending_stock_request d) = QUANTITY_ITEMS"
  shows "pending_stock_request (clear_pending_stock_requests its d) ! i \<longleftrightarrow>
    pending_stock_request d ! i \<and> \<not> (\<exists>it\<in>set its. quantity it > 0 \<and> item_id it = int i + 1)"
proof -
  define f where "f = (\<lambda>(it :: inventory_item_t) p. if quantity it \<le> 0 then p
                      else let item_index = item_id it - 1
                           in if item_index < 0 \<or> item_index \<ge> int QUANTITY_ITEMS then p else p[nat item_index := False])"
  have step: "length (f it p) = length p" "f it p ! i \<longleftrightarrow> p ! i \<and> \<not> (quantity it > 0 \<and> item_id it = int i + 1)"
    if "length p = QUANTITY_ITEMS" for it p
    using that assms(1) by (auto simp: f_def Let_def nth_list_update split: if_splits)
  have "length p = QUANTITY_ITEMS \<Longrightarrow> fold f its p ! i \<longleftrightarrow> p ! i \<and> \<not> (\<exists>it\<in>set its. quantity it > 0 \<and> item_id it = int i + 1)" for p
    by (induction its arbitrary: p) (auto simp: step)
  then show ?thesis using assms(2) by (simp add: clear_pending_stock_requests_def f_def)
qed


section \<open>Orders to dispatch\<close>

lemma create_cases:
  obtains t where "text_of cj c = Some t" "message_count d < MAX_PENDING_MESSAGES" "create_and_enqueue cj c d = (0, posted t d)"
  | "create_and_enqueue cj c d = (- 1, d)"
proof (cases "text_of cj c")
  case None
  then have "create_and_enqueue cj c d = (- 1, d)"
    by (auto simp: create_and_enqueue_def text_of_def enqueue_message split: sum.splits)
  then show ?thesis by (rule that(2))
next
  case (Some t)
  show ?thesis
  proof (cases "message_count d < MAX_PENDING_MESSAGES")
    case True
    then show ?thesis using create_posts [OF Some True] that(1) [OF Some] by blast
  next
    case False
    with Some have "create_and_enqueue cj c d = (- 1, d)"
      by (auto simp: create_and_enqueue_def text_of_def enqueue_message enqueue_full split: sum.splits)
    then show ?thesis by (rule that(2))
  qed
qed

lemma replenishment_frame:
  assumes "queue_ok d"
  shows "fst (request_replenishment cj cfg tv d) = 0 \<and> inventory_item (snd (request_replenishment cj cfg tv d)) = inventory_item d
    \<and> (\<exists>rest. queued (snd (request_replenishment cj cfg tv d)) = queued d @ rest \<and> length rest \<le> 1)"
proof -
  obtain low idx crit where r: "get_low_stock_report (low_stock_threshold cfg) (critical_stock_threshold cfg) (max_stock_per_item cfg) d = (low, idx, crit)"
    by (cases "get_low_stock_report (low_stock_threshold cfg) (critical_stock_threshold cfg) (max_stock_per_item cfg) d") auto
  define c where "c = create_items_message tv ''WAREHOUSE_TO_SERVER__REPLENISH_REQUEST'' (client_id d) ''SERVER''
    (build_full_request_payload low d) (int QUANTITY_ITEMS) None"
  show ?thesis
  proof (cases rule: create_cases [of cj c d])
    case (1 t)
    then show ?thesis
      using posted_queue(1) [OF assms 1(2), of t] by (simp add: request_replenishment_def r send_items_def c_def [symmetric])
  next
    case 2
    then show ?thesis by (simp add: request_replenishment_def r send_items_def c_def [symmetric])
  qed
qed


section \<open>Requests of a hub\<close>

lemma find_append: "find P (xs @ ys) = (case find P xs of None \<Rightarrow> find P ys | Some x \<Rightarrow> Some x)"
  by (induction xs) simp_all

lemma level_set_amounts:
  "level (fold (\<lambda>low. update_first (\<lambda>s. item_id s = item_id low) (\<lambda>s. s\<lparr>quantity := quantity low\<rparr>)) lows inventory) k =
   (case find (\<lambda>l. item_id l = k) (rev lows) of Some l \<Rightarrow> map_option (\<lambda>_. quantity l) (level inventory k) | None \<Rightarrow> level inventory k)"
proof (induction lows arbitrary: inventory)
  case (Cons l lows)
  have "level (update_first (\<lambda>s. item_id s = item_id l) (\<lambda>s. s\<lparr>quantity := quantity l\<rparr>) inventory) k =
      (if k = item_id l then map_option (\<lambda>_. quantity l) (level inventory k) else level inventory k)"
    by (simp add: level_def find_update_first option.map_comp o_def)
  then show ?case using Cons [of "update_first (\<lambda>s. item_id s = item_id l) (\<lambda>s. s\<lparr>quantity := quantity l\<rparr>) inventory"]
    by (auto simp: find_append option.map_comp o_def split: option.splits)
qed simp

lemma find_map: "find P (map f xs) = map_option f (find (\<lambda>x. P (f x)) xs)"
  by (induction xs) simp_all

lemma find_eq: "find (\<lambda>j. j = i) xs = (if i \<in> set xs then Some i else None)"
  by (induction xs) auto

lemma length_filter_all: "length (filter P xs) = length xs \<longleftrightarrow> (\<forall>x\<in>set xs. P x)"
proof (induction xs)
  case (Cons x xs)
  have "length (filter P xs) \<noteq> Suc (length xs)" using length_filter_le [of P xs] by linarith
  with Cons show ?case by auto
qed simp

lemma nth_item_id: "shared_ok d \<Longrightarrow> i < QUANTITY_ITEMS \<Longrightarrow> item_id (inventory_item d ! i) = int i + 1"
proof -
  assume d: "shared_ok d" and i: "i < QUANTITY_ITEMS"
  then have m: "map item_id (inventory_item d) = [1, 2, 3, 4, 5, 6]" by (simp add: shared_ok_def)
  have "length (inventory_item d) = length (map item_id (inventory_item d))" by simp
  then have "length (inventory_item d) = 6" unfolding m by simp
  with i have "item_id (inventory_item d ! i) = map item_id (inventory_item d) ! i" by (simp add: QUANTITY_ITEMS_def)
  also have "\<dots> = int i + 1"
    unfolding m using i by (auto simp: QUANTITY_ITEMS_def less_Suc_eq numeral_nat)
  finally show ?thesis .
qed

definition short :: "timer_config_t \<Rightarrow> shared_data_t \<Rightarrow> nat \<Rightarrow> bool" where
  "short cfg d i \<longleftrightarrow> quantity (inventory_item d ! i) < low_stock_threshold cfg \<and> \<not> pending_stock_request d ! i"

definition hub_report :: "timer_config_t \<Rightarrow> shared_data_t \<Rightarrow> inventory_item_t list \<times> nat list \<times> nat" where
  "hub_report cfg d = get_low_stock_report (low_stock_threshold cfg) (critical_stock_threshold cfg) (max_stock_per_item cfg) d"

lemma report_indices: "fst (snd (hub_report cfg d)) = filter (short cfg d) [0..<QUANTITY_ITEMS]"
  by (simp add: hub_report_def get_low_stock_report_def Let_def short_def [abs_def])

lemma report_critical: "snd (snd (hub_report cfg d)) = QUANTITY_ITEMS \<longleftrightarrow>
    (\<forall>i<QUANTITY_ITEMS. quantity (inventory_item d ! i) < critical_stock_threshold cfg)"
  using length_filter_all [of "\<lambda>i. quantity (inventory_item d ! i) < critical_stock_threshold cfg" "[0..<QUANTITY_ITEMS]"]
  by (simp add: hub_report_def get_low_stock_report_def Let_def Ball_def)

text \<open>The payload asks for what is missing of the articles that are short, and for nothing of the others.\<close>

lemma request_amounts:
  assumes ok: "shared_ok d" and i: "i < QUANTITY_ITEMS"
  shows "level (build_full_request_payload (fst (hub_report cfg d)) d) (int i + 1) =
    Some (if short cfg d i then max 0 (max_stock_per_item cfg - quantity (inventory_item d ! i)) else 0)"
proof -
  define mk where "mk = (\<lambda>i. let s = inventory_item d ! i; needed = max_stock_per_item cfg - quantity s
      in \<lparr>item_id = item_id s, item_name = strncpy_field ITEM_NAME_SIZE (item_name s), quantity = (if needed > 0 then needed else 0)\<rparr>)"
  define idx where "idx = filter (short cfg d) [0..<QUANTITY_ITEMS]"
  have low: "fst (hub_report cfg d) = map mk idx"
    by (simp add: hub_report_def get_low_stock_report_def Let_def short_def [abs_def] mk_def idx_def)
  have mk: "item_id (mk j) = int j + 1" if "j < QUANTITY_ITEMS" for j
    using nth_item_id [OF ok that] by (simp add: mk_def Let_def)
  have "find (\<lambda>j. item_id (mk j) = int i + 1) (rev idx) = find (\<lambda>j. j = i) (rev idx)"
    using mk by (intro find_cong) (auto simp: idx_def)
  then have f: "find (\<lambda>l. item_id l = int i + 1) (rev (map mk idx)) = (if short cfg d i then Some (mk i) else None)"
    using i by (simp add: rev_map find_map find_eq idx_def)
  have "find (\<lambda>s. item_id s = int i + 1) (inventory_item d) \<noteq> None"
    using level_wf [OF ok, of "int i + 1"] i by (auto simp: level_def QUANTITY_ITEMS_def)
  then have "level (map (\<lambda>s. s\<lparr>quantity := 0\<rparr>) (get_inventory_snapshot d)) (int i + 1) = Some 0"
    by (auto simp: level_def get_inventory_snapshot_def find_map option.map_comp o_def)
  then show ?thesis
    unfolding build_full_request_payload_def level_set_amounts low f by (simp add: mk_def Let_def max_def)
qed

lemma mark_nth:
  assumes "i < QUANTITY_ITEMS" "length (pending_stock_request d) = QUANTITY_ITEMS" "set idx \<subseteq> {..<QUANTITY_ITEMS}"
  shows "pending_stock_request (mark_pending_stock_requests idx d) ! i \<longleftrightarrow> pending_stock_request d ! i \<or> i \<in> set idx"
proof -
  have "length p = QUANTITY_ITEMS \<Longrightarrow> set idx \<subseteq> {..<QUANTITY_ITEMS} \<Longrightarrow>
      fold (\<lambda>idx p. if idx \<ge> QUANTITY_ITEMS then p else p[idx := True]) idx p ! i \<longleftrightarrow> p ! i \<or> i \<in> set idx" for p
    using assms(1) by (induction idx arbitrary: p) (auto simp: nth_list_update)
  with assms show ?thesis by (simp add: mark_pending_stock_requests_def)
qed


section \<open>Instances\<close>

definition plain_cjson :: "unit cjson" where
  "plain_cjson = \<lparr>cj_parse = \<lambda>_. Some (), cj_print = \<lambda>_ _. Some ''{}'', cj_get = \<lambda>_ _. None, cj_string = \<lambda>_. None,
     cj_number = \<lambda>_. None, cj_elems = \<lambda>_. None, cj_is_object = \<lambda>_. False, cj_mk_string = \<lambda>_. (), cj_mk_number = \<lambda>_. (),
     cj_mk_array = \<lambda>_. (), cj_mk_object = \<lambda>_. ()\<rparr>"

definition epoch :: timeval where
  "epoch = \<lparr>tm_sec = 0, tm_usec = 0\<rparr>"

definition demo_hub :: shared_data_t where
  "demo_hub = start_state ''HUB'' ''hub_1''"

lemma text_of_plain [simp]: "text_of plain_cjson (Inr m) = Some ''{}''"
  by (simp add: text_of_def serialize_message_to_json_def plain_cjson_def strncpy_field_def c_str_def BUFFER_SIZE_def)

lemma demo_hub_ok: "shared_ok demo_hub" "queued demo_hub = []" "message_count demo_hub = 0" "client_role demo_hub = ''HUB''"
  using shared_ok_fresh
  by (simp_all add: demo_hub_def start_state_def shared_ok_def queue_ok_def acks_ok_def queued_def) (simp_all add: fresh_shared_data_def)


definition demo_items :: payload_items_list where
  "demo_items = \<lparr>items = \<lparr>item_id = 2, item_name = ''water'', quantity = 5\<rparr> # replicate 5 zero_item, order_timestamp = ''t0''\<rparr>"

definition demo_delivery :: "string \<Rightarrow> message_t" where
  "demo_delivery mt = \<lparr>msg_type = mt, source_role = ''SERVER'', source_id = ''SERVER'',
     target_role = ''HUB'', target_id = ''hub_1'', timestamp = ''t1'', payload = payload_copy (items_list_image demo_items), checksum = ''''\<rparr>"

lemma load_demo: "load_items_list (payload (demo_delivery mt)) = demo_items"
proof -
  have "items_list_ok demo_items"
    by (simp add: items_list_ok_def demo_items_def item_ok_def zero_item_def int32_ok_def fits_def size_defs)
  then show ?thesis by (simp add: demo_delivery_def um_items.load_copy)
qed

lemma demo_level: "level (inventory_item demo_hub) 2 = Some 0"
  by (simp add: demo_hub_def start_state_def fresh_shared_data_def initial_inventory_def level_def QUANTITY_ITEMS_def upt_conv_Cons)

lemma demo_amount: "amount (items demo_items) 2 = 5"
  by (simp add: amount_def demo_items_def zero_item_def)




definition unacked :: shared_data_t where
  "unacked = perform timer_config (A_add_ack (Some \<lparr>ts_sec = 0, ts_nsec = 0\<rparr>) ''t1'' ''HUB_TO_SERVER__STOCK_REQUEST'' ''{}'') demo_hub"

lemma unacked_ok: "shared_ok unacked"
proof -
  have "client_op (perform timer_config (A_add_ack (Some \<lparr>ts_sec = 0, ts_nsec = 0\<rparr>) ''t1'' ''HUB_TO_SERVER__STOCK_REQUEST'' ''{}''))"
    by (rule client_op_perform) (simp add: fits_def TIMESTAMP_SIZE_def MESSAGE_TYPE_SIZE_def)
  then show ?thesis unfolding unacked_def by (rule client_op.keeps [OF _ demo_hub_ok(1)])
qed

lemma unacked_table:
  "pending_acks unacked = \<lparr>pa_send_time = \<lparr>ts_sec = 0, ts_nsec = 0\<rparr>, pa_msg_id = ''t1'',
     pa_msg_type = ''HUB_TO_SERVER__STOCK_REQUEST'', pa_message_json = ''{}'', pa_retry_count = 0, pa_active = True\<rparr> # replicate 9 zero_ack"
proof -
  have f: "strncpy_field TIMESTAMP_SIZE ''t1'' = ''t1''" "strncpy_field BUFFER_SIZE ''{}'' = ''{}''"
    "strncpy_field MESSAGE_TYPE_SIZE ''HUB_TO_SERVER__STOCK_REQUEST'' = ''HUB_TO_SERVER__STOCK_REQUEST''"
    by (simp_all add: strncpy_field_id fits_def size_defs)
  have "replicate MAX_PENDING_ACKS zero_ack = zero_ack # replicate 9 zero_ack"
    by (simp add: MAX_PENDING_ACKS_def numeral_nat)
  then have "pending_acks demo_hub = zero_ack # replicate 9 zero_ack"
    by (simp add: demo_hub_def start_state_def fresh_shared_data_def)
  then show ?thesis
    by (simp add: unacked_def add_pending_ack_def zero_ack_def f Let_def list_ex_iff)
qed

theorem ack_checker_exact_witness:
  "fst (ack_checker_iteration timer_config (Some \<lparr>ts_sec = 5, ts_nsec = 0\<rparr>) unacked)
   \<and> queued (snd (ack_checker_iteration timer_config (Some \<lparr>ts_sec = 5, ts_nsec = 0\<rparr>) unacked)) = [''{}'']"
proof -
  have q: "queued unacked = []"
    using demo_hub_ok(2,3) by (simp add: unacked_def add_pending_ack_def Let_def queued_def)
  show ?thesis
    using ack_checker_exact [OF unacked_ok, of timer_config "\<lparr>ts_sec = 5, ts_nsec = 0\<rparr>"] q
    by (simp add: unacked_table Let_def due_def exhausted_def retried_def zero_ack_def elapsed_ms_def timer_config_def MAX_PENDING_MESSAGES_def)
qed

end
