(* ===== verification/Spec2Isabelle.thy ===== *)
theory Spec2Isabelle
  imports Posix_Address Worker Server_Proofs Api_Rest Client_Proofs
begin

text \<open>
  Verification development of the logistics server.
\<close>

section \<open>Client and server over TCP\<close>

lemma frames_of_sends:
  assumes "\<forall>m\<in>set msgs. fits BUFFER_SIZE m"
  shows "frames_of (concat (map tcp_buffer msgs)) = map tcp_buffer msgs" "rest_of (concat (map tcp_buffer msgs)) = []"
  using assms frames_short [of "[]"] by (induction msgs) (simp_all add: frames_append BUFFER_SIZE_def)

text \<open>The two sides pad a text alike.\<close>

lemma frame_tcp_buffer: "fits BUFFER_SIZE m \<Longrightarrow> frame m = tcp_buffer m"
proof -
  assume "fits BUFFER_SIZE m"
  then have "length m < BUFFER_SIZE" "take (BUFFER_SIZE - 1) m = m" by (auto simp: fits_def)
  then show ?thesis by (simp add: frame_def tcp_buffer_def snprintf_def Let_def)
qed


section \<open>A UDP endpoint that fell silent\<close>

lemma udp_sid_nonempty: "strncpy_field SESSION_ID_SIZE (make_udp_session_id ntp ep) \<noteq> ''''"
  by (simp add: strncpy_field_def make_udp_session_id_def UDP_SESSION_PREFIX_def SESSION_ID_SIZE_def c_str_def)

text \<open>C34: When the keepalive of a logged-in UDP client expires, the reactor queues a disconnection and drops the session.
  A worker that has handled it ignores every later datagram of the same address and port, whatever happens in
  between and even if it is a new login: the identifier of the next session is the one marked as dead.\<close>

theorem silent_udp_endpoint_locked_out:
  assumes sid: "sid = make_udp_session_id ntp ep"
    and info: "get_session_info (m_session_manager s) sid = Some info" "si_type info = Conn_UDP" "si_username info \<noteq> ''''"
    and bytes: "take (BUFFER_SIZE - 1) bytes \<noteq> ''''"
  shows "m_shm (handle_keepalive_timeout clk sid s) = snd (push_request (disconnect_request sid info) (m_shm s))
    \<and> get_session_info (m_session_manager (handle_keepalive_timeout clk sid s)) sid = None
    \<and> (\<exists>req. m_shm (udp_on_datagram ntp ep bytes later) = snd (push_request req (m_shm later))
        \<and> (let st1 = run_requests cfg cj pg tv (disconnect_request sid info # reqs) st
           in process_request cfg cj pg tv' req st1 = (Returned [], st1)))"
proof -
  define req where "req = message_request UDP (snd (get_or_create_udp_session ntp ep (m_session_manager later))) sid
    (c_str (take (BUFFER_SIZE - 1) bytes)) (of_nat (length (take (BUFFER_SIZE - 1) bytes)))"
  have "fst (get_or_create_udp_session ntp ep (m_session_manager later)) = sid"
    by (simp add: get_or_create_udp_session_def sid Let_def split: option.splits)
  then have r: "m_shm (udp_on_datagram ntp ep bytes later) = snd (push_request req (m_shm later))"
    using bytes by (simp add: udp_on_datagram_def req_def Let_def case_prod_beta)
  have k: "m_shm (handle_keepalive_timeout clk sid s) = snd (push_request (disconnect_request sid info) (m_shm s))"
    "m_session_manager (handle_keepalive_timeout clk sid s) = remove_session sid (m_session_manager s)"
    using info by (simp_all add: handle_keepalive_timeout_def Let_def)
  have g: "get_session_info (remove_session sid (m_session_manager s)) sid = None"
    by (simp add: get_session_info_def remove_session_def Let_def split: option.splits)
  have "process_request cfg cj pg tv' req st1 = (Returned [], st1)"
    if "st1 = run_requests cfg cj pg tv (disconnect_request sid info # reqs) st" for st1
    using udp_sid_nonempty [of ntp ep] that
    by (intro disconnected_session_ignored [of "disconnect_request sid info"])
       (simp_all add: req_def message_request_def disconnect_request_def zero_request_def sid)
  then show ?thesis using r k g by (auto simp: Let_def)
qed

section \<open>Instances\<close>

definition tcp_context :: client_context where
  "tcp_context = \<lparr>sockfd = 3, ctx_protocol = PROTO_TCP\<rparr>"


definition udp_server :: server where
  "udp_server = new_server\<lparr>m_session_manager := mark_authenticated (make_udp_session_id (\<lambda>_ _. ''10.0.0.1'') empty_address) ''HUB'' ''hub_1''
     (snd (get_or_create_udp_session (\<lambda>_ _. ''10.0.0.1'') empty_address new_session_manager))\<rparr>"

theorem silent_udp_endpoint_locked_out_witness:
  "\<exists>info req. m_shm (udp_on_datagram (\<lambda>_ _. ''10.0.0.1'') empty_address ''{}'' demo_server) = snd (push_request req (m_shm demo_server))
     \<and> (let st1 = run_requests Message_Handler.demo_config demo_auth_text demo_pg demo_tv
               [disconnect_request (make_udp_session_id (\<lambda>_ _. ''10.0.0.1'') empty_address) info] demo_auth_state
        in process_request Message_Handler.demo_config demo_auth_text demo_pg demo_tv req st1 = (Returned [], st1))"
proof -
  let ?sid = "make_udp_session_id (\<lambda>_ _. ''10.0.0.1'') empty_address"
  obtain info where "get_session_info (m_session_manager udp_server) ?sid = Some info" "si_type info = Conn_UDP" "si_username info \<noteq> ''''"
    by (simp add: udp_server_def new_session_manager_def get_or_create_udp_session_def mark_authenticated_def
        get_session_info_def new_session_info_def Let_def)
  moreover have "take (BUFFER_SIZE - 1) ''{}'' \<noteq> ''''" by (simp add: BUFFER_SIZE_def)
  ultimately show ?thesis
    using silent_udp_endpoint_locked_out [OF refl, where reqs = "[]" and later = demo_server and s = udp_server] by blast
qed

end
